theory Spec2Isabelle
  imports Complex_Main "HOL-Library.Word"
begin

section \<open>Go values and library functions used by the server\<close>

text \<open>
  A value of Go's \<open>interface{}\<close> as \<open>encoding/json\<close> and the program produce it.
  A \<open>float64\<close> is kept as the pair mantissa, exponent of the finite binary number
  \<open>m * 2 ^ e\<close> it denotes (JSON decoding never yields NaN or an infinity), a
  \<open>map[string]interface{}\<close> as a partial function on its keys.
\<close>

datatype gval =
    GNil
  | GBool bool
  | GFloat int int
  | GInt int
  | GStr string
  | GArr "gval list"
  | GObj "string \<Rightarrow> gval option"

type_synonym gmap = "string \<Rightarrow> gval option"

text \<open>Go errors are messages; \<open>fmt.Errorf\<close> builds them.\<close>

datatype error = Errorf string

fun message :: "error \<Rightarrow> string" where
  "message (Errorf m) = m"

subsection \<open>strconv.Itoa and strconv.Atoi\<close>

definition digit_char :: "nat \<Rightarrow> char" where
  "digit_char d = ''0123456789'' ! d"

fun nat_digits :: "nat \<Rightarrow> string" where
  "nat_digits n =
     (if n < 10 then [digit_char n] else nat_digits (n div 10) @ [digit_char (n mod 10)])"

declare nat_digits.simps [simp del]

definition Itoa :: "int \<Rightarrow> string" where
  "Itoa i = (if i < 0 then CHR ''-'' # nat_digits (nat (- i)) else nat_digits (nat i))"

definition is_digit :: "char \<Rightarrow> bool" where
  "is_digit c = (48 \<le> (of_char c :: nat) \<and> (of_char c :: nat) \<le> 57)"

definition digit_val :: "char \<Rightarrow> nat" where
  "digit_val c = of_char c - 48"

fun parse_digits :: "string \<Rightarrow> nat \<Rightarrow> nat option" where
  "parse_digits [] acc = Some acc"
| "parse_digits (c # cs) acc =
     (if is_digit c then parse_digits cs (acc * 10 + digit_val c) else None)"

text \<open>
  \<open>strconv.Atoi\<close> on a 64-bit platform: an optional sign, then at least one decimal
  digit and nothing else; a value outside the range of \<open>int\<close> is an error. The
  callers only test \<open>err == nil\<close>, so the error is \<open>None\<close>.
\<close>

definition Atoi :: "string \<Rightarrow> int option" where
  "Atoi s =
     (case s of
        [] \<Rightarrow> None
      | c # cs \<Rightarrow>
          (let neg = (c = CHR ''-'');
               ds = (if c = CHR ''-'' \<or> c = CHR ''+'' then cs else s)
           in if ds = [] then None
              else (case parse_digits ds 0 of
                      None \<Rightarrow> None
                    | Some n \<Rightarrow>
                        (let v = (if neg then - int n else int n)
                         in if - (2 ^ 63) \<le> v \<and> v < 2 ^ 63 then Some v else None))))"

subsection \<open>Conversion of a float64 to int\<close>

text \<open>
  \<open>int(v)\<close> drops the fraction (rounds toward zero). When the result does not fit
  \<open>int\<close> the Go specification leaves the value to the implementation: it is the
  parameter \<open>oor\<close>.
\<close>

definition float_trunc :: "int \<Rightarrow> int \<Rightarrow> int" where
  "float_trunc m e =
     (if 0 \<le> e then m * 2 ^ nat e
      else if 0 \<le> m then m div 2 ^ nat (- e)
      else - ((- m) div 2 ^ nat (- e)))"

definition float_to_int :: "(int \<Rightarrow> int \<Rightarrow> int) \<Rightarrow> int \<Rightarrow> int \<Rightarrow> int" where
  "float_to_int oor m e =
     (let t = float_trunc m e
      in if - (2 ^ 63) \<le> t \<and> t < 2 ^ 63 then t else oor m e)"

subsection \<open>strings.TrimSpace\<close>

text \<open>
  The white space of \<open>unicode.IsSpace\<close> in UTF-8: the six ASCII characters,
  U+0085, U+00A0, U+1680, U+2000 to U+200A, U+2028, U+2029, U+202F, U+205F, U+3000.
\<close>

definition space_tokens :: "string list" where
  "space_tokens =
     [[CHR 0x09], [CHR 0x0A], [CHR 0x0B], [CHR 0x0C], [CHR 0x0D], [CHR 0x20],
      [CHR 0xC2, CHR 0x85], [CHR 0xC2, CHR 0xA0], [CHR 0xE1, CHR 0x9A, CHR 0x80]]
     @ map (\<lambda>b. [CHR 0xE2, CHR 0x80, char_of b]) [0x80 ..< (0x8B :: nat)]
     @ [[CHR 0xE2, CHR 0x80, CHR 0xA8], [CHR 0xE2, CHR 0x80, CHR 0xA9],
        [CHR 0xE2, CHR 0x80, CHR 0xAF], [CHR 0xE2, CHR 0x81, CHR 0x9F],
        [CHR 0xE3, CHR 0x80, CHR 0x80]]"

fun leading_token :: "string list \<Rightarrow> string \<Rightarrow> nat" where
  "leading_token [] s = 0"
| "leading_token (t # ts) s =
     (if t \<noteq> [] \<and> take (length t) s = t then length t else leading_token ts s)"

function trim_tokens :: "string list \<Rightarrow> string \<Rightarrow> string" where
  "trim_tokens ts s =
     (let n = leading_token ts s
      in if n = 0 \<or> length s < n then s else trim_tokens ts (drop n s))"
  by pat_completeness auto
termination
  by (relation "measure (\<lambda>(ts, s). length s)") auto

declare trim_tokens.simps [simp del]

definition TrimSpace :: "string \<Rightarrow> string" where
  "TrimSpace s =
     rev (trim_tokens (map rev space_tokens) (rev (trim_tokens space_tokens s)))"

subsection \<open>encoding/json: the members of an object that a struct field takes\<close>

text \<open>
  \<open>json.Unmarshal\<close> gives a member of an object to the struct field whose name is
  the member's key or, when there is none, to the field whose folded name is the
  folded key. \<open>foldName\<close> turns an ASCII letter into its upper case and any other
  rune into the smallest rune of its class under Unicode simple case folding: the
  long s (U+017F) becomes \<open>S\<close>, the Kelvin sign (U+212A) becomes \<open>K\<close>, and no other
  rune outside ASCII becomes an ASCII character. A key is valid UTF-8, the decoder
  that built the map having replaced every other byte sequence. The runes outside
  ASCII other than these two are left as they are here; they fold to runes outside
  ASCII, so this does not change whether a folded key is the folded name of a field,
  the names of the fields being ASCII.
\<close>

definition byte :: "char \<Rightarrow> nat" where
  "byte c = of_char c"

definition long_s :: string where
  "long_s = [CHR 0xC5, CHR 0xBF]"

definition kelvin :: string where
  "kelvin = [CHR 0xE2, CHR 0x84, CHR 0xAA]"

definition to_upper :: "char \<Rightarrow> char" where
  "to_upper c = (if 97 \<le> byte c \<and> byte c \<le> 122 then char_of (byte c - 32) else c)"

definition to_lower :: "char \<Rightarrow> char" where
  "to_lower c = (if 65 \<le> byte c \<and> byte c \<le> 90 then char_of (byte c + 32) else c)"

function foldName :: "string \<Rightarrow> string" where
  "foldName [] = []"
| "foldName (c # cs) =
     (if byte c < 128 then to_upper c # foldName cs
      else if take 2 (c # cs) = long_s then CHR ''S'' # foldName (drop 1 cs)
      else if take 3 (c # cs) = kelvin then CHR ''K'' # foldName (drop 2 cs)
      else c # foldName cs)"
  by pat_completeness auto
termination
  by (relation "measure length") simp_all

text \<open>
  The program hands \<open>json.Unmarshal\<close> the bytes that \<open>json.Marshal\<close> made of a map.
  \<open>Marshal\<close> writes the members of a map in the byte order of their keys, and
  \<open>Unmarshal\<close> stores them one after the other as it reads them. \<open>spellings\<close> lists
  the keys that fold to a name made of ASCII letters, in byte order: at each letter
  the upper case, the lower case and, for \<open>s\<close> and \<open>k\<close>, the long s and the Kelvin
  sign. \<open>members\<close> gives the values an object has under these keys, in that order.
\<close>

definition letter :: "char \<Rightarrow> bool" where
  "letter c = ((65 \<le> byte c \<and> byte c \<le> 90) \<or> (97 \<le> byte c \<and> byte c \<le> 122))"

definition forms :: "char \<Rightarrow> string list" where
  "forms c =
     [to_upper c] # [to_lower c]
     # (if to_lower c = CHR ''s'' then [long_s]
        else if to_lower c = CHR ''k'' then [kelvin] else [])"

fun spellings :: "string \<Rightarrow> string list" where
  "spellings [] = [[]]"
| "spellings (c # cs) = concat (map (\<lambda>f. map ((@) f) (spellings cs)) (forms c))"

definition members :: "string \<Rightarrow> (string \<Rightarrow> 'v option) \<Rightarrow> 'v list" where
  "members name m = List.map_filter m (spellings name)"

fun bytes_less :: "string \<Rightarrow> string \<Rightarrow> bool" where
  "bytes_less [] [] = False"
| "bytes_less [] (b # bs) = True"
| "bytes_less (a # as) [] = False"
| "bytes_less (a # as) (b # bs) = (byte a < byte b \<or> (a = b \<and> bytes_less as bs))"

text \<open>
  Storing a value in a field, together with the flag that an
  \<open>UnmarshalTypeError\<close> has been saved. In a field of type
  \<open>map[string]interface{}\<close> an object adds its members to the map that is there,
  which is made when still nil, and null sets the nil map. In a field of type
  \<open>string\<close> a string replaces the value and null changes nothing. A value of any
  other kind leaves the field as it is and saves the error, and decoding goes on.
\<close>

fun store_map :: "gval \<Rightarrow> gmap option \<times> bool \<Rightarrow> gmap option \<times> bool" where
  "store_map (GObj obj) (cur, failed) =
     (Some ((case cur of None \<Rightarrow> Map.empty | Some old \<Rightarrow> old) ++ obj), failed)"
| "store_map GNil (cur, failed) = (None, failed)"
| "store_map v (cur, failed) = (cur, True)"

fun store_string :: "gval \<Rightarrow> string \<times> bool \<Rightarrow> string \<times> bool" where
  "store_string (GStr v) (cur, failed) = (v, failed)"
| "store_string GNil (cur, failed) = (cur, failed)"
| "store_string v (cur, failed) = (cur, True)"

section \<open>api: query parameters and the entity catalog\<close>

record QueryParams =
  Entity :: string
  Select :: string
  Filter :: string
  Top :: int
  Skip :: int
  OrderBy :: string
  Expand :: string
  IgnoreNulls :: bool
  IgnoreCase :: bool

text \<open>The names of \<open>GetSupportedEntities\<close>, in its order.\<close>

definition GetSupportedEntities :: "string list" where
  "GetSupportedEntities =
     [''Property'', ''Member'', ''Office'', ''Media'', ''OpenHouse'', ''Dom'',
      ''PropertyUnitTypes'', ''PropertyRooms'', ''RawMlsProperty'']"

fun name_in :: "string \<Rightarrow> string list \<Rightarrow> bool" where
  "name_in entity [] = False"
| "name_in entity (e # es) = (if e = entity then True else name_in entity es)"

definition IsValidEntity :: "string \<Rightarrow> bool" where
  "IsValidEntity entity = name_in entity GetSupportedEntities"

definition limits :: "string \<Rightarrow> int option" where
  "limits =
     [''Property'' \<mapsto> 1000000, ''Office'' \<mapsto> 500000, ''Media'' \<mapsto> 50000,
      ''OpenHouse'' \<mapsto> 500000, ''PropertyRooms'' \<mapsto> 50000, ''Dom'' \<mapsto> 50000,
      ''Member'' \<mapsto> 500000, ''RawMlsProperty'' \<mapsto> 50000,
      ''PropertyUnitTypes'' \<mapsto> 50000]"

definition GetEntitySkipLimit :: "string \<Rightarrow> int" where
  "GetEntitySkipLimit entity =
     (case limits entity of Some limit \<Rightarrow> limit | None \<Rightarrow> 50000)"

section \<open>tools: parsing the arguments of reso\_query\<close>

text \<open>
  The numeric switch of \<open>parseArguments\<close> for \<open>top\<close> and \<open>skip\<close>: the field
  keeps its old value unless the argument is a float64, an int or a string that
  \<open>Atoi\<close> accepts.
\<close>

fun coerce_int :: "(int \<Rightarrow> int \<Rightarrow> int) \<Rightarrow> gval option \<Rightarrow> int \<Rightarrow> int" where
  "coerce_int oor None old = old"
| "coerce_int oor (Some (GFloat m e)) old = float_to_int oor m e"
| "coerce_int oor (Some (GInt v)) old = v"
| "coerce_int oor (Some (GStr v)) old = (case Atoi v of Some n \<Rightarrow> n | None \<Rightarrow> old)"
| "coerce_int oor (Some _) old = old"

fun trimmed_string :: "gval option \<Rightarrow> string \<Rightarrow> string" where
  "trimmed_string (Some (GStr v)) old = TrimSpace v"
| "trimmed_string _ old = old"

fun bool_arg :: "gval option \<Rightarrow> bool \<Rightarrow> bool" where
  "bool_arg (Some (GBool b)) old = b"
| "bool_arg _ old = old"

definition parseArguments :: "(int \<Rightarrow> int \<Rightarrow> int) \<Rightarrow> gmap \<Rightarrow> error + QueryParams" where
  "parseArguments oor args =
     (case args ''entity'' of
        Some (GStr entity) \<Rightarrow>
          Inr \<lparr> Entity = entity,
                Select = trimmed_string (args ''select'') [],
                Filter = trimmed_string (args ''filter'') [],
                Top = coerce_int oor (args ''top'') 0,
                Skip = coerce_int oor (args ''skip'') 0,
                OrderBy = trimmed_string (args ''orderby'') [],
                Expand = trimmed_string (args ''expand'') [],
                IgnoreNulls = bool_arg (args ''ignorenulls'') True,
                IgnoreCase = bool_arg (args ''ignorecase'') False \<rparr>
      | _ \<Rightarrow> Inl (Errorf ''entity is required''))"

section \<open>api: the query parameters of the outgoing request\<close>

text \<open>
  \<open>url.Values\<close> is a map from a key to its values; \<open>Set\<close> stores one value.
  The parameters are added in the order of \<open>Client.Query\<close>.
\<close>

type_synonym url_values = "string \<Rightarrow> string list option"

definition Set_value :: "url_values \<Rightarrow> string \<Rightarrow> string \<Rightarrow> url_values" where
  "Set_value q k v = q(k \<mapsto> [v])"

definition query_values :: "QueryParams \<Rightarrow> url_values" where
  "query_values params =
     (let q0 = Map.empty;
          q1 = (if Select params \<noteq> [] then Set_value q0 ''$select'' (Select params) else q0);
          q2 = (if Filter params \<noteq> [] then Set_value q1 ''$filter'' (Filter params) else q1);
          q3 = (if Top params > 0 then Set_value q2 ''$top'' (Itoa (Top params)) else q2);
          q4 = (if Skip params > 0 then Set_value q3 ''$skip'' (Itoa (Skip params)) else q3);
          q5 = (if OrderBy params \<noteq> [] then Set_value q4 ''$orderby'' (OrderBy params) else q4);
          q6 = (if IgnoreNulls params then Set_value q5 ''$ignorenulls'' ''true'' else q5);
          q7 = (if IgnoreCase params then Set_value q6 ''$ignorecase'' ''true'' else q6)
      in q7)"

section \<open>auth: the OAuth client and its token cache\<close>

record TokenResponse =
  AccessToken :: string
  ExpiresIn :: int
  TokenType :: string

text \<open>
  A \<open>time.Time\<close> is a number of nanoseconds on one time line; \<open>Before\<close> is \<open><\<close>
  and \<open>Add\<close> is \<open>+\<close>. The token pointer is \<open>None\<close> when nil.
\<close>

record OAuthClient =
  clientID :: string
  clientSecret :: string
  authURL :: string
  token :: "TokenResponse option"
  tokenExpiry :: int

definition NewOAuthClient :: "string \<Rightarrow> string \<Rightarrow> string \<Rightarrow> OAuthClient" where
  "NewOAuthClient cid csecret url =
     \<lparr> clientID = cid, clientSecret = csecret, authURL = url, token = None, tokenExpiry = 0 \<rparr>"

text \<open>
  \<open>time.Duration(tokenResp.ExpiresIn-60) * time.Second\<close>: 64-bit signed arithmetic
  that wraps, in nanoseconds.
\<close>

definition Second :: int where
  "Second = 1000000000"

definition expiry_duration :: "int \<Rightarrow> int" where
  "expiry_duration expires_in =
     sint ((word_of_int (expires_in - 60) :: 64 word) * word_of_int Second)"

text \<open>
  What the outside world answers to the token request, should the client send one:
  \<open>http.NewRequest\<close> fails, \<open>httpClient.Do\<close> fails, reading the body fails, or a
  response arrives with its status, its body and what \<open>json.Unmarshal\<close> makes of the
  body as a \<open>TokenResponse\<close>.
\<close>

datatype auth_reply =
    AuthRequestError string
  | AuthTransportError string
  | AuthReadError string
  | AuthResponse int string "error + TokenResponse"

text \<open>
  The clock readings of one \<open>GetToken\<close> call (the optimistic check, the second check
  under the exclusive lock, the moment the new token is stored) and the reply.
\<close>

record auth_io =
  now_check :: int
  now_recheck :: int
  reply :: auth_reply
  now_store :: int

text \<open>What leaves the process: the token request and the API requests.\<close>

datatype effect =
    AuthPost string string string
  | ApiGet string url_values string
  | MetadataGet string string

definition cached_token :: "OAuthClient \<Rightarrow> int \<Rightarrow> string option" where
  "cached_token c now =
     (case token c of
        None \<Rightarrow> None
      | Some t \<Rightarrow> if now < tokenExpiry c then Some (AccessToken t) else None)"

definition refreshToken :: "OAuthClient \<Rightarrow> auth_io \<Rightarrow> (error + string) \<times> OAuthClient \<times> effect list" where
  "refreshToken c io =
     (case cached_token c (now_recheck io) of
        Some t \<Rightarrow> (Inr t, c, [])
      | None \<Rightarrow>
          (let post = AuthPost (authURL c) (clientID c) (clientSecret c)
           in case reply io of
                AuthRequestError e \<Rightarrow>
                  (Inl (Errorf (''failed to create request: '' @ e)), c, [])
              | AuthTransportError e \<Rightarrow>
                  (Inl (Errorf (''failed to make request: '' @ e)), c, [post])
              | AuthReadError e \<Rightarrow>
                  (Inl (Errorf (''failed to read response: '' @ e)), c, [post])
              | AuthResponse status body decoded \<Rightarrow>
                  if status \<noteq> 200 then
                    (Inl (Errorf (''authentication failed with status '' @ Itoa status
                                 @ '': '' @ body)), c, [post])
                  else
                    (case decoded of
                       Inl e \<Rightarrow>
                         (Inl (Errorf (''failed to parse token response: '' @ message e)),
                          c, [post])
                     | Inr tokenResp \<Rightarrow>
                         (Inr (AccessToken tokenResp),
                          c\<lparr> token := Some tokenResp,
                             tokenExpiry := now_store io + expiry_duration (ExpiresIn tokenResp) \<rparr>,
                          [post]))))"

definition GetToken :: "OAuthClient \<Rightarrow> auth_io \<Rightarrow> (error + string) \<times> OAuthClient \<times> effect list" where
  "GetToken c io =
     (case cached_token c (now_check io) of
        Some t \<Rightarrow> (Inr t, c, [])
      | None \<Rightarrow> refreshToken c io)"

section \<open>api: the client\<close>

record APIResponse =
  Context :: string
  Count :: int
  TotalCount :: int
  Value :: "gval list"
  Group :: "gval list"
  NextLink :: string
  Debug :: gval
  RequestTime :: int
  ResponseTime :: int
  RequestParams :: QueryParams

record Client =
  baseURL :: string
  oauthClient :: OAuthClient

definition NewClient :: "string \<Rightarrow> OAuthClient \<Rightarrow> Client" where
  "NewClient url oc = \<lparr> baseURL = url, oauthClient = oc \<rparr>"

text \<open>
  The answer to the data request: request creation, transport, gzip reader or body
  read fails, or a response arrives with its status, its (decompressed) body, the
  code and message \<open>json.Unmarshal\<close> reads from it as an \<open>ErrorResponse\<close>
  (\<open>None\<close> when that fails) and what it reads from it as an \<open>APIResponse\<close>.
\<close>

datatype data_reply =
    DataRequestError string
  | DataTransportError string
  | DataGzipError string
  | DataReadError string
  | DataResponse int string "(string \<times> string) option" "error + APIResponse"

record query_io =
  startTime :: int
  auth :: auth_io
  data :: data_reply
  endTime :: int

text \<open>
  \<open>Client.Query\<close> in two parts: the two validation checks, and \<open>send_query\<close>, the
  rest of the function from "Build URL" on.
\<close>

definition send_query :: "Client \<Rightarrow> QueryParams \<Rightarrow> query_io \<Rightarrow> (error + APIResponse) \<times> Client \<times> effect list" where
  "send_query c params io =
     (let apiURL = baseURL c @ ''/'' @ Entity params;
          queryParams = query_values params
      in case GetToken (oauthClient c) (auth io) of
           (Inl e, oc, fx) \<Rightarrow>
             (Inl (Errorf (''failed to get access token: '' @ message e)),
              c\<lparr> oauthClient := oc \<rparr>, fx)
         | (Inr tok, oc, fx) \<Rightarrow>
             (let c' = c\<lparr> oauthClient := oc \<rparr>;
                  sent = fx @ [ApiGet apiURL queryParams tok]
              in case data io of
                   DataRequestError e \<Rightarrow>
                     (Inl (Errorf (''failed to create request: '' @ e)), c', fx)
                 | DataTransportError e \<Rightarrow>
                     (Inl (Errorf (''failed to make request: '' @ e)), c', sent)
                 | DataGzipError e \<Rightarrow>
                     (Inl (Errorf (''failed to create gzip reader: '' @ e)), c', sent)
                 | DataReadError e \<Rightarrow>
                     (Inl (Errorf (''failed to read response: '' @ e)), c', sent)
                 | DataResponse status body errorResp decoded \<Rightarrow>
                     if status \<noteq> 200 then
                       (case errorResp of
                          Some (code, msg) \<Rightarrow>
                            (Inl (Errorf (''API error ('' @ Itoa status @ ''): '' @ code
                                          @ '' - '' @ msg)), c', sent)
                        | None \<Rightarrow>
                            (Inl (Errorf (''API request failed with status '' @ Itoa status
                                          @ '': '' @ body)), c', sent))
                     else
                       (case decoded of
                          Inl e \<Rightarrow>
                            (Inl (Errorf (''failed to parse response: '' @ message e)),
                             c', sent)
                        | Inr apiResp \<Rightarrow>
                            (Inr (apiResp\<lparr> RequestTime := startTime io,
                                           ResponseTime := endTime io - startTime io,
                                           RequestParams := params \<rparr>),
                             c', sent))))"

definition Query :: "Client \<Rightarrow> QueryParams \<Rightarrow> query_io \<Rightarrow> (error + APIResponse) \<times> Client \<times> effect list" where
  "Query c params io =
     (if \<not> IsValidEntity (Entity params) then
        (Inl (Errorf (''unsupported entity: '' @ Entity params)), c, [])
      else if Skip params > 0 \<and> Skip params > GetEntitySkipLimit (Entity params) then
        (Inl (Errorf (''skip value '' @ Itoa (Skip params) @ '' exceeds limit ''
                      @ Itoa (GetEntitySkipLimit (Entity params)) @ '' for entity ''
                      @ Entity params)), c, [])
      else send_query c params io)"

text \<open>\<open>GetMetadata\<close>: the same token step, then one request for the metadata document.\<close>

datatype metadata_reply =
    MetaRequestError string
  | MetaTransportError string
  | MetaReadError string
  | MetaResponse int string

record metadata_io =
  meta_auth :: auth_io
  meta_reply :: metadata_reply

definition GetMetadata :: "Client \<Rightarrow> metadata_io \<Rightarrow> (error + string) \<times> Client \<times> effect list" where
  "GetMetadata c io =
     (case GetToken (oauthClient c) (meta_auth io) of
        (Inl e, oc, fx) \<Rightarrow>
          (Inl (Errorf (''failed to get access token: '' @ message e)),
           c\<lparr> oauthClient := oc \<rparr>, fx)
      | (Inr tok, oc, fx) \<Rightarrow>
          (let c' = c\<lparr> oauthClient := oc \<rparr>;
               sent = fx @ [MetadataGet (baseURL c @ ''/$metadata'') tok]
           in case meta_reply io of
                MetaRequestError e \<Rightarrow>
                  (Inl (Errorf (''failed to create request: '' @ e)), c', fx)
              | MetaTransportError e \<Rightarrow>
                  (Inl (Errorf (''failed to make request: '' @ e)), c', sent)
              | MetaReadError e \<Rightarrow>
                  (Inl (Errorf (''failed to read response: '' @ e)), c', sent)
              | MetaResponse status body \<Rightarrow>
                  if status \<noteq> 200 then
                    (Inl (Errorf (''metadata request failed with status '' @ Itoa status
                                  @ '': '' @ body)), c', sent)
                  else (Inr body, c', sent)))"

section \<open>config\<close>

record Config =
  ClientID :: string
  ClientSecret :: string
  AuthURL :: string
  BaseURL :: string

definition DefaultConfig :: Config where
  "DefaultConfig =
     \<lparr> ClientID = [], ClientSecret = [],
       AuthURL = ''https://authenticate.constellation1apis.com/oauth2/token'',
       BaseURL = ''https://listings.cdatalabs.com/odata'' \<rparr>"

text \<open>
  A settings map is \<open>None\<close> when it is the nil map. \<open>settings["k"].(string)\<close> holds
  for a key that is present with a string value.
\<close>

fun nonempty_string :: "gval option \<Rightarrow> string option" where
  "nonempty_string (Some (GStr v)) = (if v \<noteq> [] then Some v else None)"
| "nonempty_string _ = None"

definition LoadFromMCPSettings :: "Config \<Rightarrow> gmap option \<Rightarrow> error option \<times> Config" where
  "LoadFromMCPSettings c settings =
     (case settings of
        None \<Rightarrow> (Some (Errorf ''no settings provided''), c)
      | Some m \<Rightarrow>
          (let c1 = (case nonempty_string (m ''client_id'') of
                       Some v \<Rightarrow> c\<lparr> ClientID := v \<rparr> | None \<Rightarrow> c);
               c2 = (case nonempty_string (m ''client_secret'') of
                       Some v \<Rightarrow> c1\<lparr> ClientSecret := v \<rparr> | None \<Rightarrow> c1)
           in (None, c2)))"

text \<open>\<open>os.Getenv\<close> is a function from a name to its value, empty when unset.\<close>

definition LoadFromEnv :: "Config \<Rightarrow> (string \<Rightarrow> string) \<Rightarrow> Config" where
  "LoadFromEnv c getenv =
     (let c1 = (if getenv ''RESO_CLIENT_ID'' \<noteq> []
                then c\<lparr> ClientID := getenv ''RESO_CLIENT_ID'' \<rparr> else c);
          c2 = (if getenv ''RESO_CLIENT_SECRET'' \<noteq> []
                then c1\<lparr> ClientSecret := getenv ''RESO_CLIENT_SECRET'' \<rparr> else c1);
          c3 = (if getenv ''RESO_AUTH_URL'' \<noteq> []
                then c2\<lparr> AuthURL := getenv ''RESO_AUTH_URL'' \<rparr> else c2);
          c4 = (if getenv ''RESO_BASE_URL'' \<noteq> []
                then c3\<lparr> BaseURL := getenv ''RESO_BASE_URL'' \<rparr> else c3)
      in c4)"

definition ValidateCredentials :: "Config \<Rightarrow> error option" where
  "ValidateCredentials c =
     (if ClientID c = [] then
        Some (Errorf ''client_id is required - please configure in MCP settings'')
      else if ClientSecret c = [] then
        Some (Errorf ''client_secret is required - please configure in MCP settings'')
      else None)"

section \<open>tools: executing reso\_query\<close>

record MCPContent =
  Type :: string
  Text :: string

record MCPToolResult =
  Content :: "MCPContent list"
  IsError :: bool

text \<open>
  The tool holds pointers to the API client and to the configuration. The text of a
  successful answer comes from \<open>ToJSON\<close> (\<open>json.MarshalIndent\<close>) and
  \<open>createSummary\<close>, which are parameters here.
\<close>

record ResoQueryTool =
  client :: Client
  config :: Config

record rendering =
  ToJSON :: "APIResponse \<Rightarrow> error + string"
  createSummary :: "APIResponse \<Rightarrow> string"

definition error_result :: "string \<Rightarrow> MCPToolResult" where
  "error_result txt = \<lparr> Content = [\<lparr> Type = ''text'', Text = txt \<rparr>], IsError = True \<rparr>"

definition Execute ::
  "(int \<Rightarrow> int \<Rightarrow> int) \<Rightarrow> rendering \<Rightarrow> ResoQueryTool \<Rightarrow> gmap \<Rightarrow> query_io
     \<Rightarrow> MCPToolResult \<times> ResoQueryTool \<times> effect list" where
  "Execute oor r t args io =
     (case ValidateCredentials (config t) of
        Some err \<Rightarrow> (error_result (''Configuration error: '' @ message err), t, [])
      | None \<Rightarrow>
          (case parseArguments oor args of
             Inl err \<Rightarrow> (error_result (''Error parsing arguments: '' @ message err), t, [])
           | Inr params \<Rightarrow>
               (case Query (client t) params io of
                  (Inl err, c', fx) \<Rightarrow>
                    (error_result (''Error executing query: '' @ message err),
                     t\<lparr> client := c' \<rparr>, fx)
                | (Inr response, c', fx) \<Rightarrow>
                    (case ToJSON r response of
                       Inl err \<Rightarrow>
                         (error_result (''Error formatting response: '' @ message err),
                          t\<lparr> client := c' \<rparr>, fx)
                     | Inr responseJSON \<Rightarrow>
                         (\<lparr> Content =
                              [\<lparr> Type = ''text'', Text = createSummary r response \<rparr>,
                               \<lparr> Type = ''text'',
                                 Text = ''Full Response:'' @ [CHR 0x0A] @ ''```json'' @ [CHR 0x0A]
                                        @ responseJSON @ [CHR 0x0A] @ ''```'' \<rparr>],
                            IsError = False \<rparr>,
                          t\<lparr> client := c' \<rparr>, fx)))))"

section \<open>tools: construction of the help tool\<close>

text \<open>
  \<open>NewResoHelpToolWithAPI\<close> looks for metadata in a cache file, then through the
  API client, then in local files. What the file system and the XML parser answer is
  given: the cache file exists and parses, the fetched document parses, one of the
  local files exists and parses. The tool is its \<open>metadataParser\<close> pointer, \<open>True\<close>
  when set. The server passes a client, so the pointer tested there is never nil.
\<close>

record help_env =
  cache_parses :: bool
  metadata :: metadata_io
  fetched_parses :: bool
  local_parses :: bool

record ResoHelpTool =
  metadataParser :: bool

definition NewResoHelpToolWithAPI :: "Client \<Rightarrow> help_env \<Rightarrow> ResoHelpTool \<times> Client \<times> effect list" where
  "NewResoHelpToolWithAPI c env =
     (if cache_parses env then (\<lparr> metadataParser = True \<rparr>, c, [])
      else
        (case GetMetadata c (metadata env) of
           (Inr metadataXML, c', fx) \<Rightarrow>
             if fetched_parses env then (\<lparr> metadataParser = True \<rparr>, c', fx)
             else (\<lparr> metadataParser = local_parses env \<rparr>, c', fx)
         | (Inl err, c', fx) \<Rightarrow> (\<lparr> metadataParser = local_parses env \<rparr>, c', fx)))"

section \<open>main: the server\<close>

record MCPError =
  Code :: int
  Message :: string

record InitializeResult =
  ProtocolVersion :: string
  Capabilities :: gval
  ServerInfo :: gval

datatype result =
    RInitialize InitializeResult
  | RCallTool MCPToolResult

text \<open>
  A message as \<open>json.Unmarshal\<close> leaves it: \<open>ID\<close> and \<open>Params\<close> are \<open>GNil\<close> when
  absent. A response has a result or an error.
\<close>

record MCPMessage =
  JSONRPC :: string
  ID :: gval
  Method :: string
  Params :: gval
  Result :: "result option"
  Error :: "MCPError option"

text \<open>
  The server. Its tools hold pointers to the server's own client and configuration:
  the record of the query tool repeats both, and every function that changes one of
  them stores it in both places.
\<close>

record MCPServer =
  server_config :: Config
  apiClient :: "Client option"
  resoTool :: "ResoQueryTool option"
  helpTool :: "ResoHelpTool option"
  pendingSettings :: "gmap option"

definition NewMCPServer :: MCPServer where
  "NewMCPServer =
     \<lparr> server_config = DefaultConfig, apiClient = None, resoTool = None, helpTool = None,
       pendingSettings = None \<rparr>"

definition Initialize ::
  "MCPServer \<Rightarrow> gmap option \<Rightarrow> (string \<Rightarrow> string) \<Rightarrow> help_env
     \<Rightarrow> error option \<times> MCPServer \<times> effect list" where
  "Initialize s settings getenv henv =
     (let cfg = (case LoadFromMCPSettings (server_config s) settings of
                   (Some err, c) \<Rightarrow> LoadFromEnv c getenv
                 | (None, c) \<Rightarrow> c);
          oauth = NewOAuthClient (ClientID cfg) (ClientSecret cfg) (AuthURL cfg);
          api = NewClient (BaseURL cfg) oauth
      in case NewResoHelpToolWithAPI api henv of
           (help, api', fx) \<Rightarrow>
             (None,
              s\<lparr> server_config := cfg, apiClient := Some api',
                 resoTool := Some \<lparr> client = api', config = cfg \<rparr>,
                 helpTool := Some help \<rparr>,
              fx))"

text \<open>
  \<open>params.Capabilities\<close> after the round trip of \<open>msg.Params\<close> through
  \<open>json.Marshal\<close> and \<open>json.Unmarshal\<close>, whose error is dropped: when the
  parameters are an object, what the members that the field \<open>capabilities\<close> takes
  leave in it, one stored after the other; nil in every other case.
\<close>

definition decoded_Capabilities :: "gval \<Rightarrow> gmap option" where
  "decoded_Capabilities p =
     (case p of
        GObj m \<Rightarrow> fst (fold store_map (members ''capabilities'' m) (None, False))
      | _ \<Rightarrow> None)"

text \<open>Copying a map over the settings, which are created when still nil.\<close>

definition overlay :: "gmap option \<Rightarrow> gmap \<Rightarrow> gmap option" where
  "overlay settings m =
     Some ((case settings of None \<Rightarrow> Map.empty | Some base \<Rightarrow> base) ++ m)"

definition set_if_exists :: "gmap \<Rightarrow> string \<Rightarrow> gmap \<Rightarrow> gmap" where
  "set_if_exists rawParams k settings =
     (case rawParams k of Some v \<Rightarrow> settings(k \<mapsto> v) | None \<Rightarrow> settings)"

definition initialize_settings :: "MCPServer \<Rightarrow> gval \<Rightarrow> gmap option" where
  "initialize_settings s p =
     (let settings0 = (case pendingSettings s of
                         Some pending \<Rightarrow> Some (Map.empty ++ pending)
                       | None \<Rightarrow> None);
          settings1 = (case decoded_Capabilities p of
                         Some caps \<Rightarrow>
                           (case caps ''settings'' of
                              Some (GObj clientCaps) \<Rightarrow> overlay settings0 clientCaps
                            | _ \<Rightarrow> settings0)
                       | None \<Rightarrow> settings0);
          settings2 = (case p of
                         GObj rawParams \<Rightarrow>
                           (case rawParams ''settings'' of
                              Some (GObj settingsMap) \<Rightarrow> overlay settings1 settingsMap
                            | _ \<Rightarrow> settings1)
                       | _ \<Rightarrow> settings1);
          settings3 = (case p of
                         GObj rawParams \<Rightarrow>
                           Some (set_if_exists rawParams ''client_secret''
                                  (set_if_exists rawParams ''client_id''
                                    (case settings2 of None \<Rightarrow> Map.empty | Some m \<Rightarrow> m)))
                       | _ \<Rightarrow> settings2)
      in settings3)"

definition initialize_result :: InitializeResult where
  "initialize_result =
     \<lparr> ProtocolVersion = ''2024-11-05'',
       Capabilities =
         GObj [''tools'' \<mapsto> GObj [''listChanged'' \<mapsto> GBool False],
               ''resources'' \<mapsto> GObj [''subscribe'' \<mapsto> GBool False,
                                        ''listChanged'' \<mapsto> GBool False]],
       ServerInfo =
         GObj [''name'' \<mapsto> GStr ''constellation1-mcp-server'',
               ''version'' \<mapsto> GStr ''1.0.0'',
               ''description'' \<mapsto> GStr (''RESO (Real Estate Standards Organization) MCP Server providing ''
                 @ ''comprehensive access to MLS data through the Constellation1 API. Features include ''
                 @ ''property listings, agent information, office details, media files, and market ''
                 @ ''analytics with advanced filtering, entity expansion, and privacy controls.''),
               ''author'' \<mapsto> GStr ''Rennie Technologies'',
               ''homepage'' \<mapsto> GStr ''https://github.com/rennietech/constellation1-mcp-server'',
               ''license'' \<mapsto> GStr ''MIT''] \<rparr>"

definition error_response :: "gval \<Rightarrow> int \<Rightarrow> string \<Rightarrow> MCPMessage" where
  "error_response i code msg =
     \<lparr> JSONRPC = ''2.0'', ID = i, Method = [], Params = GNil, Result = None,
       Error = Some \<lparr> Code = code, Message = msg \<rparr> \<rparr>"

definition result_response :: "gval \<Rightarrow> result \<Rightarrow> MCPMessage" where
  "result_response i r =
     \<lparr> JSONRPC = ''2.0'', ID = i, Method = [], Params = GNil, Result = Some r, Error = None \<rparr>"

definition handleInitialize ::
  "MCPServer \<Rightarrow> MCPMessage \<Rightarrow> (string \<Rightarrow> string) \<Rightarrow> help_env
     \<Rightarrow> MCPMessage \<times> MCPServer \<times> effect list" where
  "handleInitialize s msg getenv henv =
     (case Initialize s (initialize_settings s (Params msg)) getenv henv of
        (Some err, s', fx) \<Rightarrow>
          (error_response (ID msg) (- 32603) (''Initialization failed: '' @ message err), s', fx)
      | (None, s', fx) \<Rightarrow>
          (result_response (ID msg) (RInitialize initialize_result), s', fx))"

text \<open>
  \<open>CallToolParams\<close> from \<open>msg.Params\<close>: \<open>None\<close> is the error of
  \<open>json.Unmarshal\<close>, which parameters that are neither null nor an object give, and
  a member of the wrong kind for its field. Nil parameters are not decoded. The nil
  map of arguments is read like the empty one.
\<close>

definition decode_CallToolParams :: "gval \<Rightarrow> (string \<times> gmap) option" where
  "decode_CallToolParams p =
     (case p of
        GNil \<Rightarrow> Some ([], Map.empty)
      | GObj m \<Rightarrow>
          (case (fold store_string (members ''name'' m) ([], False),
                 fold store_map (members ''arguments'' m) (None, False)) of
             ((name, failed1), (arguments, failed2)) \<Rightarrow>
               if failed1 \<or> failed2 then None
               else Some (name, case arguments of None \<Rightarrow> Map.empty | Some a \<Rightarrow> a))
      | _ \<Rightarrow> None)"

text \<open>
  \<open>helpTool.Execute\<close> is the parameter \<open>help\<close>; it is given the pointer the server
  holds.
\<close>

definition handleToolsCall ::
  "(int \<Rightarrow> int \<Rightarrow> int) \<Rightarrow> rendering \<Rightarrow> (ResoHelpTool option \<Rightarrow> gmap \<Rightarrow> MCPToolResult)
     \<Rightarrow> MCPServer \<Rightarrow> MCPMessage \<Rightarrow> query_io \<Rightarrow> MCPMessage \<times> MCPServer \<times> effect list" where
  "handleToolsCall oor r help s msg io =
     (case resoTool s of
        None \<Rightarrow> (error_response (ID msg) (- 32603) ''Server not initialized'', s, [])
      | Some t \<Rightarrow>
          (case decode_CallToolParams (Params msg) of
             None \<Rightarrow> (error_response (ID msg) (- 32602) ''Invalid params'', s, [])
           | Some (name, arguments) \<Rightarrow>
               if name = ''reso_query'' then
                 (case Execute oor r t arguments io of
                    (res, t', fx) \<Rightarrow>
                      (result_response (ID msg) (RCallTool res),
                       s\<lparr> apiClient := Some (client t'), resoTool := Some t' \<rparr>, fx))
               else if name = ''reso_help'' then
                 (result_response (ID msg) (RCallTool (help (helpTool s) arguments)), s, [])
               else
                 (error_response (ID msg) (- 32601) (''Tool not found: '' @ name), s, [])))"

section \<open>main: settings from the command line and the environment\<close>

text \<open>\<open>envSettings[k] == nil\<close>: the key is absent, or holds nil.\<close>

definition is_nil :: "gmap \<Rightarrow> string \<Rightarrow> bool" where
  "is_nil m k = (case m k of None \<Rightarrow> True | Some v \<Rightarrow> v = GNil)"

definition set_from_env :: "(string \<Rightarrow> string) \<Rightarrow> string \<Rightarrow> string \<Rightarrow> gmap \<Rightarrow> gmap" where
  "set_from_env getenv name k m =
     (if getenv name \<noteq> [] \<and> is_nil m k then m(k \<mapsto> GStr (getenv name)) else m)"

definition set_from_flag :: "string \<Rightarrow> string \<Rightarrow> gmap \<Rightarrow> gmap" where
  "set_from_flag v k m = (if v \<noteq> [] then m(k \<mapsto> GStr v) else m)"

definition envSettings :: "string \<Rightarrow> string \<Rightarrow> (string \<Rightarrow> string) \<Rightarrow> gmap" where
  "envSettings clientID_flag clientSecret_flag getenv =
     set_from_env getenv ''MCP_RESO_CLIENT_SECRET'' ''client_secret''
      (set_from_env getenv ''MCP_RESO_CLIENT_ID'' ''client_id''
        (set_from_env getenv ''RESO_CLIENT_SECRET'' ''client_secret''
          (set_from_env getenv ''RESO_CLIENT_ID'' ''client_id''
            (set_from_env getenv ''CLIENT_SECRET'' ''client_secret''
              (set_from_env getenv ''CLIENT_ID'' ''client_id''
                (set_from_flag clientSecret_flag ''client_secret''
                  (set_from_flag clientID_flag ''client_id'' Map.empty)))))))"

text \<open>The server as \<open>main\<close> has it when it starts to read messages.\<close>

definition main_server :: "string \<Rightarrow> string \<Rightarrow> (string \<Rightarrow> string) \<Rightarrow> MCPServer" where
  "main_server clientID_flag clientSecret_flag getenv =
     (let m = envSettings clientID_flag clientSecret_flag getenv
      in if m \<noteq> Map.empty then NewMCPServer\<lparr> pendingSettings := Some m \<rparr> else NewMCPServer)"

section \<open>auth: concurrent callers of GetToken\<close>

text \<open>
  Several goroutines call \<open>GetToken\<close> on one client. Every access to the token and
  its expiry is made under the client's \<open>RWMutex\<close>, so an execution is an
  interleaving of the sections that the mutex delimits. A caller is at the start, has
  missed the cache under the read lock and waits for the exclusive lock, holds the
  exclusive lock (since the clock reading kept with it), or has returned.
\<close>

datatype pc =
    Start
  | WantLock
  | Locked int
  | Done "error + string"

record callers =
  clock :: int
  cache :: OAuthClient
  writer :: "nat option"
  pcs :: "pc list"
  posted :: "effect list"

text \<open>
  The steps of an execution: time passes; caller \<open>i\<close> runs the section under the
  read lock, which needs the exclusive lock to be free; caller \<open>i\<close> takes the
  exclusive lock; caller \<open>i\<close> runs the body of \<open>refreshToken\<close> under the exclusive
  lock, with the given reply should it send the request, and releases the lock.
\<close>

datatype action =
    Tick int
  | Read nat
  | Acquire nat
  | Complete nat auth_reply

definition exec :: "callers \<Rightarrow> action \<Rightarrow> callers option" where
  "exec s a =
     (case a of
        Tick d \<Rightarrow> if 0 < d then Some (s\<lparr> clock := clock s + d \<rparr>) else None
      | Read i \<Rightarrow>
          if i < length (pcs s) \<and> pcs s ! i = Start \<and> writer s = None then
            Some (s\<lparr> pcs := (pcs s)[i := (case cached_token (cache s) (clock s) of
                                             Some t \<Rightarrow> Done (Inr t)
                                           | None \<Rightarrow> WantLock)] \<rparr>)
          else None
      | Acquire i \<Rightarrow>
          if i < length (pcs s) \<and> pcs s ! i = WantLock \<and> writer s = None then
            Some (s\<lparr> writer := Some i, pcs := (pcs s)[i := Locked (clock s)] \<rparr>)
          else None
      | Complete i r \<Rightarrow>
          if i < length (pcs s) \<and> writer s = Some i then
            (case pcs s ! i of
               Locked t0 \<Rightarrow>
                 (case refreshToken (cache s)
                         \<lparr> now_check = t0, now_recheck = t0, reply = r, now_store = clock s \<rparr> of
                    (res, c', fx) \<Rightarrow>
                      Some (s\<lparr> cache := c', writer := None, pcs := (pcs s)[i := Done res],
                              posted := posted s @ fx \<rparr>))
             | _ \<Rightarrow> None)
          else None)"

fun run :: "callers \<Rightarrow> action list \<Rightarrow> callers option" where
  "run s [] = Some s"
| "run s (a # as) = (case exec s a of None \<Rightarrow> None | Some s' \<Rightarrow> run s' as)"

text \<open>\<open>n\<close> callers about to call \<open>GetToken\<close> on the client \<open>c\<close> at time \<open>t\<close>.\<close>

definition callers_init :: "nat \<Rightarrow> OAuthClient \<Rightarrow> int \<Rightarrow> callers" where
  "callers_init n c t =
     \<lparr> clock = t, cache = c, writer = None, pcs = replicate n Start, posted = [] \<rparr>"

section \<open>Concrete inputs\<close>

text \<open>
  The out-of-range result of a float64 conversion on amd64, one client, one answering
  world and the parameters that \<open>parseArguments\<close> builds from an entity, a top and a
  skip alone.
\<close>

definition amd64_out_of_range :: "int \<Rightarrow> int \<Rightarrow> int" where
  "amd64_out_of_range m e = - (2 ^ 63)"

definition example_token :: TokenResponse where
  "example_token = \<lparr> AccessToken = ''tok'', ExpiresIn = 3600, TokenType = ''Bearer'' \<rparr>"

definition example_oauth :: OAuthClient where
  "example_oauth =
     NewOAuthClient ''id'' ''secret'' ''https://authenticate.constellation1apis.com/oauth2/token''"

definition example_client :: Client where
  "example_client = NewClient ''https://listings.cdatalabs.com/odata'' example_oauth"

definition example_auth_io :: "int \<Rightarrow> auth_io" where
  "example_auth_io t =
     \<lparr> now_check = t, now_recheck = t,
       reply = AuthResponse 200 [] (Inr example_token), now_store = t \<rparr>"

definition failing_auth_io :: "int \<Rightarrow> auth_io" where
  "failing_auth_io t =
     \<lparr> now_check = t, now_recheck = t,
       reply = AuthResponse 401 ''denied'' (Inl (Errorf ''unexpected end of JSON input'')),
       now_store = t \<rparr>"

definition request :: "string \<Rightarrow> int \<Rightarrow> int \<Rightarrow> QueryParams" where
  "request entity t s =
     \<lparr> Entity = entity, Select = [], Filter = [], Top = t, Skip = s, OrderBy = [],
       Expand = [], IgnoreNulls = True, IgnoreCase = False \<rparr>"

definition example_response :: APIResponse where
  "example_response =
     \<lparr> Context = [], Count = 0, TotalCount = 0, Value = [], Group = [], NextLink = [],
       Debug = GNil, RequestTime = 0, ResponseTime = 0, RequestParams = request [] 0 0 \<rparr>"

definition example_io :: query_io where
  "example_io =
     \<lparr> startTime = 0, auth = example_auth_io 0,
       data = DataResponse 200 [] None (Inr example_response), endTime = 1 \<rparr>"

text \<open>
  An environment with both a generic and a RESO-prefixed client id, an
  \<open>initialize\<close> message without parameters, and a world in which the metadata cache
  file is present.
\<close>

definition example_env :: "string \<Rightarrow> string" where
  "example_env name =
     (if name = ''CLIENT_ID'' then ''generic-id''
      else if name = ''RESO_CLIENT_ID'' then ''reso-id''
      else if name = ''CLIENT_SECRET'' then ''generic-secret''
      else [])"

definition empty_env :: "string \<Rightarrow> string" where
  "empty_env name = []"

definition initialize_message :: "gval \<Rightarrow> MCPMessage" where
  "initialize_message p =
     \<lparr> JSONRPC = ''2.0'', ID = GFloat 1 0, Method = ''initialize'', Params = p,
       Result = None, Error = None \<rparr>"

definition example_help_env :: help_env where
  "example_help_env =
     \<lparr> cache_parses = True,
       metadata = \<lparr> meta_auth = example_auth_io 0, meta_reply = MetaResponse 200 [] \<rparr>,
       fetched_parses = True, local_parses = False \<rparr>"

definition example_rendering :: rendering where
  "example_rendering = \<lparr> ToJSON = (\<lambda>r. Inr ''{}''), createSummary = (\<lambda>r. ''summary'') \<rparr>"

definition example_help :: "ResoHelpTool option \<Rightarrow> gmap \<Rightarrow> MCPToolResult" where
  "example_help t args = \<lparr> Content = [], IsError = False \<rparr>"

definition call_message :: "gmap \<Rightarrow> MCPMessage" where
  "call_message args =
     \<lparr> JSONRPC = ''2.0'', ID = GFloat 2 0, Method = ''tools/call'',
       Params = GObj [''name'' \<mapsto> GStr ''reso_query'', ''arguments'' \<mapsto> GObj args],
       Result = None, Error = None \<rparr>"

text \<open>
  A \<open>tools/call\<close> of \<open>reso_query\<close> whose parameters spell their keys with a
  capital letter.
\<close>

definition capital_call_message :: "gmap \<Rightarrow> MCPMessage" where
  "capital_call_message args =
     \<lparr> JSONRPC = ''2.0'', ID = GFloat 2 0, Method = ''tools/call'',
       Params = GObj [''Name'' \<mapsto> GStr ''reso_query'', ''Arguments'' \<mapsto> GObj args],
       Result = None, Error = None \<rparr>"

text \<open>
  Two schedules of two callers on a client without a token: one where the
  authentication endpoint cannot be reached, one where it answers with a token.
\<close>

definition unreachable_reply :: auth_reply where
  "unreachable_reply = AuthTransportError ''connection refused''"

definition failing_schedule :: "action list" where
  "failing_schedule =
     [Read 0, Read 1, Acquire 0, Complete 0 unreachable_reply,
      Acquire 1, Complete 1 unreachable_reply]"

definition succeeding_schedule :: "action list" where
  "succeeding_schedule =
     [Read 0, Read 1, Acquire 0, Tick 5, Complete 0 (AuthResponse 200 [] (Inr example_token)),
      Acquire 1, Complete 1 (AuthResponse 200 [] (Inr example_token))]"

section \<open>Predicates of the properties\<close>

text \<open>A request that one of the two checks of \<open>Query\<close> turns down.\<close>

definition query_invalid :: "QueryParams \<Rightarrow> bool" where
  "query_invalid p =
     (\<not> IsValidEntity (Entity p) \<or> (Skip p > 0 \<and> Skip p > GetEntitySkipLimit (Entity p)))"

text \<open>A token exchange that \<open>refreshToken\<close> does not accept.\<close>

definition exchange_failed :: "auth_reply \<Rightarrow> bool" where
  "exchange_failed r =
     (case r of
        AuthResponse status body decoded \<Rightarrow> status \<noteq> 200 \<or> isl decoded
      | _ \<Rightarrow> True)"

text \<open>The float64 \<open>m * 2 ^ e\<close> is the integer \<open>n\<close>.\<close>

definition float_is_int :: "int \<Rightarrow> int \<Rightarrow> int \<Rightarrow> bool" where
  "float_is_int m e n = (if 0 \<le> e then n = m * 2 ^ nat e else m = n * 2 ^ nat (- e))"

text \<open>
  The sources of a setting, in the words of the specification: the first source of a
  list that defines the key gives its value. The \<open>initialize\<close> parameters carry a
  key bare, under \<open>settings\<close>, or under \<open>capabilities.settings\<close>; a flag or an
  environment variable defines a key when it is not empty.
\<close>

fun first_defined :: "'a option list \<Rightarrow> 'a option" where
  "first_defined [] = None"
| "first_defined (Some v # rest) = Some v"
| "first_defined (None # rest) = first_defined rest"

definition bare_key :: "gval \<Rightarrow> string \<Rightarrow> gval option" where
  "bare_key p k = (case p of GObj rawParams \<Rightarrow> rawParams k | _ \<Rightarrow> None)"

definition params_settings :: "gval \<Rightarrow> string \<Rightarrow> gval option" where
  "params_settings p k =
     (case p of
        GObj rawParams \<Rightarrow>
          (case rawParams ''settings'' of Some (GObj settingsMap) \<Rightarrow> settingsMap k | _ \<Rightarrow> None)
      | _ \<Rightarrow> None)"

definition capabilities_settings :: "gval \<Rightarrow> string \<Rightarrow> gval option" where
  "capabilities_settings p k =
     (case decoded_Capabilities p of
        Some caps \<Rightarrow> (case caps ''settings'' of Some (GObj clientCaps) \<Rightarrow> clientCaps k | _ \<Rightarrow> None)
      | None \<Rightarrow> None)"

definition text_source :: "string \<Rightarrow> gval option" where
  "text_source v = (if v = [] then None else Some (GStr v))"

text \<open>The value of a key in settings that may still be the nil map.\<close>

definition lookup :: "gmap option \<Rightarrow> string \<Rightarrow> gval option" where
  "lookup settings k = (case settings of None \<Rightarrow> None | Some m \<Rightarrow> m k)"

text \<open>What the configuration keeps of a setting: a non-empty string, or nothing.\<close>

definition config_value :: "gval option \<Rightarrow> string" where
  "config_value v = (case v of Some (GStr x) \<Rightarrow> x | _ \<Rightarrow> [])"

definition resolved_client_id :: "string \<Rightarrow> (string \<Rightarrow> string) \<Rightarrow> gval \<Rightarrow> gval option" where
  "resolved_client_id flag getenv p =
     first_defined
       [bare_key p ''client_id'', params_settings p ''client_id'',
        capabilities_settings p ''client_id'', text_source flag,
        text_source (getenv ''CLIENT_ID''), text_source (getenv ''RESO_CLIENT_ID''),
        text_source (getenv ''MCP_RESO_CLIENT_ID'')]"

definition resolved_client_secret :: "string \<Rightarrow> (string \<Rightarrow> string) \<Rightarrow> gval \<Rightarrow> gval option" where
  "resolved_client_secret flag getenv p =
     first_defined
       [bare_key p ''client_secret'', params_settings p ''client_secret'',
        capabilities_settings p ''client_secret'', text_source flag,
        text_source (getenv ''CLIENT_SECRET''), text_source (getenv ''RESO_CLIENT_SECRET''),
        text_source (getenv ''MCP_RESO_CLIENT_SECRET'')]"

text \<open>The server after one \<open>initialize\<close> message.\<close>

definition initialized :: "MCPServer \<Rightarrow> MCPMessage \<Rightarrow> (string \<Rightarrow> string) \<Rightarrow> help_env \<Rightarrow> MCPServer" where
  "initialized s msg getenv henv = fst (snd (handleInitialize s msg getenv henv))"

text \<open>The configuration that \<open>initialize\<close> leaves in a server started by \<open>main\<close>.\<close>

definition merged_config ::
  "string \<Rightarrow> string \<Rightarrow> (string \<Rightarrow> string) \<Rightarrow> MCPMessage \<Rightarrow> help_env \<Rightarrow> Config" where
  "merged_config id_flag secret_flag getenv msg henv =
     server_config (initialized (main_server id_flag secret_flag getenv) msg getenv henv)"

text \<open>Callers of \<open>GetToken\<close>: one that holds the exclusive lock, one that has returned.\<close>

definition in_refresh :: "pc \<Rightarrow> bool" where
  "in_refresh p = (case p of Locked t \<Rightarrow> True | _ \<Rightarrow> False)"

definition returned :: "pc \<Rightarrow> bool" where
  "returned p = (case p of Done r \<Rightarrow> True | _ \<Rightarrow> False)"

text \<open>At most one caller holds the exclusive lock, and it is the one recorded.\<close>

definition lock_ok :: "callers \<Rightarrow> bool" where
  "lock_ok s =
     (\<forall>i < length (pcs s). in_refresh (pcs s ! i) = (writer s = Some i))"

definition elapsed :: "action list \<Rightarrow> int" where
  "elapsed as = sum_list (map (\<lambda>a. case a of Tick d \<Rightarrow> d | _ \<Rightarrow> 0) as)"

text \<open>A reply that gives a token which lives longer than \<open>life\<close>.\<close>

definition lasting_reply :: "int \<Rightarrow> auth_reply \<Rightarrow> bool" where
  "lasting_reply life r =
     (case r of
        AuthResponse status body (Inr tr) \<Rightarrow> status = 200 \<and> life < expiry_duration (ExpiresIn tr)
      | _ \<Rightarrow> False)"

definition lasting_replies :: "int \<Rightarrow> action list \<Rightarrow> bool" where
  "lasting_replies life as =
     list_all (\<lambda>a. case a of Complete i r \<Rightarrow> lasting_reply life r | _ \<Rightarrow> True) as"

text \<open>
  The state of an execution that began at \<open>t0\<close> with the client \<open>c0\<close> and ends by
  \<open>D\<close>: either nothing has been sent, the client is untouched and no caller has
  returned, or exactly one token request has been sent, its token outlives \<open>D\<close>, and
  every caller that returned has that token.
\<close>

definition single_flight :: "OAuthClient \<Rightarrow> int \<Rightarrow> int \<Rightarrow> callers \<Rightarrow> bool" where
  "single_flight c0 t0 D s =
     (t0 \<le> clock s \<and> clock s \<le> D \<and> lock_ok s
      \<and> (\<forall>i < length (pcs s). \<forall>t. pcs s ! i = Locked t \<longrightarrow> t0 \<le> t \<and> t \<le> clock s)
      \<and> ((cache s = c0 \<and> posted s = [] \<and> (\<forall>i < length (pcs s). \<not> returned (pcs s ! i)))
         \<or> (\<exists>tr. token (cache s) = Some tr \<and> D < tokenExpiry (cache s)
                \<and> posted s = [AuthPost (authURL c0) (clientID c0) (clientSecret c0)]
                \<and> (\<forall>i < length (pcs s). \<forall>res. pcs s ! i = Done res
                       \<longrightarrow> res = Inr (AccessToken tr)))))"

section \<open>Evaluation of the library functions\<close>

lemma digit_cases: "d < 10 \<Longrightarrow> d \<in> {0, 1, 2, 3, 4, 5, 6, 7, 8, 9::nat}"
  by auto

lemma is_digit_digit_char: "d < 10 \<Longrightarrow> is_digit (digit_char d)"
  using digit_cases [of d] by (auto simp: is_digit_def digit_char_def)

lemma digit_val_digit_char: "d < 10 \<Longrightarrow> digit_val (digit_char d) = d"
  using digit_cases [of d] by (auto simp: digit_val_def digit_char_def)

lemma nat_digits_numeral:
  "nat_digits (numeral k) =
     (if numeral k < (10::nat) then [digit_char (numeral k)]
      else nat_digits (numeral k div 10) @ [digit_char (numeral k mod 10)])"
  by (rule nat_digits.simps)

lemma nat_digits_small: "n < 10 \<Longrightarrow> nat_digits n = [digit_char n]"
  by (subst nat_digits.simps) simp

lemmas Itoa_eval = Itoa_def nat_digits_numeral nat_digits_small digit_char_def

lemma parse_digits_snoc:
  "parse_digits (xs @ [c]) acc =
     (case parse_digits xs acc of
        None \<Rightarrow> None
      | Some v \<Rightarrow> if is_digit c then Some (v * 10 + digit_val c) else None)"
  by (induction xs arbitrary: acc) auto

lemma parse_nat_digits: "parse_digits (nat_digits n) 0 = Some n"
proof (induction n rule: nat_digits.induct)
  case (1 n)
  show ?case
  proof (cases "n < 10")
    case True
    then show ?thesis
      by (subst nat_digits.simps) (simp add: is_digit_digit_char digit_val_digit_char)
  next
    case False
    then have "parse_digits (nat_digits (n div 10)) 0 = Some (n div 10)"
      using 1 by simp
    then show ?thesis
      using False
      by (subst nat_digits.simps)
         (simp add: parse_digits_snoc is_digit_digit_char digit_val_digit_char)
  qed
qed

lemma nat_digits_nonempty: "nat_digits n \<noteq> []"
  by (subst nat_digits.simps) simp

lemma hd_nat_digits_digit: "is_digit (hd (nat_digits n))"
proof (induction n rule: nat_digits.induct)
  case (1 n)
  show ?case
  proof (cases "n < 10")
    case True
    then show ?thesis by (subst nat_digits.simps) (simp add: is_digit_digit_char)
  next
    case False
    then show ?thesis
      using 1 nat_digits_nonempty [of "n div 10"]
      by (subst nat_digits.simps) simp
  qed
qed

lemma not_digit_signs: "\<not> is_digit CHR ''-''" "\<not> is_digit CHR ''+''"
  by (simp_all add: is_digit_def)

lemma Atoi_nat_digits:
  assumes "int n < 2 ^ 63"
  shows "Atoi (nat_digits n) = Some (int n)"
proof -
  obtain c cs where cs: "nat_digits n = c # cs"
    using nat_digits_nonempty [of n] by (cases "nat_digits n") auto
  have "is_digit c" using hd_nat_digits_digit [of n] cs by simp
  then have "c \<noteq> CHR ''-''" "c \<noteq> CHR ''+''" using not_digit_signs by auto
  moreover have "parse_digits (c # cs) 0 = Some n" using parse_nat_digits [of n] cs by simp
  ultimately show ?thesis using assms cs
    by (simp add: Atoi_def del: parse_digits.simps)
qed

text \<open>\<open>Atoi\<close> reads back what \<open>Itoa\<close> writes, for every value of a 64-bit \<open>int\<close>.\<close>

lemma Atoi_Itoa:
  assumes "- (2 ^ 63) \<le> n" "n < 2 ^ 63"
  shows "Atoi (Itoa n) = Some n"
proof (cases "n < 0")
  case False
  then show ?thesis using assms Atoi_nat_digits [of "nat n"] by (simp add: Itoa_def)
next
  case True
  have "parse_digits (nat_digits (nat (- n))) 0 = Some (nat (- n))" by (rule parse_nat_digits)
  then show ?thesis using True assms nat_digits_nonempty [of "nat (- n)"]
    by (simp add: Itoa_def Atoi_def)
qed

lemma Atoi_fraction: "Atoi ''10.5'' = None"
  by (simp add: Atoi_def is_digit_def digit_val_def)

lemma float_trunc_int: "float_is_int m e n \<Longrightarrow> float_trunc m e = n"
proof (cases "0 \<le> e")
  case True
  assume "float_is_int m e n"
  then show ?thesis using True by (simp add: float_is_int_def float_trunc_def)
next
  case False
  assume "float_is_int m e n"
  then have m: "m = n * 2 ^ nat (- e)" using False by (simp add: float_is_int_def)
  have pos: "(0::int) < 2 ^ nat (- e)" by simp
  show ?thesis
  proof (cases "0 \<le> m")
    case True
    then show ?thesis using False m by (simp add: float_trunc_def)
  next
    case neg: False
    have "- m = (- n) * 2 ^ nat (- e)" using m by simp
    then have "(- m) div 2 ^ nat (- e) = - n"
      using pos by (metis nonzero_mult_div_cancel_right less_irrefl)
    then show ?thesis using False neg by (simp add: float_trunc_def)
  qed
qed

lemma float_to_int_in_range:
  "- (2 ^ 63) \<le> float_trunc m e \<Longrightarrow> float_trunc m e < 2 ^ 63 \<Longrightarrow>
   float_to_int oor m e = float_trunc m e"
  by (simp add: float_to_int_def Let_def)

lemma space_tokens_eval:
  "space_tokens =
     [[CHR 0x09], [CHR 0x0A], [CHR 0x0B], [CHR 0x0C], [CHR 0x0D], [CHR 0x20],
      [CHR 0xC2, CHR 0x85], [CHR 0xC2, CHR 0xA0], [CHR 0xE1, CHR 0x9A, CHR 0x80],
      [CHR 0xE2, CHR 0x80, CHR 0x80], [CHR 0xE2, CHR 0x80, CHR 0x81],
      [CHR 0xE2, CHR 0x80, CHR 0x82], [CHR 0xE2, CHR 0x80, CHR 0x83],
      [CHR 0xE2, CHR 0x80, CHR 0x84], [CHR 0xE2, CHR 0x80, CHR 0x85],
      [CHR 0xE2, CHR 0x80, CHR 0x86], [CHR 0xE2, CHR 0x80, CHR 0x87],
      [CHR 0xE2, CHR 0x80, CHR 0x88], [CHR 0xE2, CHR 0x80, CHR 0x89],
      [CHR 0xE2, CHR 0x80, CHR 0x8A],
      [CHR 0xE2, CHR 0x80, CHR 0xA8], [CHR 0xE2, CHR 0x80, CHR 0xA9],
      [CHR 0xE2, CHR 0x80, CHR 0xAF], [CHR 0xE2, CHR 0x81, CHR 0x9F],
      [CHR 0xE3, CHR 0x80, CHR 0x80]]"
  by code_simp

lemma trim_tokens_Cons:
  "trim_tokens ts (c # cs) =
     (if leading_token ts (c # cs) = 0 \<or> length (c # cs) < leading_token ts (c # cs) then c # cs
      else trim_tokens ts (drop (leading_token ts (c # cs)) (c # cs)))"
  by (subst trim_tokens.simps) (simp add: Let_def)

lemma trim_tokens_Nil: "trim_tokens ts [] = []"
  by (subst trim_tokens.simps) (auto simp: Let_def)

lemmas TrimSpace_eval = TrimSpace_def space_tokens_eval trim_tokens_Cons trim_tokens_Nil

section \<open>The entity catalog\<close>

lemma name_in_set: "name_in e xs = (e \<in> set xs)"
  by (induction xs) auto

lemma IsValidEntity_iff: "IsValidEntity e = (e \<in> set GetSupportedEntities)"
  by (simp add: IsValidEntity_def name_in_set)

lemma limit_ge: "50000 \<le> GetEntitySkipLimit e"
  by (simp add: GetEntitySkipLimit_def limits_def)

section \<open>The parameters of the outgoing query\<close>

lemma query_values_chain:
  "query_values p =
     (if IgnoreCase p then (\<lambda>q. Set_value q ''$ignorecase'' ''true'') else (\<lambda>q. q))
      ((if IgnoreNulls p then (\<lambda>q. Set_value q ''$ignorenulls'' ''true'') else (\<lambda>q. q))
        ((if OrderBy p \<noteq> [] then (\<lambda>q. Set_value q ''$orderby'' (OrderBy p)) else (\<lambda>q. q))
          ((if 0 < Skip p then (\<lambda>q. Set_value q ''$skip'' (Itoa (Skip p))) else (\<lambda>q. q))
            ((if 0 < Top p then (\<lambda>q. Set_value q ''$top'' (Itoa (Top p))) else (\<lambda>q. q))
              ((if Filter p \<noteq> [] then (\<lambda>q. Set_value q ''$filter'' (Filter p)) else (\<lambda>q. q))
                ((if Select p \<noteq> [] then (\<lambda>q. Set_value q ''$select'' (Select p)) else (\<lambda>q. q))
                   Map.empty))))))"
  unfolding query_values_def Let_def by (simp only: if_distrib [of "\<lambda>f. f _"] if_True if_False cong: if_cong)

lemma Set_value_if_apply:
  "(if b then (\<lambda>q. Set_value q k v) else (\<lambda>q. q)) q k' = (if b \<and> k' = k then Some [v] else q k')"
  by (simp add: Set_value_def)

lemma qv_select: "query_values p ''$select'' = (if Select p \<noteq> [] then Some [Select p] else None)"
  by (simp add: query_values_chain Set_value_if_apply)

lemma qv_filter: "query_values p ''$filter'' = (if Filter p \<noteq> [] then Some [Filter p] else None)"
  by (simp add: query_values_chain Set_value_if_apply)

lemma qv_top: "query_values p ''$top'' = (if 0 < Top p then Some [Itoa (Top p)] else None)"
  by (simp add: query_values_chain Set_value_if_apply)

lemma qv_skip: "query_values p ''$skip'' = (if 0 < Skip p then Some [Itoa (Skip p)] else None)"
  by (simp add: query_values_chain Set_value_if_apply)

lemma qv_orderby: "query_values p ''$orderby'' = (if OrderBy p \<noteq> [] then Some [OrderBy p] else None)"
  by (simp add: query_values_chain Set_value_if_apply)

lemma qv_ignorenulls: "query_values p ''$ignorenulls'' = (if IgnoreNulls p then Some [''true''] else None)"
  by (simp add: query_values_chain Set_value_if_apply)

lemma qv_ignorecase: "query_values p ''$ignorecase'' = (if IgnoreCase p then Some [''true''] else None)"
  by (simp add: query_values_chain Set_value_if_apply)

lemma qv_other:
  "k \<notin> {''$select'', ''$filter'', ''$top'', ''$skip'', ''$orderby'', ''$ignorenulls'', ''$ignorecase''}
   \<Longrightarrow> query_values p k = None"
  by (simp add: query_values_chain Set_value_if_apply)

lemma qv_expand: "query_values p ''$expand'' = None"
  by (rule qv_other) simp

lemma qv_dom:
  "dom (query_values p) \<subseteq> {''$select'', ''$filter'', ''$top'', ''$skip'', ''$orderby'',
                             ''$ignorenulls'', ''$ignorecase''}"
proof
  fix k assume "k \<in> dom (query_values p)"
  then obtain v where v: "query_values p k = Some v"
    by (auto simp only: dom_def mem_Collect_eq)
  show "k \<in> {''$select'', ''$filter'', ''$top'', ''$skip'', ''$orderby'',
             ''$ignorenulls'', ''$ignorecase''}"
  proof (rule ccontr)
    assume "k \<notin> {''$select'', ''$filter'', ''$top'', ''$skip'', ''$orderby'',
                  ''$ignorenulls'', ''$ignorecase''}"
    then have "query_values p k = None" by (rule qv_other)
    then show False using v by simp
  qed
qed

section \<open>Parsing\<close>

lemma parseArguments_entity:
  "parseArguments oor args = Inr p \<Longrightarrow> args ''entity'' = Some (GStr (Entity p))"
  by (auto simp: parseArguments_def split: option.splits gval.splits)

lemma parseArguments_Inr:
  assumes "args ''entity'' = Some (GStr en)"
  shows "parseArguments oor args =
     Inr \<lparr> Entity = en,
           Select = trimmed_string (args ''select'') [],
           Filter = trimmed_string (args ''filter'') [],
           Top = coerce_int oor (args ''top'') 0,
           Skip = coerce_int oor (args ''skip'') 0,
           OrderBy = trimmed_string (args ''orderby'') [],
           Expand = trimmed_string (args ''expand'') [],
           IgnoreNulls = bool_arg (args ''ignorenulls'') True,
           IgnoreCase = bool_arg (args ''ignorecase'') False \<rparr>"
  using assms by (simp add: parseArguments_def)

lemma parseArguments_fields:
  assumes "parseArguments oor args = Inr p"
  shows "Select p = trimmed_string (args ''select'') []"
    and "Filter p = trimmed_string (args ''filter'') []"
    and "Top p = coerce_int oor (args ''top'') 0"
    and "Skip p = coerce_int oor (args ''skip'') 0"
    and "OrderBy p = trimmed_string (args ''orderby'') []"
    and "Expand p = trimmed_string (args ''expand'') []"
    and "IgnoreNulls p = bool_arg (args ''ignorenulls'') True"
    and "IgnoreCase p = bool_arg (args ''ignorecase'') False"
proof -
  have "args ''entity'' = Some (GStr (Entity p))"
    using assms by (rule parseArguments_entity)
  from parseArguments_Inr [of args "Entity p" oor, OF this] assms
  have p: "p = \<lparr> Entity = Entity p,
           Select = trimmed_string (args ''select'') [],
           Filter = trimmed_string (args ''filter'') [],
           Top = coerce_int oor (args ''top'') 0,
           Skip = coerce_int oor (args ''skip'') 0,
           OrderBy = trimmed_string (args ''orderby'') [],
           Expand = trimmed_string (args ''expand'') [],
           IgnoreNulls = bool_arg (args ''ignorenulls'') True,
           IgnoreCase = bool_arg (args ''ignorecase'') False \<rparr>"
    by simp
  show "Select p = trimmed_string (args ''select'') []" by (subst p) simp
  show "Filter p = trimmed_string (args ''filter'') []" by (subst p) simp
  show "Top p = coerce_int oor (args ''top'') 0" by (subst p) simp
  show "Skip p = coerce_int oor (args ''skip'') 0" by (subst p) simp
  show "OrderBy p = trimmed_string (args ''orderby'') []" by (subst p) simp
  show "Expand p = trimmed_string (args ''expand'') []" by (subst p) simp
  show "IgnoreNulls p = bool_arg (args ''ignorenulls'') True" by (subst p) simp
  show "IgnoreCase p = bool_arg (args ''ignorecase'') False" by (subst p) simp
qed

lemma parseArguments_error_iff:
  "(\<exists>e. parseArguments oor args = Inl e) = (\<forall>en. args ''entity'' \<noteq> Some (GStr en))"
  by (auto simp: parseArguments_def split: option.splits gval.splits)

section \<open>The token cache\<close>

lemma refreshToken_effects:
  "snd (snd (refreshToken c io)) = [] \<or>
   snd (snd (refreshToken c io)) = [AuthPost (authURL c) (clientID c) (clientSecret c)]"
  by (simp add: refreshToken_def Let_def split: option.splits auth_reply.splits sum.splits)

lemma GetToken_effects:
  "snd (snd (GetToken c io)) = [] \<or>
   snd (snd (GetToken c io)) = [AuthPost (authURL c) (clientID c) (clientSecret c)]"
  using refreshToken_effects [of c io]
  by (simp add: GetToken_def split: option.splits)

lemma GetToken_no_ApiGet: "ApiGet u q t \<notin> set (snd (snd (GetToken c io)))"
  using GetToken_effects [of c io] by auto

lemma refreshToken_cached:
  "cached_token c (now_recheck io) = Some t \<Longrightarrow> refreshToken c io = (Inr t, c, [])"
  by (simp add: refreshToken_def)

lemma GetToken_cached:
  "cached_token c (now_check io) = Some t \<Longrightarrow> GetToken c io = (Inr t, c, [])"
  by (simp add: GetToken_def)

lemma GetToken_uncached:
  "cached_token c (now_check io) = None \<Longrightarrow> GetToken c io = refreshToken c io"
  by (simp add: GetToken_def)

lemma refreshToken_failed:
  assumes "exchange_failed (reply io)" and "cached_token c (now_recheck io) = None"
  shows "fst (snd (refreshToken c io)) = c \<and> isl (fst (refreshToken c io))"
  using assms
  by (cases "reply io")
     (auto simp: refreshToken_def exchange_failed_def Let_def split: sum.splits)

lemma refreshToken_state_failed:
  assumes "exchange_failed (reply io)"
  shows "fst (snd (refreshToken c io)) = c"
proof (cases "cached_token c (now_recheck io)")
  case None
  then show ?thesis using assms refreshToken_failed by blast
next
  case (Some t)
  then show ?thesis by (simp add: refreshToken_cached)
qed

lemma expiry_duration_3600: "expiry_duration 3600 = 3540 * Second"
  by (simp add: expiry_duration_def Second_def)

section \<open>The query\<close>

lemma Query_valid: "\<not> query_invalid p \<Longrightarrow> Query c p io = send_query c p io"
proof -
  assume "\<not> query_invalid p"
  then have v: "IsValidEntity (Entity p)"
    and s: "\<not> (Skip p > 0 \<and> Skip p > GetEntitySkipLimit (Entity p))"
    by (auto simp: query_invalid_def)
  show ?thesis
    unfolding Query_def
    by (subst if_not_P, simp add: v, subst if_not_P, rule s, rule refl)
qed

lemma Query_rejected:
  "query_invalid p \<Longrightarrow>
   Query c p io =
     (Inl (Errorf (if \<not> IsValidEntity (Entity p) then ''unsupported entity: '' @ Entity p
                   else ''skip value '' @ Itoa (Skip p) @ '' exceeds limit ''
                        @ Itoa (GetEntitySkipLimit (Entity p)) @ '' for entity '' @ Entity p)),
      c, [])"
  unfolding Query_def query_invalid_def by (cases "IsValidEntity (Entity p)") simp_all

lemma query_invalid_Top: "query_invalid (p\<lparr> Top := t \<rparr>) = query_invalid p"
  by (simp add: query_invalid_def)

lemma send_query_state:
  "fst (snd (send_query c p io)) = c\<lparr> oauthClient := fst (snd (GetToken (oauthClient c) (auth io))) \<rparr>"
proof (cases "GetToken (oauthClient c) (auth io)" rule: prod_cases3)
  case (fields r oc fx)
  show ?thesis
  proof (cases r)
    case (Inl e)
    then show ?thesis using fields by (simp add: send_query_def)
  next
    case (Inr tok)
    then show ?thesis using fields
      by (cases "data io") (simp_all add: send_query_def Let_def split: option.splits sum.splits)
  qed
qed

lemma send_query_effects:
  "snd (snd (send_query c p io)) = snd (snd (GetToken (oauthClient c) (auth io))) \<or>
   (\<exists>tok. fst (GetToken (oauthClient c) (auth io)) = Inr tok \<and>
     snd (snd (send_query c p io)) =
       snd (snd (GetToken (oauthClient c) (auth io)))
       @ [ApiGet (baseURL c @ ''/'' @ Entity p) (query_values p) tok])"
proof (cases "GetToken (oauthClient c) (auth io)" rule: prod_cases3)
  case (fields r oc fx)
  show ?thesis
  proof (cases r)
    case (Inl e)
    then show ?thesis using fields by (simp add: send_query_def)
  next
    case (Inr tok)
    then show ?thesis using fields
      by (cases "data io") (simp_all add: send_query_def Let_def split: option.splits sum.splits)
  qed
qed

lemma send_query_sends:
  assumes "GetToken (oauthClient c) (auth io) = (Inr tok, oc, fx)"
    and "\<forall>e. data io \<noteq> DataRequestError e"
  shows "snd (snd (send_query c p io)) =
           fx @ [ApiGet (baseURL c @ ''/'' @ Entity p) (query_values p) tok]"
  using assms
  by (cases "data io") (simp_all add: send_query_def Let_def split: option.splits sum.splits)

lemma send_query_ApiGet:
  assumes "ApiGet u q t \<in> set (snd (snd (send_query c p io)))"
  shows "u = baseURL c @ ''/'' @ Entity p \<and> q = query_values p"
  using send_query_effects [of c p io] assms GetToken_no_ApiGet [of u q t "oauthClient c" "auth io"]
  by auto

lemma Query_ApiGet:
  assumes "ApiGet u q t \<in> set (snd (snd (Query c p io)))"
  shows "u = baseURL c @ ''/'' @ Entity p \<and> q = query_values p"
proof (cases "query_invalid p")
  case True
  then show ?thesis using assms by (simp add: Query_rejected)
next
  case False
  then show ?thesis using assms send_query_ApiGet by (simp add: Query_valid)
qed

lemma send_query_error_no_params:
  "(fst (send_query c p io) = Inl e) = (fst (send_query c p' io) = Inl e)"
proof (cases "GetToken (oauthClient c) (auth io)" rule: prod_cases3)
  case (fields r oc fx)
  show ?thesis
  proof (cases r)
    case (Inl x)
    then show ?thesis using fields by (simp add: send_query_def)
  next
    case (Inr tok)
    then show ?thesis using fields
      by (cases "data io") (simp_all add: send_query_def Let_def split: option.splits sum.splits)
  qed
qed

lemma Query_error_Top:
  "(fst (Query c (p\<lparr> Top := t \<rparr>) io) = Inl e) = (fst (Query c p io) = Inl e)"
proof (cases "query_invalid p")
  case True
  then have "query_invalid (p\<lparr> Top := t \<rparr>)" by (simp add: query_invalid_Top)
  then show ?thesis using True by (simp add: Query_rejected)
next
  case False
  then have "\<not> query_invalid (p\<lparr> Top := t \<rparr>)" by (simp add: query_invalid_Top)
  then show ?thesis using False send_query_error_no_params [of c "p\<lparr> Top := t \<rparr>" io e p]
    by (simp add: Query_valid)
qed

section \<open>The concrete inputs, evaluated\<close>

lemma example_GetToken:
  "GetToken (oauthClient example_client) (auth example_io) =
     (Inr ''tok'',
      example_oauth\<lparr> token := Some example_token, tokenExpiry := 3540 * Second \<rparr>,
      [AuthPost ''https://authenticate.constellation1apis.com/oauth2/token'' ''id'' ''secret''])"
  by (simp add: GetToken_def refreshToken_def cached_token_def example_client_def example_io_def
      example_auth_io_def example_oauth_def NewClient_def NewOAuthClient_def example_token_def
      expiry_duration_3600 Let_def)

lemma example_data: "data example_io = DataResponse 200 [] None (Inr example_response)"
  by (simp add: example_io_def)

lemma parse_property:
  "parseArguments amd64_out_of_range [''entity'' \<mapsto> GStr ''Property''] = Inr (request ''Property'' 0 0)"
  by (simp add: parseArguments_def request_def)

lemma parse_property_5000:
  "parseArguments amd64_out_of_range [''entity'' \<mapsto> GStr ''Property'', ''top'' \<mapsto> GFloat 5000 0]
     = Inr (request ''Property'' 5000 0)"
  by (simp add: parseArguments_def request_def float_to_int_def float_trunc_def)

lemma request_fields:
  "Entity (request en t s) = en" "Top (request en t s) = t" "Skip (request en t s) = s"
  "Select (request en t s) = []" "Filter (request en t s) = []" "OrderBy (request en t s) = []"
  "Expand (request en t s) = []" "IgnoreNulls (request en t s)" "\<not> IgnoreCase (request en t s)"
  by (simp_all add: request_def)

lemma valid_Property: "0 \<le> s \<Longrightarrow> s \<le> 1000000 \<Longrightarrow> \<not> query_invalid (request ''Property'' t s)"
  by (simp add: query_invalid_def request_fields IsValidEntity_iff GetSupportedEntities_def
      GetEntitySkipLimit_def limits_def)

lemma Query_example:
  assumes "\<not> query_invalid p"
  shows "Query example_client p example_io =
     (Inr (example_response\<lparr> RequestTime := 0, ResponseTime := 1, RequestParams := p \<rparr>),
      example_client\<lparr> oauthClient :=
        example_oauth\<lparr> token := Some example_token, tokenExpiry := 3540 * Second \<rparr> \<rparr>,
      [AuthPost ''https://authenticate.constellation1apis.com/oauth2/token'' ''id'' ''secret'',
       ApiGet (''https://listings.cdatalabs.com/odata/'' @ Entity p) (query_values p) ''tok''])"
  unfolding Query_valid [OF assms]
  by (simp add: send_query_def example_GetToken example_data Let_def)
     (simp add: example_io_def example_client_def NewClient_def)

section \<open>Claims about the token cache\<close>



text \<open>
  C4. When the token exchange fails (the request cannot be created, the transport
  fails, the body cannot be read, the status is not 200, which covers every status
  outside 2xx, or the body is no token response), \<open>GetToken\<close> leaves the client,
  cached token and expiry included, exactly as it was; and when no valid token was
  cached, what it returns is an error.
\<close>

theorem failed_refresh_keeps_cache:
  assumes "exchange_failed (reply io)"
  shows "fst (snd (GetToken c io)) = c
         \<and> (cached_token c (now_check io) = None \<and> cached_token c (now_recheck io) = None
              \<longrightarrow> isl (fst (GetToken c io)))"
proof (cases "cached_token c (now_check io)")
  case None
  then show ?thesis
    using refreshToken_state_failed [OF assms, of c] refreshToken_failed [OF assms, of c]
    by (simp add: GetToken_uncached)
next
  case (Some t)
  then show ?thesis by (simp add: GetToken_cached)
qed

theorem failed_refresh_keeps_cache_witness:
  "exchange_failed (reply (failing_auth_io 7200000000000))
   \<and> fst (snd (GetToken (example_oauth\<lparr> token := Some example_token,
                                          tokenExpiry := 3540000000000 \<rparr>)
                  (failing_auth_io 7200000000000)))
     = example_oauth\<lparr> token := Some example_token, tokenExpiry := 3540000000000 \<rparr>
   \<and> isl (fst (GetToken (example_oauth\<lparr> token := Some example_token,
                                         tokenExpiry := 3540000000000 \<rparr>)
                 (failing_auth_io 7200000000000)))"
proof -
  have failed: "exchange_failed (reply (failing_auth_io 7200000000000))"
    by (simp add: exchange_failed_def failing_auth_io_def)
  have stale: "cached_token (example_oauth\<lparr> token := Some example_token,
                                           tokenExpiry := 3540000000000 \<rparr>) 7200000000000 = None"
    by (simp add: cached_token_def)
  show ?thesis
    using failed_refresh_keeps_cache [OF failed,
        of "example_oauth\<lparr> token := Some example_token, tokenExpiry := 3540000000000 \<rparr>"]
      failed stale
    by (simp add: failing_auth_io_def)
qed

section \<open>Claims about validation and the outgoing parameters\<close>

text \<open>
  C5. An entity that is not one of the nine catalog names, or a skip above the
  entity's limit, makes \<open>Query\<close> return the validation error that names the
  offending value, with the client untouched and nothing sent: no token request, no
  API request. A request with a catalog entity and a skip within the limit goes on to
  the token step and, given a token, to the API request.
\<close>

theorem Query_validates_before_any_request:
  "(Entity p \<notin> set GetSupportedEntities \<longrightarrow>
      Query c p io = (Inl (Errorf (''unsupported entity: '' @ Entity p)), c, []))
   \<and> (Entity p \<in> set GetSupportedEntities \<and> GetEntitySkipLimit (Entity p) < Skip p \<longrightarrow>
      Query c p io =
        (Inl (Errorf (''skip value '' @ Itoa (Skip p) @ '' exceeds limit ''
                      @ Itoa (GetEntitySkipLimit (Entity p)) @ '' for entity '' @ Entity p)),
         c, []))
   \<and> (Entity p \<in> set GetSupportedEntities \<and> Skip p \<le> GetEntitySkipLimit (Entity p) \<longrightarrow>
      fst (snd (Query c p io))
          = c\<lparr> oauthClient := fst (snd (GetToken (oauthClient c) (auth io))) \<rparr>
      \<and> (\<forall>tok oc fx.
            GetToken (oauthClient c) (auth io) = (Inr tok, oc, fx)
            \<and> (\<forall>e. data io \<noteq> DataRequestError e) \<longrightarrow>
            snd (snd (Query c p io))
              = fx @ [ApiGet (baseURL c @ ''/'' @ Entity p) (query_values p) tok]))"
proof (intro conjI impI)
  assume "Entity p \<notin> set GetSupportedEntities"
  then have "query_invalid p" "\<not> IsValidEntity (Entity p)"
    by (simp_all add: query_invalid_def IsValidEntity_iff)
  then show "Query c p io = (Inl (Errorf (''unsupported entity: '' @ Entity p)), c, [])"
    by (simp add: Query_rejected)
next
  assume a: "Entity p \<in> set GetSupportedEntities \<and> GetEntitySkipLimit (Entity p) < Skip p"
  moreover have "50000 \<le> GetEntitySkipLimit (Entity p)" by (rule limit_ge)
  ultimately have "query_invalid p" "IsValidEntity (Entity p)"
    by (simp_all add: query_invalid_def IsValidEntity_iff)
  then show "Query c p io =
        (Inl (Errorf (''skip value '' @ Itoa (Skip p) @ '' exceeds limit ''
                      @ Itoa (GetEntitySkipLimit (Entity p)) @ '' for entity '' @ Entity p)),
         c, [])"
    by (simp add: Query_rejected)
next
  assume a: "Entity p \<in> set GetSupportedEntities \<and> Skip p \<le> GetEntitySkipLimit (Entity p)"
  then have valid: "\<not> query_invalid p"
    by (simp add: query_invalid_def IsValidEntity_iff)
  show "fst (snd (Query c p io))
          = c\<lparr> oauthClient := fst (snd (GetToken (oauthClient c) (auth io))) \<rparr>"
    by (simp add: Query_valid [OF valid] send_query_state)
  show "\<forall>tok oc fx.
            GetToken (oauthClient c) (auth io) = (Inr tok, oc, fx)
            \<and> (\<forall>e. data io \<noteq> DataRequestError e) \<longrightarrow>
            snd (snd (Query c p io))
              = fx @ [ApiGet (baseURL c @ ''/'' @ Entity p) (query_values p) tok]"
  proof (intro allI impI, elim conjE)
    fix tok oc fx
    assume g: "GetToken (oauthClient c) (auth io) = (Inr tok, oc, fx)"
      and d: "\<forall>e. data io \<noteq> DataRequestError e"
    show "snd (snd (Query c p io))
              = fx @ [ApiGet (baseURL c @ ''/'' @ Entity p) (query_values p) tok]"
      unfolding Query_valid [OF valid] using g d by (rule send_query_sends)
  qed
qed

theorem Query_validates_before_any_request_witness:
  "Query example_client (request ''Foo'' 0 0) example_io
     = (Inl (Errorf ''unsupported entity: Foo''), example_client, [])
   \<and> Query example_client (request ''Media'' 0 600000) example_io
     = (Inl (Errorf ''skip value 600000 exceeds limit 50000 for entity Media''),
        example_client, [])
   \<and> snd (snd (Query example_client (request ''Media'' 0 40000) example_io))
     = [AuthPost ''https://authenticate.constellation1apis.com/oauth2/token'' ''id'' ''secret'',
        ApiGet ''https://listings.cdatalabs.com/odata/Media''
          (query_values (request ''Media'' 0 40000)) ''tok'']"
proof -
  have media: "''Media'' \<in> set GetSupportedEntities" "''Foo'' \<notin> set GetSupportedEntities"
    "GetEntitySkipLimit ''Media'' = 50000"
    by (simp_all add: GetSupportedEntities_def GetEntitySkipLimit_def limits_def)
  have foo: "Query example_client (request ''Foo'' 0 0) example_io
     = (Inl (Errorf ''unsupported entity: Foo''), example_client, [])"
    using Query_validates_before_any_request [of "request ''Foo'' 0 0" example_client example_io]
      media
    by (simp add: request_fields)
  have over: "Query example_client (request ''Media'' 0 600000) example_io
     = (Inl (Errorf ''skip value 600000 exceeds limit 50000 for entity Media''),
        example_client, [])"
    using Query_validates_before_any_request
      [of "request ''Media'' 0 600000" example_client example_io] media
    by (simp add: request_fields Itoa_eval)
  have no_req_error: "\<forall>e. data example_io \<noteq> DataRequestError e"
    by (simp add: example_data)
  have sends: "\<forall>tok oc fx.
      GetToken (oauthClient example_client) (auth example_io) = (Inr tok, oc, fx)
      \<and> (\<forall>e. data example_io \<noteq> DataRequestError e) \<longrightarrow>
      snd (snd (Query example_client (request ''Media'' 0 40000) example_io))
        = fx @ [ApiGet (baseURL example_client @ ''/'' @ Entity (request ''Media'' 0 40000))
                  (query_values (request ''Media'' 0 40000)) tok]"
    using Query_validates_before_any_request
      [of "request ''Media'' 0 40000" example_client example_io] media
    by (simp add: request_fields)
  have within: "snd (snd (Query example_client (request ''Media'' 0 40000) example_io))
     = [AuthPost ''https://authenticate.constellation1apis.com/oauth2/token'' ''id'' ''secret'',
        ApiGet ''https://listings.cdatalabs.com/odata/Media''
          (query_values (request ''Media'' 0 40000)) ''tok'']"
    using sends [rule_format, OF conjI [OF example_GetToken no_req_error]]
    by (simp add: example_client_def NewClient_def request_fields)
  show ?thesis using foo over within by simp
qed

text \<open>
  C7. The parameter set of the outgoing request holds \<open>$select\<close>, \<open>$filter\<close> and
  \<open>$orderby\<close> exactly when the field is a non-empty string, \<open>$top\<close> and \<open>$skip\<close>
  exactly when the field is positive, \<open>$ignorenulls\<close> and \<open>$ignorecase\<close> exactly
  when the flag is set, and no other key. For a tool call that omits \<open>select\<close>,
  \<open>filter\<close>, \<open>top\<close>, \<open>skip\<close> or \<open>orderby\<close> the parameter is absent; in
  particular no \<open>$skip\<close> is sent when \<open>skip\<close> is omitted. Every API request
  that \<open>Query\<close> sends carries exactly this parameter set.
\<close>

theorem query_values_only_for_set_fields:
  "query_values p ''$select'' = (if Select p = [] then None else Some [Select p])
   \<and> query_values p ''$filter'' = (if Filter p = [] then None else Some [Filter p])
   \<and> query_values p ''$top'' = (if 0 < Top p then Some [Itoa (Top p)] else None)
   \<and> query_values p ''$skip'' = (if 0 < Skip p then Some [Itoa (Skip p)] else None)
   \<and> query_values p ''$orderby'' = (if OrderBy p = [] then None else Some [OrderBy p])
   \<and> query_values p ''$ignorenulls'' = (if IgnoreNulls p then Some [''true''] else None)
   \<and> query_values p ''$ignorecase'' = (if IgnoreCase p then Some [''true''] else None)
   \<and> (\<forall>k. k \<notin> {''$select'', ''$filter'', ''$top'', ''$skip'', ''$orderby'',
                  ''$ignorenulls'', ''$ignorecase''} \<longrightarrow> query_values p k = None)
   \<and> (\<forall>oor args. parseArguments oor args = Inr p \<longrightarrow>
          (args ''select'' = None \<longrightarrow> query_values p ''$select'' = None)
        \<and> (args ''filter'' = None \<longrightarrow> query_values p ''$filter'' = None)
        \<and> (args ''top'' = None \<longrightarrow> query_values p ''$top'' = None)
        \<and> (args ''skip'' = None \<longrightarrow> query_values p ''$skip'' = None)
        \<and> (args ''orderby'' = None \<longrightarrow> query_values p ''$orderby'' = None))
   \<and> (\<forall>c io u q tok. ApiGet u q tok \<in> set (snd (snd (Query c p io)))
          \<longrightarrow> q = query_values p)"
proof -
  have sent: "\<forall>c io u q tok. ApiGet u q tok \<in> set (snd (snd (Query c p io)))
          \<longrightarrow> q = query_values p"
    by (intro allI impI) (simp add: Query_ApiGet)
  have omitted: "\<forall>oor args. parseArguments oor args = Inr p \<longrightarrow>
          (args ''select'' = None \<longrightarrow> query_values p ''$select'' = None)
        \<and> (args ''filter'' = None \<longrightarrow> query_values p ''$filter'' = None)
        \<and> (args ''top'' = None \<longrightarrow> query_values p ''$top'' = None)
        \<and> (args ''skip'' = None \<longrightarrow> query_values p ''$skip'' = None)
        \<and> (args ''orderby'' = None \<longrightarrow> query_values p ''$orderby'' = None)"
  proof (intro allI impI)
    fix oor args
    assume parsed: "parseArguments oor args = Inr p"
    note f = parseArguments_fields [OF parsed]
    show "(args ''select'' = None \<longrightarrow> query_values p ''$select'' = None)
        \<and> (args ''filter'' = None \<longrightarrow> query_values p ''$filter'' = None)
        \<and> (args ''top'' = None \<longrightarrow> query_values p ''$top'' = None)
        \<and> (args ''skip'' = None \<longrightarrow> query_values p ''$skip'' = None)
        \<and> (args ''orderby'' = None \<longrightarrow> query_values p ''$orderby'' = None)"
      by (simp add: f qv_select qv_filter qv_top qv_skip qv_orderby)
  qed
  have others: "\<forall>k. k \<notin> {''$select'', ''$filter'', ''$top'', ''$skip'', ''$orderby'',
                  ''$ignorenulls'', ''$ignorecase''} \<longrightarrow> query_values p k = None"
    using qv_other [of _ p] by (intro allI impI)
  show ?thesis
    by (intro conjI others omitted sent)
       (simp_all add: qv_select qv_filter qv_top qv_skip qv_orderby qv_ignorenulls
          qv_ignorecase)
qed

theorem query_values_only_for_set_fields_witness:
  "parseArguments amd64_out_of_range [''entity'' \<mapsto> GStr ''Property'', ''top'' \<mapsto> GFloat 5000 0]
     = Inr (request ''Property'' 5000 0)
   \<and> query_values (request ''Property'' 5000 0) ''$skip'' = None
   \<and> query_values (request ''Property'' 5000 0) ''$select'' = None
   \<and> query_values (request ''Property'' 5000 0) ''$top'' = Some [''5000'']
   \<and> query_values (request ''Property'' 5000 0) ''$ignorenulls'' = Some [''true'']"
  using query_values_only_for_set_fields [of "request ''Property'' 5000 0"] parse_property_5000
  by (simp add: request_fields Itoa_eval)

text \<open>
  C10. A string \<open>expand\<close> argument is trimmed and stored in the parsed parameters,
  yet the parameter set that \<open>Query\<close> builds has no \<open>$expand\<close> key (its keys are
  among \<open>$select\<close>, \<open>$filter\<close>, \<open>$top\<close>, \<open>$skip\<close>, \<open>$orderby\<close>,
  \<open>$ignorenulls\<close>, \<open>$ignorecase\<close>), and every API request that \<open>Query\<close> sends
  carries exactly that parameter set.
\<close>

theorem expand_parsed_but_never_sent:
  assumes "args ''entity'' = Some (GStr en)" and "args ''expand'' = Some (GStr ex)"
  shows "\<exists>p. parseArguments oor args = Inr p
           \<and> Expand p = TrimSpace ex
           \<and> query_values p ''$expand'' = None
           \<and> dom (query_values p) \<subseteq> {''$select'', ''$filter'', ''$top'', ''$skip'', ''$orderby'',
                                      ''$ignorenulls'', ''$ignorecase''}
           \<and> (\<forall>c io u q tok. ApiGet u q tok \<in> set (snd (snd (Query c p io)))
                  \<longrightarrow> q = query_values p \<and> q ''$expand'' = None)"
proof -
  obtain p where p: "parseArguments oor args = Inr p"
    using parseArguments_Inr [of args en oor] assms(1) by blast
  have "Expand p = TrimSpace ex"
    using parseArguments_fields(6) [OF p] assms(2) by simp
  moreover have none: "query_values p ''$expand'' = None"
    by (rule qv_expand)
  moreover have "\<forall>c io u q tok. ApiGet u q tok \<in> set (snd (snd (Query c p io)))
                  \<longrightarrow> q = query_values p \<and> q ''$expand'' = None"
  proof (intro allI impI)
    fix c io u q tok
    assume "ApiGet u q tok \<in> set (snd (snd (Query c p io)))"
    then have "q = query_values p" using Query_ApiGet by simp
    then show "q = query_values p \<and> q ''$expand'' = None" using none by simp
  qed
  ultimately show ?thesis using p qv_dom [of p] by (intro exI [of _ p] conjI)
qed

theorem expand_parsed_but_never_sent_witness:
  "parseArguments amd64_out_of_range
      [''entity'' \<mapsto> GStr ''Property'', ''expand'' \<mapsto> GStr '' Media '']
     = Inr ((request ''Property'' 0 0)\<lparr> Expand := ''Media'' \<rparr>)
   \<and> query_values ((request ''Property'' 0 0)\<lparr> Expand := ''Media'' \<rparr>) ''$expand'' = None"
proof -
  have parsed: "parseArguments amd64_out_of_range
      [''entity'' \<mapsto> GStr ''Property'', ''expand'' \<mapsto> GStr '' Media '']
     = Inr ((request ''Property'' 0 0)\<lparr> Expand := ''Media'' \<rparr>)"
    by (simp add: parseArguments_def request_def TrimSpace_eval)
  have e: "[''entity'' \<mapsto> GStr ''Property'', ''expand'' \<mapsto> GStr '' Media ''] ''entity''
      = Some (GStr ''Property'')"
    by simp
  have x: "[''entity'' \<mapsto> GStr ''Property'', ''expand'' \<mapsto> GStr '' Media ''] ''expand''
      = Some (GStr '' Media '')"
    by simp
  from expand_parsed_but_never_sent
      [of "[''entity'' \<mapsto> GStr ''Property'', ''expand'' \<mapsto> GStr '' Media '']"
          "''Property''" "'' Media ''" amd64_out_of_range, OF e x]
  obtain p where p: "parseArguments amd64_out_of_range
      [''entity'' \<mapsto> GStr ''Property'', ''expand'' \<mapsto> GStr '' Media ''] = Inr p"
    and none: "query_values p ''$expand'' = None"
    by (elim exE conjE)
  have "p = (request ''Property'' 0 0)\<lparr> Expand := ''Media'' \<rparr>"
    using p parsed by simp
  then show ?thesis using parsed none by simp
qed

section \<open>Claims about top and the numeric arguments\<close>

text \<open>
  C6, as the specification states it, fails on the code: a call that omits \<open>top\<close> is
  parsed to \<open>Top = 0\<close> and its query carries no \<open>$top\<close> at all (not \<open>$top=10\<close>),
  and a call with \<open>top = 5000\<close> is not rejected: it is parsed, sent with
  \<open>$top=5000\<close> and answered.
\<close>

theorem top_default_counterexample:
  "parseArguments amd64_out_of_range [''entity'' \<mapsto> GStr ''Property'']
     = Inr (request ''Property'' 0 0)
   \<and> query_values (request ''Property'' 0 0) ''$top'' = None
   \<and> parseArguments amd64_out_of_range
        [''entity'' \<mapsto> GStr ''Property'', ''top'' \<mapsto> GFloat 5000 0]
     = Inr (request ''Property'' 5000 0)
   \<and> query_values (request ''Property'' 5000 0) ''$top'' = Some [''5000'']
   \<and> fst (Query example_client (request ''Property'' 5000 0) example_io)
     = Inr (example_response\<lparr> RequestTime := 0, ResponseTime := 1,
                              RequestParams := request ''Property'' 5000 0 \<rparr>)"
proof -
  have "\<not> query_invalid (request ''Property'' 5000 0)"
    by (rule valid_Property) simp_all
  then have "fst (Query example_client (request ''Property'' 5000 0) example_io)
     = Inr (example_response\<lparr> RequestTime := 0, ResponseTime := 1,
                              RequestParams := request ''Property'' 5000 0 \<rparr>)"
    by (simp add: Query_example)
  then show ?thesis
    using parse_property parse_property_5000
    by (simp add: qv_top request_fields Itoa_eval)
qed

text \<open>
  C6, amended. \<open>parseArguments\<close> sets \<open>Top\<close> to whatever the numeric switch reads
  from the \<open>top\<close> argument, starting from 0: an omitted \<open>top\<close> gives \<open>Top = 0\<close> and
  no \<open>$top\<close> parameter. A positive \<open>Top\<close>, above 1000 or not, is sent as it is;
  a \<open>Top\<close> of zero or less sends no \<open>$top\<close>. No value of \<open>top\<close> makes
  \<open>parseArguments\<close> or \<open>Query\<close> fail: parsing fails for the same calls whatever
  \<open>top\<close> is, and \<open>Query\<close> returns the same errors whatever \<open>Top\<close> is.
\<close>

theorem top_forwarded_unchecked:
  "(args ''entity'' = Some (GStr en) \<longrightarrow>
      (\<exists>p. parseArguments oor args = Inr p
           \<and> Top p = coerce_int oor (args ''top'') 0
           \<and> (args ''top'' = None \<longrightarrow> Top p = 0 \<and> query_values p ''$top'' = None)
           \<and> query_values p ''$top'' = (if 0 < Top p then Some [Itoa (Top p)] else None)))
   \<and> (\<exists>e. parseArguments oor (args(''top'' := v)) = Inl e) = (\<exists>e. parseArguments oor args = Inl e)
   \<and> (fst (Query c (q\<lparr> Top := t \<rparr>) io) = Inl e) = (fst (Query c q io) = Inl e)"
proof (intro conjI impI)
  assume en: "args ''entity'' = Some (GStr en)"
  obtain p where p: "parseArguments oor args = Inr p"
    using parseArguments_Inr [of args en oor] en by blast
  have top: "Top p = coerce_int oor (args ''top'') 0"
    using parseArguments_fields(3) [OF p] .
  have "args ''top'' = None \<longrightarrow> Top p = 0 \<and> query_values p ''$top'' = None"
    using top by (simp add: qv_top)
  then show "\<exists>p. parseArguments oor args = Inr p
           \<and> Top p = coerce_int oor (args ''top'') 0
           \<and> (args ''top'' = None \<longrightarrow> Top p = 0 \<and> query_values p ''$top'' = None)
           \<and> query_values p ''$top'' = (if 0 < Top p then Some [Itoa (Top p)] else None)"
    using p top qv_top [of p] by (intro exI [of _ p] conjI)
next
  show "(\<exists>e. parseArguments oor (args(''top'' := v)) = Inl e) = (\<exists>e. parseArguments oor args = Inl e)"
    by (simp add: parseArguments_error_iff)
next
  show "(fst (Query c (q\<lparr> Top := t \<rparr>) io) = Inl e) = (fst (Query c q io) = Inl e)"
    by (rule Query_error_Top)
qed

theorem top_forwarded_unchecked_witness:
  "parseArguments amd64_out_of_range
        [''entity'' \<mapsto> GStr ''Property'', ''top'' \<mapsto> GFloat 5000 0]
     = Inr (request ''Property'' 5000 0)
   \<and> coerce_int amd64_out_of_range (Some (GFloat 5000 0)) 0 = 5000
   \<and> query_values (request ''Property'' 5000 0) ''$top'' = Some [''5000'']
   \<and> fst (Query example_client ((request ''Property'' 0 0)\<lparr> Top := 5000 \<rparr>) example_io)
       \<noteq> Inl (Errorf ''top out of range'')"
proof -
  have e: "[''entity'' \<mapsto> GStr ''Property'', ''top'' \<mapsto> GFloat 5000 0] ''entity''
      = Some (GStr ''Property'')"
    by simp
  have valid: "\<not> query_invalid (request ''Property'' 0 0)"
    by (rule valid_Property) simp_all
  note inst = top_forwarded_unchecked
      [where args = "[''entity'' \<mapsto> GStr ''Property'', ''top'' \<mapsto> GFloat 5000 0]"
         and en = "''Property''" and oor = amd64_out_of_range and v = "Some GNil"
         and c = example_client and q = "request ''Property'' 0 0" and t = 5000
         and io = example_io and e = "Errorf ''top out of range''"]
  from inst [THEN conjunct1, rule_format, OF e]
  obtain p where p: "parseArguments amd64_out_of_range
        [''entity'' \<mapsto> GStr ''Property'', ''top'' \<mapsto> GFloat 5000 0] = Inr p"
    and top: "Top p = coerce_int amd64_out_of_range
        ([''entity'' \<mapsto> GStr ''Property'', ''top'' \<mapsto> GFloat 5000 0] ''top'') 0"
    and sent: "query_values p ''$top'' = (if 0 < Top p then Some [Itoa (Top p)] else None)"
    by (elim exE conjE)
  have p_eq: "p = request ''Property'' 5000 0"
    using p parse_property_5000 by simp
  have "fst (Query example_client ((request ''Property'' 0 0)\<lparr> Top := 5000 \<rparr>) example_io)
       \<noteq> Inl (Errorf ''top out of range'')"
    using inst [THEN conjunct2, THEN conjunct2] valid by (simp add: Query_example)
  moreover have "coerce_int amd64_out_of_range (Some (GFloat 5000 0)) 0 = 5000"
    using top p_eq by (simp add: request_fields)
  moreover have "query_values (request ''Property'' 5000 0) ''$top'' = Some [''5000'']"
    using sent p_eq by (simp add: request_fields Itoa_eval)
  ultimately show ?thesis
    using parse_property_5000 by simp
qed

text \<open>
  C8, as the specification states it, fails on the code: the number ten and a half
  arrives as the float64 \<open>21 * 2 ^ -1\<close> and is coerced to 10, while the numeric
  string \<open>10.5\<close> is not coerced at all and leaves the field at 0.
\<close>

theorem numeric_string_counterexample:
  "parseArguments amd64_out_of_range
        [''entity'' \<mapsto> GStr ''Property'', ''top'' \<mapsto> GFloat 21 (- 1)]
     = Inr (request ''Property'' 10 0)
   \<and> parseArguments amd64_out_of_range
        [''entity'' \<mapsto> GStr ''Property'', ''top'' \<mapsto> GStr ''10.5'']
     = Inr (request ''Property'' 0 0)"
  by (simp add: parseArguments_def request_def float_to_int_def float_trunc_def Atoi_fraction)

text \<open>
  C8, amended. For an integer \<open>n\<close> in the range of \<open>int\<close>, the int \<open>n\<close>, a float64
  whose value is \<open>n\<close> and the decimal string of \<open>n\<close> are all coerced to \<open>n\<close>. A
  float64 with a fraction is cut toward zero. A string that \<open>Atoi\<close> refuses, which
  includes numeric strings with a fraction such as \<open>10.5\<close>, and a value that is no
  number or string (null, boolean, array, object) or is absent leave the field as it
  was, 0 for \<open>top\<close> and \<open>skip\<close>; none of them is an error: the call parses whenever
  it has a string entity.
\<close>

theorem numeric_arguments_coercion:
  "(- (2 ^ 63) \<le> n \<and> n < 2 ^ 63 \<and> float_is_int m e n \<longrightarrow>
      coerce_int oor (Some (GFloat m e)) old = n
      \<and> coerce_int oor (Some (GInt n)) old = n
      \<and> coerce_int oor (Some (GStr (Itoa n))) old = n)
   \<and> (- (2 ^ 63) \<le> float_trunc m e \<and> float_trunc m e < 2 ^ 63 \<longrightarrow>
      coerce_int oor (Some (GFloat m e)) old = float_trunc m e)
   \<and> (Atoi s = None \<longrightarrow> coerce_int oor (Some (GStr s)) old = old)
   \<and> coerce_int oor (Some GNil) old = old
   \<and> coerce_int oor (Some (GBool b)) old = old
   \<and> coerce_int oor (Some (GArr xs)) old = old
   \<and> coerce_int oor (Some (GObj f)) old = old
   \<and> coerce_int oor None old = old
   \<and> (args ''entity'' = Some (GStr en) \<longrightarrow>
        (\<exists>p. parseArguments oor args = Inr p
             \<and> Top p = coerce_int oor (args ''top'') 0
             \<and> Skip p = coerce_int oor (args ''skip'') 0))"
proof (intro conjI impI)
  assume a: "- (2 ^ 63) \<le> n \<and> n < 2 ^ 63 \<and> float_is_int m e n"
  then have "float_trunc m e = n" by (simp add: float_trunc_int)
  then show "coerce_int oor (Some (GFloat m e)) old = n"
    using a by (simp add: float_to_int_in_range)
  show "coerce_int oor (Some (GInt n)) old = n" by simp
  show "coerce_int oor (Some (GStr (Itoa n))) old = n"
    using a by (simp add: Atoi_Itoa)
next
  assume "- (2 ^ 63) \<le> float_trunc m e \<and> float_trunc m e < 2 ^ 63"
  then show "coerce_int oor (Some (GFloat m e)) old = float_trunc m e"
    by (simp add: float_to_int_in_range)
next
  assume "args ''entity'' = Some (GStr en)"
  then show "\<exists>p. parseArguments oor args = Inr p
             \<and> Top p = coerce_int oor (args ''top'') 0
             \<and> Skip p = coerce_int oor (args ''skip'') 0"
    using parseArguments_Inr [of args en oor] by simp
qed simp_all

theorem numeric_arguments_coercion_witness:
  "coerce_int amd64_out_of_range (Some (GFloat 5 1)) 0 = 10
   \<and> coerce_int amd64_out_of_range (Some (GInt 10)) 0 = 10
   \<and> coerce_int amd64_out_of_range (Some (GStr ''10'')) 0 = 10
   \<and> coerce_int amd64_out_of_range (Some (GFloat 21 (- 1))) 0 = 10
   \<and> coerce_int amd64_out_of_range (Some (GStr ''10.5'')) 0 = 0"
proof -
  have i: "float_is_int 5 1 10" by (simp add: float_is_int_def)
  have t: "float_trunc 21 (- 1) = 10" by (simp add: float_trunc_def)
  have s: "Itoa 10 = ''10''" by (simp add: Itoa_eval)
  show ?thesis
    using numeric_arguments_coercion
      [where n = 10 and m = 5 and e = 1 and oor = amd64_out_of_range and old = 0
         and s = "''10.5''"]
      numeric_arguments_coercion
      [where n = 10 and m = 21 and e = "- 1" and oor = amd64_out_of_range and old = 0
         and s = "''10.5''"]
      i t s Atoi_fraction
    by simp
qed

section \<open>The members of an object that a struct field takes\<close>

text \<open>
  The keys that \<open>spellings\<close> lists for a name made of letters are exactly the keys
  whose folded name is that of the name, and they are listed in ascending byte
  order, each one once.
\<close>

lemma byte_eq_iff: "(byte c = byte d) = (c = d)"
  by (simp add: byte_def)

lemma byte_less_256: "byte c < 256"
  unfolding byte_def by (cases c) simp

lemma byte_char_of: "n < 256 \<Longrightarrow> byte (char_of n) = n"
  by (simp add: byte_def)

lemma char_of_eq_iff: "n < 256 \<Longrightarrow> (char_of n = c) = (n = byte c)"
  using byte_eq_iff [of "char_of n" c] by (simp add: byte_char_of)

lemma eq_char_of_iff: "n < 256 \<Longrightarrow> (c = char_of n) = (byte c = n)"
  using byte_eq_iff [of c "char_of n"] by (simp add: byte_char_of)

lemma byte_to_upper:
  "byte (to_upper c) = (if 97 \<le> byte c \<and> byte c \<le> 122 then byte c - 32 else byte c)"
  by (auto simp: to_upper_def intro!: byte_char_of)

lemma byte_to_lower:
  "byte (to_lower c) = (if 65 \<le> byte c \<and> byte c \<le> 90 then byte c + 32 else byte c)"
  by (auto simp: to_lower_def intro!: byte_char_of)


lemma letter_upper_lower:
  assumes "letter c"
  shows "byte (to_upper c) < byte (to_lower c)" and "byte (to_lower c) < 128"
    and "65 \<le> byte (to_upper c)" and "byte (to_upper c) \<le> 90"
    and "byte (to_lower c) = byte (to_upper c) + 32"
  using assms by (auto simp: letter_def byte_to_upper byte_to_lower)

lemma to_upper_eq_iff:
  assumes "letter c" and "byte b < 128"
  shows "(to_upper b = to_upper c) = (b = to_upper c \<or> b = to_lower c)"
proof -
  have "(byte (to_upper b) = byte (to_upper c))
      = (byte b = byte (to_upper c) \<or> byte b = byte (to_lower c))"
    using assms by (auto simp: letter_def byte_to_upper byte_to_lower)
  then show ?thesis by (simp only: byte_eq_iff)
qed

lemma to_upper_S: "letter c \<Longrightarrow> (to_upper c = CHR ''S'') = (to_lower c = CHR ''s'')"
  using byte_eq_iff [of "to_upper c" "CHR ''S''"] byte_eq_iff [of "to_lower c" "CHR ''s''"]
  by (auto simp: letter_def byte_to_upper byte_to_lower) (simp_all add: byte_def)

lemma to_upper_K: "letter c \<Longrightarrow> (to_upper c = CHR ''K'') = (to_lower c = CHR ''k'')"
  using byte_eq_iff [of "to_upper c" "CHR ''K''"] byte_eq_iff [of "to_lower c" "CHR ''k''"]
  by (auto simp: letter_def byte_to_upper byte_to_lower) (simp_all add: byte_def)

lemma foldName_Nil_iff: "(foldName k = []) = (k = [])"
  by (cases k) simp_all

lemma foldName_letter_Cons: "letter c \<Longrightarrow> foldName (c # cs) = to_upper c # foldName cs"
  by (auto simp: letter_def)

lemma take2_long_s: "(take 2 (b # bs) = long_s) = (\<exists>r. b # bs = long_s @ r)"
  by (cases bs) (auto simp: long_s_def)

lemma take3_kelvin: "(take 3 (b # bs) = kelvin) = (\<exists>r. b # bs = kelvin @ r)"
proof (cases bs)
  case Nil
  then show ?thesis by (simp add: kelvin_def)
next
  case (Cons x xs)
  then show ?thesis by (cases xs) (auto simp: kelvin_def)
qed

lemma foldName_long_s: "foldName (long_s @ r) = CHR ''S'' # foldName r"
  by (simp add: long_s_def byte_def kelvin_def)

lemma foldName_kelvin: "foldName (kelvin @ r) = CHR ''K'' # foldName r"
  by (simp add: long_s_def byte_def kelvin_def)

lemma foldName_Cons_iff:
  assumes "letter c"
  shows "(foldName k = to_upper c # r)
       = (\<exists>f \<in> set (forms c). \<exists>k'. k = f @ k' \<and> foldName k' = r)"
proof (cases k)
  case Nil
  then show ?thesis by (auto simp: forms_def long_s_def kelvin_def)
next
  case (Cons b bs)
  note U = letter_upper_lower [OF assms]
  have ne_u: "byte b \<ge> 128 \<Longrightarrow> b \<noteq> to_upper c" "byte b \<ge> 128 \<Longrightarrow> b \<noteq> to_lower c"
    using U by auto
  show ?thesis
  proof (cases "byte b < 128")
    case True
    have not_special: "\<And>r. b # bs \<noteq> long_s @ r" "\<And>r. b # bs \<noteq> kelvin @ r"
      using True by (auto simp: long_s_def kelvin_def byte_def)
    have "(foldName k = to_upper c # r) = ((b = to_upper c \<or> b = to_lower c) \<and> foldName bs = r)"
      using True Cons to_upper_eq_iff [OF assms True] by simp
    also have "\<dots> = (\<exists>f \<in> set (forms c). \<exists>k'. k = f @ k' \<and> foldName k' = r)"
      using not_special by (auto simp: forms_def Cons)
    finally show ?thesis .
  next
    case False
    then have hi: "byte b \<ge> 128" by simp
    show ?thesis
    proof (cases "\<exists>r'. b # bs = long_s @ r'")
      case True
      then obtain r' where r': "b # bs = long_s @ r'" by blast
      have nk: "\<And>x. long_s @ r' \<noteq> kelvin @ x" by (simp add: long_s_def kelvin_def)
      have "(foldName k = to_upper c # r) = (to_lower c = CHR ''s'' \<and> foldName r' = r)"
        using to_upper_S [OF assms] by (simp only: Cons r' foldName_long_s) auto
      also have "\<dots> = (\<exists>f \<in> set (forms c). \<exists>k'. k = f @ k' \<and> foldName k' = r)"
        using ne_u [OF hi] nk r' by (auto simp: forms_def Cons)
      finally show ?thesis .
    next
      case nl: False
      show ?thesis
      proof (cases "\<exists>r'. b # bs = kelvin @ r'")
        case True
        then obtain r' where r': "b # bs = kelvin @ r'" by blast
        have "(foldName k = to_upper c # r) = (to_lower c = CHR ''k'' \<and> foldName r' = r)"
          using to_upper_K [OF assms] by (simp only: Cons r' foldName_kelvin) auto
        also have "\<dots> = (\<exists>f \<in> set (forms c). \<exists>k'. k = f @ k' \<and> foldName k' = r)"
          using ne_u [OF hi] nl r' by (auto simp: forms_def Cons)
        finally show ?thesis .
      next
        case nk: False
        have t2: "take 2 (b # bs) \<noteq> long_s" using nl by (simp only: take2_long_s not_False_eq_True)
        have t3: "take 3 (b # bs) \<noteq> kelvin" using nk by (simp only: take3_kelvin not_False_eq_True)
        have "foldName (b # bs) = b # foldName bs"
          by (subst foldName.simps) (simp only: False t2 t3 if_False)
        then have "foldName k = b # foldName bs"
          by (simp only: Cons)
        then have "foldName k \<noteq> to_upper c # r"
          using ne_u(1) [OF hi] by simp
        moreover have "\<not> (\<exists>f \<in> set (forms c). \<exists>k'. k = f @ k' \<and> foldName k' = r)"
          using ne_u [OF hi] nl nk by (auto simp: forms_def Cons)
        ultimately show ?thesis by simp
      qed
    qed
  qed
qed

lemma set_spellings_Cons:
  "set (spellings (c # cs)) = {f @ k' | f k'. f \<in> set (forms c) \<and> k' \<in> set (spellings cs)}"
  by auto

lemma spellings_iff:
  "list_all letter n \<Longrightarrow> (k \<in> set (spellings n)) = (foldName k = foldName n)"
proof (induction n arbitrary: k)
  case Nil
  then show ?case by (auto simp: foldName_Nil_iff)
next
  case (Cons c n)
  then have c: "letter c" and n: "list_all letter n" by simp_all
  have "(k \<in> set (spellings (c # n)))
      = (\<exists>f \<in> set (forms c). \<exists>k'. k = f @ k' \<and> k' \<in> set (spellings n))"
    unfolding set_spellings_Cons by blast
  also have "\<dots> = (\<exists>f \<in> set (forms c). \<exists>k'. k = f @ k' \<and> foldName k' = foldName n)"
    using Cons.IH [OF n] by simp
  also have "\<dots> = (foldName k = to_upper c # foldName n)"
    by (rule foldName_Cons_iff [OF c, symmetric])
  finally show ?case by (simp only: foldName_letter_Cons [OF c])
qed

lemma bytes_less_irrefl: "\<not> bytes_less x x"
  by (induction x) simp_all

lemma bytes_less_append: "bytes_less (f @ x) (f @ y) = bytes_less x y"
  by (induction f) simp_all

lemma sorted_wrt_concat_map:
  "sorted_wrt (\<lambda>f f'. \<forall>x \<in> set (g f). \<forall>y \<in> set (g f'). P x y) F
   \<Longrightarrow> (\<forall>f \<in> set F. sorted_wrt P (g f))
   \<Longrightarrow> sorted_wrt P (concat (map g F))"
  by (induction F) (auto simp: sorted_wrt_append)

lemma forms_sorted:
  assumes "letter c"
  shows "sorted_wrt (\<lambda>f f'. \<forall>x y. bytes_less (f @ x) (f' @ y)) (forms c)"
  using letter_upper_lower [OF assms]
  by (auto simp: forms_def long_s_def kelvin_def) (simp_all add: byte_def)

lemma spellings_sorted:
  "list_all letter n \<Longrightarrow> sorted_wrt bytes_less (spellings n)"
proof (induction n)
  case Nil
  then show ?case by simp
next
  case (Cons c n)
  then have c: "letter c" and IH: "sorted_wrt bytes_less (spellings n)" by simp_all
  have "sorted_wrt (\<lambda>f f'. \<forall>x \<in> set (map ((@) f) (spellings n)).
            \<forall>y \<in> set (map ((@) f') (spellings n)). bytes_less x y) (forms c)"
    by (rule sorted_wrt_mono_rel [OF _ forms_sorted [OF c]]) auto
  moreover have "\<forall>f \<in> set (forms c). sorted_wrt bytes_less (map ((@) f) (spellings n))"
    using IH by (simp add: sorted_wrt_map bytes_less_append)
  ultimately show ?case
    unfolding spellings.simps by (rule sorted_wrt_concat_map)
qed

lemma sorted_wrt_distinct: "sorted_wrt P xs \<Longrightarrow> (\<And>x. \<not> P x x) \<Longrightarrow> distinct xs"
  by (induction xs) auto

lemma spellings_distinct: "list_all letter n \<Longrightarrow> distinct (spellings n)"
  using spellings_sorted [of n] bytes_less_irrefl by (rule sorted_wrt_distinct)

lemma map_filter_None: "\<forall>x \<in> set xs. m x = None \<Longrightarrow> List.map_filter m xs = []"
  by (induction xs) simp_all

lemma map_filter_single:
  "distinct xs \<Longrightarrow> key \<in> set xs \<Longrightarrow> (\<forall>x \<in> set xs. x \<noteq> key \<longrightarrow> m x = None)
   \<Longrightarrow> List.map_filter m xs = (case m key of None \<Rightarrow> [] | Some v \<Rightarrow> [v])"
proof (induction xs)
  case Nil
  then show ?case by simp
next
  case (Cons x xs)
  have none: "key \<notin> set xs \<Longrightarrow> List.map_filter m xs = []"
    using Cons.prems(3) by (induction xs) auto
  show ?case
  proof (cases "x = key")
    case True
    then show ?thesis using Cons.prems none by (simp split: option.splits)
  next
    case False
    then show ?thesis using Cons by (simp split: option.splits)
  qed
qed

lemma map_filter_pair:
  "sorted_wrt P xs \<Longrightarrow> (\<And>x. \<not> P x x) \<Longrightarrow> a \<in> set xs \<Longrightarrow> b \<in> set xs \<Longrightarrow> P a b
   \<Longrightarrow> (\<And>x y. P x y \<Longrightarrow> \<not> P y x)
   \<Longrightarrow> m a = Some va \<Longrightarrow> m b = Some vb
   \<Longrightarrow> (\<forall>x \<in> set xs. x \<noteq> a \<longrightarrow> x \<noteq> b \<longrightarrow> m x = None)
   \<Longrightarrow> List.map_filter m xs = [va, vb]"
proof (induction xs)
  case Nil
  then show ?case by simp
next
  case (Cons x xs)
  have d: "distinct (x # xs)" using Cons.prems(1,2) by (rule sorted_wrt_distinct)
  have ab: "a \<noteq> b" using Cons.prems(2,5) by auto
  show ?case
  proof (cases "x = a")
    case True
    then have "b \<in> set xs" using Cons.prems(4) ab by auto
    moreover have "\<forall>y \<in> set xs. y \<noteq> b \<longrightarrow> m y = None"
      using Cons.prems(9) d True by auto
    ultimately have "List.map_filter m xs = [vb]"
      using map_filter_single [of xs b m] d Cons.prems(8) by simp
    then show ?thesis using True Cons.prems(7) by simp
  next
    case False
    have "x \<noteq> b"
    proof
      assume "x = b"
      then have "a \<in> set xs" using Cons.prems(3) ab by auto
      then have "P b a" using Cons.prems(1) \<open>x = b\<close> by auto
      then show False using Cons.prems(5,6) by blast
    qed
    then have "m x = None" using False Cons.prems(9) by simp
    moreover have "List.map_filter m xs = [va, vb]"
      using Cons False \<open>x \<noteq> b\<close> by auto
    ultimately show ?thesis by simp
  qed
qed

lemma bytes_less_asym: "bytes_less x y \<Longrightarrow> \<not> bytes_less y x"
  by (induction x y rule: bytes_less.induct) auto

lemma members_none:
  assumes "list_all letter n" and "\<forall>k. foldName k = foldName n \<longrightarrow> m k = None"
  shows "members n m = []"
proof -
  have "\<forall>k \<in> set (spellings n). m k = None"
    using assms by (simp add: spellings_iff)
  then show ?thesis by (simp add: members_def map_filter_None)
qed

lemma members_single:
  assumes "list_all letter n" and "foldName key = foldName n"
    and "\<forall>k. foldName k = foldName n \<longrightarrow> k \<noteq> key \<longrightarrow> m k = None"
  shows "members n m = (case m key of None \<Rightarrow> [] | Some v \<Rightarrow> [v])"
  unfolding members_def
  using assms by (intro map_filter_single spellings_distinct) (simp_all add: spellings_iff)

lemma members_pair:
  assumes "list_all letter n" and "foldName a = foldName n" and "foldName b = foldName n"
    and "bytes_less a b" and "m a = Some va" and "m b = Some vb"
    and "\<forall>k. foldName k = foldName n \<longrightarrow> k \<noteq> a \<longrightarrow> k \<noteq> b \<longrightarrow> m k = None"
  shows "members n m = [va, vb]"
  unfolding members_def
proof (rule map_filter_pair [where P = bytes_less and a = a and b = b])
  show "sorted_wrt bytes_less (spellings n)" using assms(1) by (rule spellings_sorted)
  show "\<And>x. \<not> bytes_less x x" by (rule bytes_less_irrefl)
  show "a \<in> set (spellings n)" "b \<in> set (spellings n)"
    using assms(1-3) by (simp_all add: spellings_iff)
  show "bytes_less a b" by (rule assms(4))
  show "\<And>x y. bytes_less x y \<Longrightarrow> \<not> bytes_less y x" by (rule bytes_less_asym)
  show "m a = Some va" "m b = Some vb" by (rule assms(5), rule assms(6))
  show "\<forall>x \<in> set (spellings n). x \<noteq> a \<longrightarrow> x \<noteq> b \<longrightarrow> m x = None"
    using assms(1,7) by (simp add: spellings_iff)
qed

lemma letters_capabilities: "list_all letter ''capabilities''"
  by (simp add: letter_def byte_def)

lemma letters_name: "list_all letter ''name''"
  by (simp add: letter_def byte_def)

lemma letters_arguments: "list_all letter ''arguments''"
  by (simp add: letter_def byte_def)

declare foldName.simps [simp del]

lemmas foldName_eval =
  foldName.simps to_upper_def byte_def char_of_eq_iff eq_char_of_iff long_s_def kelvin_def

text \<open>What a field holds after the only member that it takes.\<close>

lemma store_map_single:
  "fold store_map (case v of None \<Rightarrow> [] | Some x \<Rightarrow> [x]) (None, False) =
     (case v of
        Some (GObj obj) \<Rightarrow> (Some obj, False)
      | Some GNil \<Rightarrow> (None, False)
      | Some x \<Rightarrow> (None, True)
      | None \<Rightarrow> (None, False))"
  by (cases v rule: nonempty_string.cases) (simp_all split: gval.splits)

lemma store_string_single:
  "fold store_string (case v of None \<Rightarrow> [] | Some x \<Rightarrow> [x]) ([], False) =
     (case v of
        Some (GStr n) \<Rightarrow> (n, False)
      | Some GNil \<Rightarrow> ([], False)
      | Some x \<Rightarrow> ([], True)
      | None \<Rightarrow> ([], False))"
  by (cases v rule: nonempty_string.cases) (simp_all split: gval.splits)

lemma decoded_Capabilities_single:
  assumes "foldName key = foldName ''capabilities''"
    and "\<forall>k. foldName k = foldName ''capabilities'' \<longrightarrow> k \<noteq> key \<longrightarrow> m k = None"
  shows "decoded_Capabilities (GObj m) =
           (case m key of Some (GObj caps) \<Rightarrow> Some caps | _ \<Rightarrow> None)"
  unfolding decoded_Capabilities_def gval.case
    members_single [OF letters_capabilities assms] store_map_single
  by (simp split: option.splits gval.splits)

lemma decoded_Capabilities_none:
  assumes "\<forall>k. foldName k = foldName ''capabilities'' \<longrightarrow> m k = None"
  shows "decoded_Capabilities (GObj m) = None"
  unfolding decoded_Capabilities_def gval.case members_none [OF letters_capabilities assms]
  by simp

lemma decoded_Capabilities_pair:
  assumes "foldName a = foldName ''capabilities''" and "foldName b = foldName ''capabilities''"
    and "bytes_less a b" and "m a = Some (GObj caps1)" and "m b = Some (GObj caps2)"
    and "\<forall>k. foldName k = foldName ''capabilities'' \<longrightarrow> k \<noteq> a \<longrightarrow> k \<noteq> b \<longrightarrow> m k = None"
  shows "decoded_Capabilities (GObj m) = Some (caps1 ++ caps2)"
  unfolding decoded_Capabilities_def gval.case members_pair [OF letters_capabilities assms]
  by simp

lemma decode_CallToolParams_single:
  assumes "foldName kn = foldName ''name''"
    and "\<forall>k. foldName k = foldName ''name'' \<longrightarrow> k \<noteq> kn \<longrightarrow> m k = None"
    and "foldName ka = foldName ''arguments''"
    and "\<forall>k. foldName k = foldName ''arguments'' \<longrightarrow> k \<noteq> ka \<longrightarrow> m k = None"
    and "m kn = Some (GStr n)" and "m ka = Some (GObj a)"
  shows "decode_CallToolParams (GObj m) = Some (n, a)"
  unfolding decode_CallToolParams_def gval.case
    members_single [OF letters_name assms(1,2)] members_single [OF letters_arguments assms(3,4)]
  by (simp add: assms(5,6))

section \<open>The settings of initialize\<close>

lemma set_from_flag_apply:
  "set_from_flag v k m k' = (if v \<noteq> [] \<and> k' = k then Some (GStr v) else m k')"
  by (simp add: set_from_flag_def)

lemma set_from_env_apply:
  "set_from_env getenv name k m k' =
     (if getenv name \<noteq> [] \<and> is_nil m k \<and> k' = k then Some (GStr (getenv name)) else m k')"
  by (simp add: set_from_env_def)

lemma is_nil_text: "is_nil m k = (m k = None \<or> m k = Some GNil)"
  by (simp add: is_nil_def split: option.splits)

lemma envSettings_client_id:
  "envSettings idf sf getenv ''client_id'' =
     first_defined [text_source idf, text_source (getenv ''CLIENT_ID''),
                    text_source (getenv ''RESO_CLIENT_ID''),
                    text_source (getenv ''MCP_RESO_CLIENT_ID'')]"
  by (simp add: envSettings_def set_from_env_apply set_from_flag_apply is_nil_text text_source_def)

lemma envSettings_client_secret:
  "envSettings idf sf getenv ''client_secret'' =
     first_defined [text_source sf, text_source (getenv ''CLIENT_SECRET''),
                    text_source (getenv ''RESO_CLIENT_SECRET''),
                    text_source (getenv ''MCP_RESO_CLIENT_SECRET'')]"
  by (simp add: envSettings_def set_from_env_apply set_from_flag_apply is_nil_text text_source_def)

lemma first_defined_Cons:
  "first_defined (x # xs) = (case x of Some v \<Rightarrow> Some v | None \<Rightarrow> first_defined xs)"
  by (cases x) simp_all

lemma first_defined_single: "first_defined [x] = x"
  by (cases x) simp_all

lemma first_defined_append:
  "first_defined (xs @ ys) = (case first_defined xs of Some v \<Rightarrow> Some v | None \<Rightarrow> first_defined ys)"
  by (induction xs rule: first_defined.induct) simp_all

lemma first_defined_None: "first_defined xs = None \<Longrightarrow> x \<in> set xs \<Longrightarrow> x = None"
  by (induction xs rule: first_defined.induct) auto

lemma lookup_overlay:
  "lookup (overlay st m) k = (case m k of Some v \<Rightarrow> Some v | None \<Rightarrow> lookup st k)"
  by (simp add: lookup_def overlay_def map_add_def split: option.splits)

lemma lookup_set_if_exists:
  "set_if_exists raw k' m k = (if k = k' then (case raw k' of Some v \<Rightarrow> Some v | None \<Rightarrow> m k) else m k)"
  by (simp add: set_if_exists_def split: option.splits)

lemma initialize_settings_not_object:
  assumes "\<forall>raw. p \<noteq> GObj raw"
  shows "initialize_settings s p = pendingSettings s"
proof -
  have caps: "decoded_Capabilities p = None"
    using assms by (cases p) (simp_all add: decoded_Capabilities_def)
  show ?thesis
    using assms caps
    by (cases p) (simp_all add: initialize_settings_def Let_def split: option.splits)
qed

lemma initialize_settings_object:
  "\<exists>m. initialize_settings s (GObj raw) = Some m"
  by (simp add: initialize_settings_def Let_def)

lemma initialize_settings_lookup:
  assumes "k = ''client_id'' \<or> k = ''client_secret''"
  shows "lookup (initialize_settings s p) k =
           first_defined [bare_key p k, params_settings p k, capabilities_settings p k,
                          lookup (pendingSettings s) k]"
proof (cases "\<exists>raw. p = GObj raw")
  case False
  then have np: "\<forall>raw. p \<noteq> GObj raw" by simp
  have "decoded_Capabilities p = None"
    using np by (cases p) (simp_all add: decoded_Capabilities_def)
  moreover have "bare_key p k = None" "params_settings p k = None"
    using np by (cases p; simp add: bare_key_def params_settings_def)+
  ultimately show ?thesis
    by (simp add: initialize_settings_not_object [OF np] capabilities_settings_def
          first_defined_single)
next
  case True
  then obtain raw where p: "p = GObj raw" by blast
  define s0 where "s0 = (case pendingSettings s of
                         Some pending \<Rightarrow> Some (Map.empty ++ pending)
                       | None \<Rightarrow> None)"
  define s1 where "s1 = (case decoded_Capabilities p of
                         Some caps \<Rightarrow>
                           (case caps ''settings'' of
                              Some (GObj clientCaps) \<Rightarrow> overlay s0 clientCaps
                            | _ \<Rightarrow> s0)
                       | None \<Rightarrow> s0)"
  define s2 where "s2 = (case raw ''settings'' of
                              Some (GObj settingsMap) \<Rightarrow> overlay s1 settingsMap
                            | _ \<Rightarrow> s1)"
  have l0: "lookup s0 k = lookup (pendingSettings s) k"
    by (simp add: s0_def lookup_def split: option.splits)
  have l1: "lookup s1 k =
      (case capabilities_settings p k of Some v \<Rightarrow> Some v | None \<Rightarrow> lookup s0 k)"
    by (simp add: s1_def capabilities_settings_def lookup_overlay
             split: option.splits gval.splits)
  have l2: "lookup s2 k =
      (case params_settings p k of Some v \<Rightarrow> Some v | None \<Rightarrow> lookup s1 k)"
    by (simp add: s2_def p params_settings_def lookup_overlay split: option.splits gval.splits)
  have s3: "initialize_settings s p =
      Some (set_if_exists raw ''client_secret''
             (set_if_exists raw ''client_id'' (case s2 of None \<Rightarrow> Map.empty | Some m \<Rightarrow> m)))"
    unfolding initialize_settings_def Let_def s2_def s1_def s0_def p
    by (simp only: gval.case)
  have l3: "lookup (initialize_settings s p) k =
      (case bare_key p k of Some v \<Rightarrow> Some v | None \<Rightarrow> lookup s2 k)"
    using assms
    unfolding s3
    by (auto simp: lookup_def lookup_set_if_exists bare_key_def p split: option.splits)
  show ?thesis
    by (simp add: l3 l2 l1 l0 first_defined_Cons split: option.splits)
qed

lemma LoadFromMCPSettings_Some:
  "LoadFromMCPSettings c (Some m) =
     (None, c\<lparr> ClientID := (case nonempty_string (m ''client_id'') of
                                Some v \<Rightarrow> v | None \<Rightarrow> ClientID c),
               ClientSecret := (case nonempty_string (m ''client_secret'') of
                                Some v \<Rightarrow> v | None \<Rightarrow> ClientSecret c) \<rparr>)"
  by (simp add: LoadFromMCPSettings_def Let_def split: option.splits)

lemma nonempty_string_config_value:
  "d = [] \<Longrightarrow> (case nonempty_string v of Some x \<Rightarrow> x | None \<Rightarrow> d) = config_value v"
  by (cases v rule: nonempty_string.cases) (simp_all add: config_value_def)

lemma Initialize_config:
  "server_config (fst (snd (Initialize s settings getenv henv))) =
     (case settings of
        None \<Rightarrow> LoadFromEnv (server_config s) getenv
      | Some m \<Rightarrow> snd (LoadFromMCPSettings (server_config s) settings))"
  by (cases "NewResoHelpToolWithAPI
        (NewClient (BaseURL (case LoadFromMCPSettings (server_config s) settings of
                   (Some err, c) \<Rightarrow> LoadFromEnv c getenv
                 | (None, c) \<Rightarrow> c))
           (NewOAuthClient (ClientID (case LoadFromMCPSettings (server_config s) settings of
                   (Some err, c) \<Rightarrow> LoadFromEnv c getenv
                 | (None, c) \<Rightarrow> c)) (ClientSecret (case LoadFromMCPSettings (server_config s) settings of
                   (Some err, c) \<Rightarrow> LoadFromEnv c getenv
                 | (None, c) \<Rightarrow> c)) (AuthURL (case LoadFromMCPSettings (server_config s) settings of
                   (Some err, c) \<Rightarrow> LoadFromEnv c getenv
                 | (None, c) \<Rightarrow> c)))) henv" rule: prod_cases3)
     (simp add: Initialize_def Let_def LoadFromMCPSettings_def split: option.splits)

lemma Initialize_ok: "fst (Initialize s settings getenv henv) = None"
  by (simp add: Initialize_def Let_def split: prod.splits)

lemma handleInitialize_eq:
  "handleInitialize s msg getenv henv =
     (result_response (ID msg) (RInitialize initialize_result),
      fst (snd (Initialize s (initialize_settings s (Params msg)) getenv henv)),
      snd (snd (Initialize s (initialize_settings s (Params msg)) getenv henv)))"
proof (cases "Initialize s (initialize_settings s (Params msg)) getenv henv" rule: prod_cases3)
  case (fields e s' fx)
  then have "e = None" using Initialize_ok [of s "initialize_settings s (Params msg)" getenv henv]
    by simp
  then show ?thesis using fields by (simp add: handleInitialize_def)
qed

lemma initialized_config:
  "server_config (initialized s msg getenv henv) =
     (case initialize_settings s (Params msg) of
        None \<Rightarrow> LoadFromEnv (server_config s) getenv
      | Some m \<Rightarrow> snd (LoadFromMCPSettings (server_config s) (Some m)))"
  by (simp add: initialized_def handleInitialize_eq Initialize_config split: option.splits)

lemma initialized_tools:
  "\<exists>t. resoTool (initialized s msg getenv henv) = Some t
       \<and> config t = server_config (initialized s msg getenv henv)
       \<and> apiClient (initialized s msg getenv henv) = Some (client t)"
  by (simp add: initialized_def handleInitialize_eq Initialize_def Let_def split: prod.splits)

lemma main_server_fields:
  "server_config (main_server idf sf getenv) = DefaultConfig"
  "lookup (pendingSettings (main_server idf sf getenv)) k = envSettings idf sf getenv k"
  "(pendingSettings (main_server idf sf getenv) = None) = (envSettings idf sf getenv = Map.empty)"
  by (simp_all add: main_server_def NewMCPServer_def Let_def lookup_def)

lemma text_source_None: "text_source v = None \<Longrightarrow> v = []"
  by (simp add: text_source_def split: if_splits)

lemma LoadFromEnv_no_credentials:
  assumes "getenv ''RESO_CLIENT_ID'' = []" and "getenv ''RESO_CLIENT_SECRET'' = []"
  shows "LoadFromEnv c getenv =
     c\<lparr> AuthURL := (if getenv ''RESO_AUTH_URL'' \<noteq> [] then getenv ''RESO_AUTH_URL'' else AuthURL c),
        BaseURL := (if getenv ''RESO_BASE_URL'' \<noteq> [] then getenv ''RESO_BASE_URL'' else BaseURL c) \<rparr>"
  using assms by (simp add: LoadFromEnv_def Let_def)

lemma empty_envSettings:
  assumes "envSettings idf sf getenv = Map.empty"
  shows "getenv ''RESO_CLIENT_ID'' = []" and "getenv ''RESO_CLIENT_SECRET'' = []"
proof -
  have "envSettings idf sf getenv ''client_id'' = None"
    "envSettings idf sf getenv ''client_secret'' = None"
    using assms by simp_all
  then have a: "first_defined [text_source idf, text_source (getenv ''CLIENT_ID''),
                    text_source (getenv ''RESO_CLIENT_ID''),
                    text_source (getenv ''MCP_RESO_CLIENT_ID'')] = None"
    and b: "first_defined [text_source sf, text_source (getenv ''CLIENT_SECRET''),
                    text_source (getenv ''RESO_CLIENT_SECRET''),
                    text_source (getenv ''MCP_RESO_CLIENT_SECRET'')] = None"
    by (simp_all only: envSettings_client_id envSettings_client_secret)
  have "text_source (getenv ''RESO_CLIENT_ID'') = None"
    by (rule first_defined_None [OF a]) simp
  then show "getenv ''RESO_CLIENT_ID'' = []" by (rule text_source_None)
  have "text_source (getenv ''RESO_CLIENT_SECRET'') = None"
    by (rule first_defined_None [OF b]) simp
  then show "getenv ''RESO_CLIENT_SECRET'' = []" by (rule text_source_None)
qed

lemma initialized_pending:
  "pendingSettings (initialized s msg getenv henv) = pendingSettings s"
  by (simp add: initialized_def handleInitialize_eq Initialize_def Let_def split: prod.splits)

lemma handleToolsCall_keeps:
  "pendingSettings (fst (snd (handleToolsCall oor r hlp s call io))) = pendingSettings s"
  "server_config (fst (snd (handleToolsCall oor r hlp s call io))) = server_config s"
  by (simp_all add: handleToolsCall_def split: option.splits prod.splits)

lemma started_lookup:
  assumes "pendingSettings s = pendingSettings (main_server idf sf getenv)"
  shows "lookup (pendingSettings s) k = envSettings idf sf getenv k"
  by (simp only: assms main_server_fields)

lemma resolved_client_id_lookup:
  assumes "pendingSettings s = pendingSettings (main_server idf sf getenv)"
  shows "resolved_client_id idf getenv p = lookup (initialize_settings s p) ''client_id''"
  by (simp add: resolved_client_id_def initialize_settings_lookup started_lookup [OF assms]
        envSettings_client_id first_defined_Cons split: option.splits)

lemma resolved_client_secret_lookup:
  assumes "pendingSettings s = pendingSettings (main_server idf sf getenv)"
  shows "resolved_client_secret sf getenv p = lookup (initialize_settings s p) ''client_secret''"
  by (simp add: resolved_client_secret_def initialize_settings_lookup started_lookup [OF assms]
        envSettings_client_secret first_defined_Cons split: option.splits)

lemma initialized_credentials:
  assumes "pendingSettings s = pendingSettings (main_server idf sf getenv)"
  shows "ClientID (server_config (initialized s msg getenv henv))
           = (case nonempty_string (resolved_client_id idf getenv (Params msg)) of
                Some v \<Rightarrow> v | None \<Rightarrow> ClientID (server_config s))"
    and "ClientSecret (server_config (initialized s msg getenv henv))
           = (case nonempty_string (resolved_client_secret sf getenv (Params msg)) of
                Some v \<Rightarrow> v | None \<Rightarrow> ClientSecret (server_config s))"
proof -
  note rid = resolved_client_id_lookup [OF assms, of "Params msg"]
  note rsec = resolved_client_secret_lookup [OF assms, of "Params msg"]
  have "ClientID (server_config (initialized s msg getenv henv))
           = (case nonempty_string (resolved_client_id idf getenv (Params msg)) of
                Some v \<Rightarrow> v | None \<Rightarrow> ClientID (server_config s))
      \<and> ClientSecret (server_config (initialized s msg getenv henv))
           = (case nonempty_string (resolved_client_secret sf getenv (Params msg)) of
                Some v \<Rightarrow> v | None \<Rightarrow> ClientSecret (server_config s))"
  proof (cases "initialize_settings s (Params msg)")
    case None
    have np: "\<forall>raw. Params msg \<noteq> GObj raw"
    proof (intro allI notI)
      fix raw
      assume "Params msg = GObj raw"
      then show False using initialize_settings_object [of s raw] None by simp
    qed
    have "pendingSettings s = None"
      using initialize_settings_not_object [OF np, of s] None by simp
    then have "envSettings idf sf getenv = Map.empty"
      using assms main_server_fields(3) [of idf sf getenv] by simp
    note e = empty_envSettings [OF this]
    show ?thesis
      using None
      by (simp add: rid rsec lookup_def initialized_config LoadFromEnv_no_credentials [OF e])
  next
    case (Some m)
    then show ?thesis
      by (simp add: rid rsec lookup_def initialized_config LoadFromMCPSettings_Some)
  qed
  then show "ClientID (server_config (initialized s msg getenv henv))
           = (case nonempty_string (resolved_client_id idf getenv (Params msg)) of
                Some v \<Rightarrow> v | None \<Rightarrow> ClientID (server_config s))"
    and "ClientSecret (server_config (initialized s msg getenv henv))
           = (case nonempty_string (resolved_client_secret sf getenv (Params msg)) of
                Some v \<Rightarrow> v | None \<Rightarrow> ClientSecret (server_config s))"
    by simp_all
qed

lemma merged_config_credentials:
  "ClientID (merged_config idf sf getenv msg henv)
     = config_value (resolved_client_id idf getenv (Params msg))"
  "ClientSecret (merged_config idf sf getenv msg henv)
     = config_value (resolved_client_secret sf getenv (Params msg))"
  unfolding merged_config_def
  by (simp_all add: initialized_credentials [OF refl] main_server_fields(1)
        nonempty_string_config_value DefaultConfig_def)

lemma GetToken_static:
  "clientID (fst (snd (GetToken c io))) = clientID c"
  "clientSecret (fst (snd (GetToken c io))) = clientSecret c"
  "authURL (fst (snd (GetToken c io))) = authURL c"
  by (simp_all add: GetToken_def refreshToken_def Let_def
        split: option.splits auth_reply.splits sum.splits)

lemma GetMetadata_static:
  "baseURL (fst (snd (GetMetadata c io))) = baseURL c"
  "clientID (oauthClient (fst (snd (GetMetadata c io)))) = clientID (oauthClient c)"
  "clientSecret (oauthClient (fst (snd (GetMetadata c io)))) = clientSecret (oauthClient c)"
  "authURL (oauthClient (fst (snd (GetMetadata c io)))) = authURL (oauthClient c)"
proof -
  obtain res oc fx where g: "GetToken (oauthClient c) (meta_auth io) = (res, oc, fx)"
    by (cases "GetToken (oauthClient c) (meta_auth io)" rule: prod_cases3)
  have oc: "clientID oc = clientID (oauthClient c)" "clientSecret oc = clientSecret (oauthClient c)"
    "authURL oc = authURL (oauthClient c)"
    using GetToken_static [of "oauthClient c" "meta_auth io"] by (simp_all add: g)
  show "baseURL (fst (snd (GetMetadata c io))) = baseURL c"
    "clientID (oauthClient (fst (snd (GetMetadata c io)))) = clientID (oauthClient c)"
    "clientSecret (oauthClient (fst (snd (GetMetadata c io)))) = clientSecret (oauthClient c)"
    "authURL (oauthClient (fst (snd (GetMetadata c io)))) = authURL (oauthClient c)"
    by (simp_all add: GetMetadata_def g oc Let_def split: sum.splits metadata_reply.splits)
qed

lemma NewResoHelpToolWithAPI_static:
  "baseURL (fst (snd (NewResoHelpToolWithAPI c env))) = baseURL c"
  "clientID (oauthClient (fst (snd (NewResoHelpToolWithAPI c env)))) = clientID (oauthClient c)"
  "clientSecret (oauthClient (fst (snd (NewResoHelpToolWithAPI c env))))
     = clientSecret (oauthClient c)"
  "authURL (oauthClient (fst (snd (NewResoHelpToolWithAPI c env)))) = authURL (oauthClient c)"
proof -
  obtain res c' fx where g: "GetMetadata c (metadata env) = (res, c', fx)"
    by (cases "GetMetadata c (metadata env)" rule: prod_cases3)
  have c': "baseURL c' = baseURL c" "clientID (oauthClient c') = clientID (oauthClient c)"
    "clientSecret (oauthClient c') = clientSecret (oauthClient c)"
    "authURL (oauthClient c') = authURL (oauthClient c)"
    using GetMetadata_static [of c "metadata env"] by (simp_all add: g)
  show "baseURL (fst (snd (NewResoHelpToolWithAPI c env))) = baseURL c"
    "clientID (oauthClient (fst (snd (NewResoHelpToolWithAPI c env)))) = clientID (oauthClient c)"
    "clientSecret (oauthClient (fst (snd (NewResoHelpToolWithAPI c env))))
       = clientSecret (oauthClient c)"
    "authURL (oauthClient (fst (snd (NewResoHelpToolWithAPI c env)))) = authURL (oauthClient c)"
    by (simp_all add: NewResoHelpToolWithAPI_def g c' split: sum.splits)
qed

lemma initialized_client:
  "\<exists>t. resoTool (initialized s msg getenv henv) = Some t
       \<and> config t = server_config (initialized s msg getenv henv)
       \<and> apiClient (initialized s msg getenv henv) = Some (client t)
       \<and> clientID (oauthClient (client t)) = ClientID (server_config (initialized s msg getenv henv))
       \<and> clientSecret (oauthClient (client t))
           = ClientSecret (server_config (initialized s msg getenv henv))"
proof -
  define cfg where "cfg = (case LoadFromMCPSettings (server_config s)
                                  (initialize_settings s (Params msg)) of
                             (Some err, c) \<Rightarrow> LoadFromEnv c getenv
                           | (None, c) \<Rightarrow> c)"
  define api where "api = NewClient (BaseURL cfg)
                            (NewOAuthClient (ClientID cfg) (ClientSecret cfg) (AuthURL cfg))"
  obtain hlp api' fx where n: "NewResoHelpToolWithAPI api henv = (hlp, api', fx)"
    by (cases "NewResoHelpToolWithAPI api henv" rule: prod_cases3)
  have "clientID (oauthClient api') = clientID (oauthClient api)"
    "clientSecret (oauthClient api') = clientSecret (oauthClient api)"
    using NewResoHelpToolWithAPI_static(2,3) [of api henv] by (simp_all add: n)
  then have st: "clientID (oauthClient api') = ClientID cfg"
    "clientSecret (oauthClient api') = ClientSecret cfg"
    by (simp_all add: api_def NewClient_def NewOAuthClient_def)
  have "initialized s msg getenv henv
      = s\<lparr> server_config := cfg, apiClient := Some api',
           resoTool := Some \<lparr> client = api', config = cfg \<rparr>, helpTool := Some hlp \<rparr>"
    using n unfolding api_def cfg_def
    by (simp add: initialized_def handleInitialize_eq Initialize_def Let_def)
  then show ?thesis using st by simp
qed

lemma Execute_no_credentials:
  "ClientID (config t) = [] \<or> ClientSecret (config t) = [] \<Longrightarrow>
   Execute oor r t args io
     = (\<lparr> Content =
            [\<lparr> Type = ''text'',
               Text = ''Configuration error: ''
                 @ (if ClientID (config t) = []
                    then ''client_id is required - please configure in MCP settings''
                    else ''client_secret is required - please configure in MCP settings'') \<rparr>],
          IsError = True \<rparr>, t, [])"
  by (auto simp: Execute_def ValidateCredentials_def error_result_def)

lemma Execute_parse_error:
  "ClientID (config t) \<noteq> [] \<Longrightarrow> ClientSecret (config t) \<noteq> []
   \<Longrightarrow> parseArguments oor args = Inl err
   \<Longrightarrow> Execute oor r t args io
     = (\<lparr> Content = [\<lparr> Type = ''text'', Text = ''Error parsing arguments: '' @ message err \<rparr>],
          IsError = True \<rparr>, t, [])"
  by (simp add: Execute_def ValidateCredentials_def error_result_def)

lemma handleToolsCall_no_credentials:
  assumes "resoTool s = Some t" and "apiClient s = Some (client t)"
    and "ClientID (config t) = [] \<or> ClientSecret (config t) = []"
    and "decode_CallToolParams (Params call) = Some (''reso_query'', a)"
  shows "handleToolsCall oor r hlp s call io =
     (\<lparr> JSONRPC = ''2.0'', ID = ID call, Method = [], Params = GNil,
        Result = Some (RCallTool
          \<lparr> Content =
              [\<lparr> Type = ''text'',
                 Text = ''Configuration error: ''
                   @ (if ClientID (config t) = []
                      then ''client_id is required - please configure in MCP settings''
                      else ''client_secret is required - please configure in MCP settings'') \<rparr>],
            IsError = True \<rparr>),
        Error = None \<rparr>,
      s, [])"
proof -
  have "s\<lparr> apiClient := Some (client t), resoTool := Some t \<rparr> = s"
    using assms(1,2) by simp
  then show ?thesis
    using assms(1,4) Execute_no_credentials [OF assms(3), of oor r a io]
    by (simp add: handleToolsCall_def result_response_def)
qed

lemma resolved_without_sources:
  "resolved_client_id [] empty_env GNil = None"
  "resolved_client_secret [] empty_env GNil = None"
  by (simp_all add: resolved_client_id_def resolved_client_secret_def bare_key_def
        params_settings_def capabilities_settings_def decoded_Capabilities_def
        text_source_def empty_env_def)

lemma example_initialized_no_id:
  "ClientID (server_config (initialized (main_server [] [] empty_env) (initialize_message GNil)
                              empty_env example_help_env)) = []"
  using merged_config_credentials(1) [of "[]" "[]" empty_env "initialize_message GNil" example_help_env]
  by (simp add: merged_config_def initialize_message_def resolved_without_sources
        config_value_def)

section \<open>Claims about initialize\<close>

text \<open>
  C1, as the specification states it, fails on the code: with \<open>CLIENT_ID\<close> and
  \<open>RESO_CLIENT_ID\<close> both set and no other source, the merged client id is the value
  of the generic variable, not that of the prefixed one.
\<close>

theorem generic_env_beats_prefixed_counterexample:
  "example_env ''CLIENT_ID'' = ''generic-id''
   \<and> example_env ''RESO_CLIENT_ID'' = ''reso-id''
   \<and> ClientID (merged_config [] [] example_env (initialize_message GNil) example_help_env)
       = ''generic-id''"
  by (simp add: merged_config_credentials resolved_client_id_def bare_key_def
        params_settings_def capabilities_settings_def decoded_Capabilities_def text_source_def
        example_env_def initialize_message_def config_value_def)

text \<open>
  C1, amended. Let the server be in any state it reaches after \<open>main\<close> has stored the
  settings of the command line and the environment; \<open>initialize\<close> and \<open>tools/call\<close>
  leave these stored settings as they are, and \<open>tools/call\<close> leaves the configuration
  as it is. For the client id and for the client secret, an \<open>initialize\<close> message
  takes the value of the first source that defines the key, in this order: the bare
  key of the parameters, their \<open>settings\<close> object, the \<open>settings\<close> object of their
  capabilities, the command-line flag, the generic environment variable, the \<open>RESO_\<close>
  variable, the \<open>MCP_RESO_\<close> variable. A source without the key leaves the choice to
  the next one. When that value is a non-empty string it becomes the configured
  value; otherwise, and when no source defines the key, the configuration keeps the
  value it had, which is empty before the first \<open>initialize\<close>. The query tool reads
  this configuration and the OAuth client is built from its client id and secret. The
  capabilities are the members of the parameters whose key is \<open>capabilities\<close> in any
  letter case; when there is one such member and it is an object, its \<open>settings\<close>
  object is the one consulted.
\<close>

theorem merged_config_precedence:
  assumes "pendingSettings s = pendingSettings (main_server id_flag secret_flag getenv)"
  shows
    "ClientID (server_config (initialized s msg getenv henv))
       = (case nonempty_string (resolved_client_id id_flag getenv (Params msg)) of
            Some v \<Rightarrow> v | None \<Rightarrow> ClientID (server_config s))
     \<and> ClientSecret (server_config (initialized s msg getenv henv))
       = (case nonempty_string (resolved_client_secret secret_flag getenv (Params msg)) of
            Some v \<Rightarrow> v | None \<Rightarrow> ClientSecret (server_config s))
     \<and> pendingSettings (initialized s msg getenv henv) = pendingSettings s
     \<and> pendingSettings (fst (snd (handleToolsCall oor r hlp s call io))) = pendingSettings s
     \<and> server_config (fst (snd (handleToolsCall oor r hlp s call io))) = server_config s
     \<and> ClientID (merged_config id_flag secret_flag getenv msg henv)
       = config_value (resolved_client_id id_flag getenv (Params msg))
     \<and> ClientSecret (merged_config id_flag secret_flag getenv msg henv)
       = config_value (resolved_client_secret secret_flag getenv (Params msg))
     \<and> (\<exists>t. resoTool (initialized s msg getenv henv) = Some t
            \<and> config t = server_config (initialized s msg getenv henv)
            \<and> apiClient (initialized s msg getenv henv) = Some (client t)
            \<and> clientID (oauthClient (client t))
                = ClientID (server_config (initialized s msg getenv henv))
            \<and> clientSecret (oauthClient (client t))
                = ClientSecret (server_config (initialized s msg getenv henv)))
     \<and> (\<forall>raw key caps k.
           Params msg = GObj raw \<and> foldName key = foldName ''capabilities''
           \<and> raw key = Some (GObj caps)
           \<and> (\<forall>k'. foldName k' = foldName ''capabilities'' \<longrightarrow> k' \<noteq> key \<longrightarrow> raw k' = None)
           \<longrightarrow> capabilities_settings (Params msg) k
                 = (case caps ''settings'' of Some (GObj clientCaps) \<Rightarrow> clientCaps k | _ \<Rightarrow> None))"
proof (intro conjI)
  show "ClientID (server_config (initialized s msg getenv henv))
       = (case nonempty_string (resolved_client_id id_flag getenv (Params msg)) of
            Some v \<Rightarrow> v | None \<Rightarrow> ClientID (server_config s))"
    using assms by (rule initialized_credentials(1))
  show "ClientSecret (server_config (initialized s msg getenv henv))
       = (case nonempty_string (resolved_client_secret secret_flag getenv (Params msg)) of
            Some v \<Rightarrow> v | None \<Rightarrow> ClientSecret (server_config s))"
    using assms by (rule initialized_credentials(2))
  show "pendingSettings (initialized s msg getenv henv) = pendingSettings s"
    by (rule initialized_pending)
  show "pendingSettings (fst (snd (handleToolsCall oor r hlp s call io))) = pendingSettings s"
    by (rule handleToolsCall_keeps(1))
  show "server_config (fst (snd (handleToolsCall oor r hlp s call io))) = server_config s"
    by (rule handleToolsCall_keeps(2))
  show "ClientID (merged_config id_flag secret_flag getenv msg henv)
       = config_value (resolved_client_id id_flag getenv (Params msg))"
    by (rule merged_config_credentials(1))
  show "ClientSecret (merged_config id_flag secret_flag getenv msg henv)
       = config_value (resolved_client_secret secret_flag getenv (Params msg))"
    by (rule merged_config_credentials(2))
  show "\<exists>t. resoTool (initialized s msg getenv henv) = Some t
            \<and> config t = server_config (initialized s msg getenv henv)
            \<and> apiClient (initialized s msg getenv henv) = Some (client t)
            \<and> clientID (oauthClient (client t))
                = ClientID (server_config (initialized s msg getenv henv))
            \<and> clientSecret (oauthClient (client t))
                = ClientSecret (server_config (initialized s msg getenv henv))"
    by (rule initialized_client)
  show "\<forall>raw key caps k.
           Params msg = GObj raw \<and> foldName key = foldName ''capabilities''
           \<and> raw key = Some (GObj caps)
           \<and> (\<forall>k'. foldName k' = foldName ''capabilities'' \<longrightarrow> k' \<noteq> key \<longrightarrow> raw k' = None)
           \<longrightarrow> capabilities_settings (Params msg) k
                 = (case caps ''settings'' of Some (GObj clientCaps) \<Rightarrow> clientCaps k | _ \<Rightarrow> None)"
  proof (intro allI impI, elim conjE)
    fix raw key caps k
    assume p: "Params msg = GObj raw" and f: "foldName key = foldName ''capabilities''"
      and v: "raw key = Some (GObj caps)"
      and o: "\<forall>k'. foldName k' = foldName ''capabilities'' \<longrightarrow> k' \<noteq> key \<longrightarrow> raw k' = None"
    have "decoded_Capabilities (GObj raw) = Some caps"
      by (simp add: decoded_Capabilities_single [OF f o] v)
    then show "capabilities_settings (Params msg) k
                 = (case caps ''settings'' of Some (GObj clientCaps) \<Rightarrow> clientCaps k | _ \<Rightarrow> None)"
      by (simp add: capabilities_settings_def p)
  qed
qed

theorem merged_config_precedence_witness:
  "ClientID (server_config (initialized (main_server ''flag-id'' [] example_env)
       (initialize_message
          (GObj [''Capabilities'' \<mapsto>
             GObj [''settings'' \<mapsto> GObj [''client_secret'' \<mapsto> GStr ''cap-secret'']]]))
       example_env example_help_env)) = ''flag-id''
   \<and> ClientSecret (server_config (initialized (main_server ''flag-id'' [] example_env)
       (initialize_message
          (GObj [''Capabilities'' \<mapsto>
             GObj [''settings'' \<mapsto> GObj [''client_secret'' \<mapsto> GStr ''cap-secret'']]]))
       example_env example_help_env)) = ''cap-secret''
   \<and> ClientID (server_config (initialized
       (initialized (main_server [] [] empty_env)
          (initialize_message (GObj [''client_id'' \<mapsto> GStr ''first-id'']))
          empty_env example_help_env)
       (initialize_message GNil) empty_env example_help_env)) = ''first-id''"
proof -
  let ?settings = "[''settings'' \<mapsto> GObj [''client_secret'' \<mapsto> GStr ''cap-secret'']]"
  let ?raw = "[''Capabilities'' \<mapsto> GObj ?settings]"
  let ?msg = "initialize_message (GObj ?raw)"
  note A = merged_config_precedence
      [where s = "main_server ''flag-id'' [] example_env" and id_flag = "''flag-id''"
         and secret_flag = "[]" and getenv = example_env and msg = ?msg
         and henv = example_help_env, OF refl]
  have p: "Params ?msg = GObj ?raw" by (simp add: initialize_message_def)
  have f: "foldName ''Capabilities'' = foldName ''capabilities''"
    by (simp add: foldName_eval)
  have caps: "capabilities_settings (Params ?msg) k
      = (case ?settings ''settings'' of Some (GObj clientCaps) \<Rightarrow> clientCaps k | _ \<Rightarrow> None)" for k
    using A [THEN conjunct2, THEN conjunct2, THEN conjunct2, THEN conjunct2, THEN conjunct2,
        THEN conjunct2, THEN conjunct2, THEN conjunct2, rule_format,
        of ?raw "''Capabilities''" ?settings k] p f
    by simp
  have rA: "resolved_client_id ''flag-id'' example_env (Params ?msg) = Some (GStr ''flag-id'')"
    "resolved_client_secret [] example_env (Params ?msg) = Some (GStr ''cap-secret'')"
    by (simp_all add: resolved_client_id_def resolved_client_secret_def caps text_source_def)
       (simp_all add: p bare_key_def params_settings_def)
  have first: "ClientID (server_config (initialized (main_server ''flag-id'' [] example_env)
        ?msg example_env example_help_env)) = ''flag-id''"
    and second: "ClientSecret (server_config (initialized (main_server ''flag-id'' [] example_env)
        ?msg example_env example_help_env)) = ''cap-secret''"
    using A [THEN conjunct1] A [THEN conjunct2, THEN conjunct1] by (simp_all add: rA)
  let ?msg1 = "initialize_message (GObj [''client_id'' \<mapsto> GStr ''first-id''])"
  let ?s1 = "initialized (main_server [] [] empty_env) ?msg1 empty_env example_help_env"
  note B = merged_config_precedence
      [where s = "main_server [] [] empty_env" and id_flag = "[]" and secret_flag = "[]"
         and getenv = empty_env and msg = ?msg1 and henv = example_help_env, OF refl]
  have rB: "resolved_client_id [] empty_env (Params ?msg1) = Some (GStr ''first-id'')"
    by (simp add: resolved_client_id_def bare_key_def initialize_message_def)
  have id1: "ClientID (server_config ?s1) = ''first-id''"
    using B [THEN conjunct1] by (simp add: rB)
  have pending: "pendingSettings ?s1 = pendingSettings (main_server [] [] empty_env)"
    using B [THEN conjunct2, THEN conjunct2, THEN conjunct1] .
  have none: "Params (initialize_message GNil) = GNil" by (simp add: initialize_message_def)
  note C = merged_config_precedence
      [where s = ?s1 and id_flag = "[]" and secret_flag = "[]" and getenv = empty_env
         and msg = "initialize_message GNil" and henv = example_help_env, OF pending]
  have third: "ClientID (server_config (initialized ?s1 (initialize_message GNil) empty_env
        example_help_env)) = ''first-id''"
    using C [THEN conjunct1]
    by (simp add: none resolved_without_sources id1)
  show ?thesis
    using first second third by simp
qed

text \<open>
  C9. Whatever the server state, the message and the environment, \<open>handleInitialize\<close>
  answers with the initialize result and no error: the branch with code -32603 is never
  taken. Afterwards the query tool exists and reads the server's configuration. When
  the client id or the client secret of that configuration is empty, \<open>Execute\<close>
  returns the tool error "Configuration error: ..." that names the missing credential,
  with the tool unchanged and nothing sent, whatever the arguments; when both are
  there, arguments that do not parse give the parsing error instead. A \<open>tools/call\<close>
  of \<open>reso_query\<close> on a server without credentials answers with that tool error as
  its result, not with a protocol error, and sends nothing. Such a call is one whose
  parameters have the string \<open>reso_query\<close> under the one key that spells \<open>name\<close>
  and an object under the one key that spells \<open>arguments\<close>, in any letter case.
\<close>

theorem initialize_always_succeeds:
  "fst (handleInitialize s msg getenv henv)
     = \<lparr> JSONRPC = ''2.0'', ID = ID msg, Method = [], Params = GNil,
         Result = Some (RInitialize initialize_result), Error = None \<rparr>
   \<and> (\<exists>t. resoTool (initialized s msg getenv henv) = Some t
          \<and> config t = server_config (initialized s msg getenv henv)
          \<and> apiClient (initialized s msg getenv henv) = Some (client t))
   \<and> (ClientID (config t) = [] \<or> ClientSecret (config t) = [] \<longrightarrow>
         Execute oor r t args io
           = (\<lparr> Content =
                  [\<lparr> Type = ''text'',
                     Text = ''Configuration error: ''
                       @ (if ClientID (config t) = []
                          then ''client_id is required - please configure in MCP settings''
                          else ''client_secret is required - please configure in MCP settings'') \<rparr>],
                IsError = True \<rparr>, t, []))
   \<and> (ClientID (config t) \<noteq> [] \<and> ClientSecret (config t) \<noteq> []
        \<and> parseArguments oor args = Inl err \<longrightarrow>
         Execute oor r t args io
           = (\<lparr> Content =
                  [\<lparr> Type = ''text'', Text = ''Error parsing arguments: '' @ message err \<rparr>],
                IsError = True \<rparr>, t, []))
   \<and> ((ClientID (server_config (initialized s msg getenv henv)) = []
          \<or> ClientSecret (server_config (initialized s msg getenv henv)) = [])
        \<and> decode_CallToolParams (Params call) = Some (''reso_query'', a) \<longrightarrow>
         handleToolsCall oor r hlp (initialized s msg getenv henv) call io
           = (\<lparr> JSONRPC = ''2.0'', ID = ID call, Method = [], Params = GNil,
                Result = Some (RCallTool
                  \<lparr> Content =
                      [\<lparr> Type = ''text'',
                         Text = ''Configuration error: ''
                           @ (if ClientID (server_config (initialized s msg getenv henv)) = []
                              then ''client_id is required - please configure in MCP settings''
                              else ''client_secret is required - please configure in MCP settings'') \<rparr>],
                    IsError = True \<rparr>),
                Error = None \<rparr>,
              initialized s msg getenv henv, []))
   \<and> (\<forall>m kn ka.
         Params call = GObj m
         \<and> foldName kn = foldName ''name'' \<and> m kn = Some (GStr ''reso_query'')
         \<and> (\<forall>k. foldName k = foldName ''name'' \<longrightarrow> k \<noteq> kn \<longrightarrow> m k = None)
         \<and> foldName ka = foldName ''arguments'' \<and> m ka = Some (GObj a)
         \<and> (\<forall>k. foldName k = foldName ''arguments'' \<longrightarrow> k \<noteq> ka \<longrightarrow> m k = None)
         \<longrightarrow> decode_CallToolParams (Params call) = Some (''reso_query'', a))"
proof (intro conjI impI allI)
  show "fst (handleInitialize s msg getenv henv)
     = \<lparr> JSONRPC = ''2.0'', ID = ID msg, Method = [], Params = GNil,
         Result = Some (RInitialize initialize_result), Error = None \<rparr>"
    by (simp add: handleInitialize_eq result_response_def)
  show "\<exists>t. resoTool (initialized s msg getenv henv) = Some t
          \<and> config t = server_config (initialized s msg getenv henv)
          \<and> apiClient (initialized s msg getenv henv) = Some (client t)"
    by (rule initialized_tools)
next
  assume "ClientID (config t) = [] \<or> ClientSecret (config t) = []"
  then show "Execute oor r t args io
           = (\<lparr> Content =
                  [\<lparr> Type = ''text'',
                     Text = ''Configuration error: ''
                       @ (if ClientID (config t) = []
                          then ''client_id is required - please configure in MCP settings''
                          else ''client_secret is required - please configure in MCP settings'') \<rparr>],
                IsError = True \<rparr>, t, [])"
    by (rule Execute_no_credentials)
next
  assume "ClientID (config t) \<noteq> [] \<and> ClientSecret (config t) \<noteq> []
        \<and> parseArguments oor args = Inl err"
  then show "Execute oor r t args io
           = (\<lparr> Content =
                  [\<lparr> Type = ''text'', Text = ''Error parsing arguments: '' @ message err \<rparr>],
                IsError = True \<rparr>, t, [])"
    by (simp add: Execute_parse_error)
next
  assume a: "(ClientID (server_config (initialized s msg getenv henv)) = []
          \<or> ClientSecret (server_config (initialized s msg getenv henv)) = [])
        \<and> decode_CallToolParams (Params call) = Some (''reso_query'', a)"
  obtain t' where t': "resoTool (initialized s msg getenv henv) = Some t'"
    and cfg: "config t' = server_config (initialized s msg getenv henv)"
    and api: "apiClient (initialized s msg getenv henv) = Some (client t')"
    using initialized_tools [of s msg getenv henv] by (elim exE conjE)
  have absent: "ClientID (config t') = [] \<or> ClientSecret (config t') = []"
    using a cfg by simp
  have d: "decode_CallToolParams (Params call) = Some (''reso_query'', a)"
    using a by simp
  show "handleToolsCall oor r hlp (initialized s msg getenv henv) call io
           = (\<lparr> JSONRPC = ''2.0'', ID = ID call, Method = [], Params = GNil,
                Result = Some (RCallTool
                  \<lparr> Content =
                      [\<lparr> Type = ''text'',
                         Text = ''Configuration error: ''
                           @ (if ClientID (server_config (initialized s msg getenv henv)) = []
                              then ''client_id is required - please configure in MCP settings''
                              else ''client_secret is required - please configure in MCP settings'') \<rparr>],
                    IsError = True \<rparr>),
                Error = None \<rparr>,
              initialized s msg getenv henv, [])"
    using handleToolsCall_no_credentials [OF t' api absent d, of oor r hlp io] cfg by simp
next
  fix m kn ka
  assume h: "Params call = GObj m
         \<and> foldName kn = foldName ''name'' \<and> m kn = Some (GStr ''reso_query'')
         \<and> (\<forall>k. foldName k = foldName ''name'' \<longrightarrow> k \<noteq> kn \<longrightarrow> m k = None)
         \<and> foldName ka = foldName ''arguments'' \<and> m ka = Some (GObj a)
         \<and> (\<forall>k. foldName k = foldName ''arguments'' \<longrightarrow> k \<noteq> ka \<longrightarrow> m k = None)"
  then have "decode_CallToolParams (GObj m) = Some (''reso_query'', a)"
    by (intro decode_CallToolParams_single [of kn m ka]) simp_all
  then show "decode_CallToolParams (Params call) = Some (''reso_query'', a)"
    using h by simp
qed

theorem initialize_always_succeeds_witness:
  "fst (handleInitialize (main_server [] [] empty_env) (initialize_message GNil)
          empty_env example_help_env)
     = \<lparr> JSONRPC = ''2.0'', ID = GFloat 1 0, Method = [], Params = GNil,
         Result = Some (RInitialize initialize_result), Error = None \<rparr>
   \<and> handleToolsCall amd64_out_of_range example_rendering example_help
        (initialized (main_server [] [] empty_env) (initialize_message GNil)
           empty_env example_help_env)
        (capital_call_message [''entity'' \<mapsto> GStr ''Property'']) example_io
       = (\<lparr> JSONRPC = ''2.0'', ID = GFloat 2 0, Method = [], Params = GNil,
            Result = Some (RCallTool
              \<lparr> Content =
                  [\<lparr> Type = ''text'',
                     Text = ''Configuration error: client_id is required - please configure in MCP settings'' \<rparr>],
                IsError = True \<rparr>),
            Error = None \<rparr>,
          initialized (main_server [] [] empty_env) (initialize_message GNil)
            empty_env example_help_env, [])"
proof -
  let ?args = "[''entity'' \<mapsto> GStr ''Property'']"
  let ?m = "[''Name'' \<mapsto> GStr ''reso_query'', ''Arguments'' \<mapsto> GObj ?args]"
  let ?s = "initialized (main_server [] [] empty_env) (initialize_message GNil)
              empty_env example_help_env"
  note inst = initialize_always_succeeds
      [where s = "main_server [] [] empty_env" and msg = "initialize_message GNil"
         and getenv = empty_env and henv = example_help_env
         and call = "capital_call_message ?args" and a = ?args
         and oor = amd64_out_of_range and r = example_rendering and hlp = example_help
         and io = example_io and args = Map.empty
         and t = "\<lparr> client = example_client, config = DefaultConfig \<rparr>"]
  have p: "Params (capital_call_message ?args) = GObj ?m"
    and i: "ID (capital_call_message ?args) = GFloat 2 0"
    by (simp_all add: capital_call_message_def)
  have fn: "foldName ''Name'' = foldName ''name''"
    and fa: "foldName ''Arguments'' = foldName ''arguments''"
    by (simp_all add: foldName_eval)
  have only_name: "\<forall>k. foldName k = foldName ''name'' \<longrightarrow> k \<noteq> ''Name'' \<longrightarrow> ?m k = None"
    and only_arguments:
      "\<forall>k. foldName k = foldName ''arguments'' \<longrightarrow> k \<noteq> ''Arguments'' \<longrightarrow> ?m k = None"
    by (simp_all add: foldName_eval)
  have vals: "?m ''Name'' = Some (GStr ''reso_query'')" "?m ''Arguments'' = Some (GObj ?args)"
    by simp_all
  have d: "decode_CallToolParams (Params (capital_call_message ?args))
      = Some (''reso_query'', ?args)"
    by (rule inst [THEN conjunct2, THEN conjunct2, THEN conjunct2, THEN conjunct2,
          THEN conjunct2, rule_format, of ?m "''Name''" "''Arguments''"])
       (intro conjI p fn fa vals only_name only_arguments)
  have answer: "fst (handleInitialize (main_server [] [] empty_env) (initialize_message GNil)
          empty_env example_help_env)
     = \<lparr> JSONRPC = ''2.0'', ID = GFloat 1 0, Method = [], Params = GNil,
         Result = Some (RInitialize initialize_result), Error = None \<rparr>"
    using inst [THEN conjunct1] by (simp add: initialize_message_def)
  have absent: "ClientID (server_config ?s) = [] \<or> ClientSecret (server_config ?s) = []"
    by (simp add: example_initialized_no_id)
  have "handleToolsCall amd64_out_of_range example_rendering example_help ?s
            (capital_call_message ?args) example_io
      = (\<lparr> JSONRPC = ''2.0'', ID = ID (capital_call_message ?args), Method = [], Params = GNil,
           Result = Some (RCallTool
             \<lparr> Content =
                 [\<lparr> Type = ''text'',
                    Text = ''Configuration error: ''
                      @ (if ClientID (server_config ?s) = []
                         then ''client_id is required - please configure in MCP settings''
                         else ''client_secret is required - please configure in MCP settings'') \<rparr>],
               IsError = True \<rparr>),
           Error = None \<rparr>,
         ?s, [])"
    using inst [THEN conjunct2, THEN conjunct2, THEN conjunct2, THEN conjunct2, THEN conjunct1,
        rule_format, OF conjI [OF absent d]] .
  then show ?thesis
    using answer by (simp add: i example_initialized_no_id)
qed

section \<open>Concurrent callers\<close>

lemma run_lock_ok: "lock_ok s \<Longrightarrow> run s as = Some s' \<Longrightarrow> lock_ok s'"
proof (induction as arbitrary: s)
  case Nil
  then show ?case by simp
next
  case (Cons a as)
  then obtain s1 where s1: "exec s a = Some s1" and rest: "run s1 as = Some s'"
    by (auto split: option.splits)
  have "lock_ok s1"
  proof (cases a)
    case (Tick d)
    then show ?thesis using s1 Cons.prems(1)
      by (auto simp: exec_def lock_ok_def split: if_splits)
  next
    case (Read i)
    then show ?thesis using s1 Cons.prems(1)
      by (auto simp: exec_def lock_ok_def in_refresh_def nth_list_update
               split: if_splits option.splits)
  next
    case (Acquire i)
    then show ?thesis using s1 Cons.prems(1)
      by (auto simp: exec_def lock_ok_def in_refresh_def nth_list_update split: if_splits)
  next
    case (Complete i r)
    then show ?thesis using s1 Cons.prems(1)
      by (auto simp: exec_def lock_ok_def in_refresh_def nth_list_update
               split: if_splits pc.splits prod.splits)
  qed
  then show ?case using Cons.IH rest by blast
qed

lemma lock_ok_init: "lock_ok (callers_init n c t)"
  by (simp add: lock_ok_def callers_init_def in_refresh_def)

lemma lock_ok_exclusive:
  "lock_ok s \<Longrightarrow> i < length (pcs s) \<Longrightarrow> j < length (pcs s) \<Longrightarrow>
   in_refresh (pcs s ! i) \<Longrightarrow> in_refresh (pcs s ! j) \<Longrightarrow> i = j"
  by (auto simp: lock_ok_def)

lemma cached_token_later:
  "cached_token c t0 = None \<Longrightarrow> t0 \<le> t \<Longrightarrow> cached_token c t = None"
  by (auto simp: cached_token_def split: option.splits if_splits)

lemma exec_clock:
  "exec s a = Some s' \<Longrightarrow> clock s' = clock s + (case a of Tick d \<Rightarrow> d | _ \<Rightarrow> 0)"
  by (cases a) (auto simp: exec_def split: if_splits pc.splits prod.splits)

lemma exec_tick_positive: "exec s (Tick d) = Some s' \<Longrightarrow> 0 < d"
  by (auto simp: exec_def split: if_splits)

lemma elapsed_Cons: "elapsed (a # as) = (case a of Tick d \<Rightarrow> d | _ \<Rightarrow> 0) + elapsed as"
  by (simp add: elapsed_def)

lemma run_elapsed_nonneg: "run s as = Some s' \<Longrightarrow> 0 \<le> elapsed as"
proof (induction as arbitrary: s)
  case Nil
  then show ?case by (simp add: elapsed_def)
next
  case (Cons a as)
  then obtain s1 where s1: "exec s a = Some s1" and rest: "run s1 as = Some s'"
    by (auto split: option.splits)
  have "0 \<le> (case a of Tick d \<Rightarrow> d | _ \<Rightarrow> 0)"
    using s1 exec_tick_positive by (cases a) fastforce+
  then show ?case using Cons.IH [OF rest] by (simp add: elapsed_Cons)
qed

lemma run_clock: "run s as = Some s' \<Longrightarrow> clock s' = clock s + elapsed as"
proof (induction as arbitrary: s)
  case Nil
  then show ?case by (simp add: elapsed_def)
next
  case (Cons a as)
  then obtain s1 where s1: "exec s a = Some s1" and rest: "run s1 as = Some s'"
    by (auto split: option.splits)
  show ?case using Cons.IH [OF rest] exec_clock [OF s1] by (simp add: elapsed_Cons)
qed

lemma run_length: "run s as = Some s' \<Longrightarrow> length (pcs s') = length (pcs s)"
proof (induction as arbitrary: s)
  case Nil
  then show ?case by simp
next
  case (Cons a as)
  then obtain s1 where s1: "exec s a = Some s1" and rest: "run s1 as = Some s'"
    by (auto split: option.splits)
  have "length (pcs s1) = length (pcs s)"
    using s1 by (cases a) (auto simp: exec_def split: if_splits pc.splits prod.splits)
  then show ?case using Cons.IH [OF rest] by simp
qed

lemma refreshToken_lasting:
  assumes "cached_token c t = None" and "lasting_reply life r"
  shows "\<exists>tr. refreshToken c \<lparr> now_check = t, now_recheck = t, reply = r, now_store = now \<rparr>
           = (Inr (AccessToken tr),
              c\<lparr> token := Some tr, tokenExpiry := now + expiry_duration (ExpiresIn tr) \<rparr>,
              [AuthPost (authURL c) (clientID c) (clientSecret c)])
         \<and> life < expiry_duration (ExpiresIn tr)"
  using assms
  by (cases r) (auto simp: refreshToken_def lasting_reply_def Let_def split: sum.splits)

lemma refreshToken_hit:
  assumes "token c = Some tr" and "t < tokenExpiry c"
  shows "refreshToken c \<lparr> now_check = t, now_recheck = t, reply = r, now_store = now \<rparr>
           = (Inr (AccessToken tr), c, [])"
  using assms by (simp add: refreshToken_def cached_token_def)

lemma exec_single_flight:
  assumes fresh: "\<forall>t \<ge> t0. cached_token c0 t = None"
    and inv: "single_flight c0 t0 D s"
    and ex: "exec s a = Some s1"
    and time: "clock s1 \<le> D"
    and good: "case a of Complete i r \<Rightarrow> lasting_reply (D - t0) r | _ \<Rightarrow> True"
  shows "single_flight c0 t0 D s1"
proof (cases a)
  case (Tick d)
  then have s1: "s1 = s\<lparr> clock := clock s + d \<rparr>" and d: "0 < d"
    using ex by (auto simp: exec_def split: if_splits)
  show ?thesis
    using inv time d unfolding s1 single_flight_def lock_ok_def
    by (simp, fastforce)
next
  case (Read i)
  then have i: "i < length (pcs s)" "pcs s ! i = Start" "writer s = None"
    and s1: "s1 = s\<lparr> pcs := (pcs s)[i := (case cached_token (cache s) (clock s) of
                                             Some t \<Rightarrow> Done (Inr t)
                                           | None \<Rightarrow> WantLock)] \<rparr>"
    using ex by (auto simp: exec_def split: if_splits)
  from inv have base: "t0 \<le> clock s" "clock s \<le> D" "lock_ok s"
    and locked: "\<forall>j < length (pcs s). \<forall>t. pcs s ! j = Locked t \<longrightarrow> t0 \<le> t \<and> t \<le> clock s"
    by (simp_all add: single_flight_def)
  from inv consider
    (before) "cache s = c0" "posted s = []" "\<forall>j < length (pcs s). \<not> returned (pcs s ! j)"
    | (after) tr where "token (cache s) = Some tr" "D < tokenExpiry (cache s)"
        "posted s = [AuthPost (authURL c0) (clientID c0) (clientSecret c0)]"
        "\<forall>j < length (pcs s). \<forall>res. pcs s ! j = Done res \<longrightarrow> res = Inr (AccessToken tr)"
    by (auto simp: single_flight_def)
  then obtain p where s1': "s1 = s\<lparr> pcs := (pcs s)[i := p] \<rparr>"
    and p: "\<not> in_refresh p"
    and phase1: "(cache s = c0 \<and> posted s = []
           \<and> (\<forall>j < length (pcs s). \<not> returned ((pcs s)[i := p] ! j)))
         \<or> (\<exists>tr. token (cache s) = Some tr \<and> D < tokenExpiry (cache s)
                \<and> posted s = [AuthPost (authURL c0) (clientID c0) (clientSecret c0)]
                \<and> (\<forall>j < length (pcs s). \<forall>res. (pcs s)[i := p] ! j = Done res
                       \<longrightarrow> res = Inr (AccessToken tr)))"
  proof cases
    case before
    have miss: "cached_token (cache s) (clock s) = None"
      using fresh base(1) before(1) by simp
    have "s1 = s\<lparr> pcs := (pcs s)[i := WantLock] \<rparr>"
      using s1 miss by simp
    moreover have "\<not> in_refresh WantLock" by (simp add: in_refresh_def)
    moreover have "\<forall>j < length (pcs s). \<not> returned ((pcs s)[i := WantLock] ! j)"
      using before(3) i(1) by (auto simp: nth_list_update returned_def)
    ultimately show ?thesis using that [of WantLock] before(1,2) by blast
  next
    case after
    have hit: "cached_token (cache s) (clock s) = Some (AccessToken tr)"
      using after(1,2) base(2) by (simp add: cached_token_def)
    have "s1 = s\<lparr> pcs := (pcs s)[i := Done (Inr (AccessToken tr))] \<rparr>"
      using s1 hit by simp
    moreover have "\<not> in_refresh (Done (Inr (AccessToken tr)))" by (simp add: in_refresh_def)
    moreover have "\<forall>j < length (pcs s). \<forall>res.
        (pcs s)[i := Done (Inr (AccessToken tr))] ! j = Done res \<longrightarrow> res = Inr (AccessToken tr)"
      using after(4) i(1) by (auto simp: nth_list_update)
    ultimately show ?thesis
      using that [of "Done (Inr (AccessToken tr))"] after(1,2,3) by blast
  qed
  have lock: "lock_ok s1"
    using base(3) i p unfolding s1' lock_ok_def
    by (auto simp: in_refresh_def nth_list_update)
  have locked1: "\<forall>j < length (pcs s1). \<forall>t. pcs s1 ! j = Locked t \<longrightarrow> t0 \<le> t \<and> t \<le> clock s1"
    using locked i(1) p unfolding s1' by (auto simp: nth_list_update in_refresh_def)
  show ?thesis
    unfolding single_flight_def using lock locked1 phase1 base by (simp add: s1')
next
  case (Acquire i)
  then have i: "i < length (pcs s)" "pcs s ! i = WantLock" "writer s = None"
    and s1: "s1 = s\<lparr> writer := Some i, pcs := (pcs s)[i := Locked (clock s)] \<rparr>"
    using ex by (auto simp: exec_def split: if_splits)
  from inv have base: "t0 \<le> clock s" "clock s \<le> D" "lock_ok s"
    and locked: "\<forall>j < length (pcs s). \<forall>t. pcs s ! j = Locked t \<longrightarrow> t0 \<le> t \<and> t \<le> clock s"
    and phase: "(cache s = c0 \<and> posted s = [] \<and> (\<forall>j < length (pcs s). \<not> returned (pcs s ! j)))
         \<or> (\<exists>tr. token (cache s) = Some tr \<and> D < tokenExpiry (cache s)
                \<and> posted s = [AuthPost (authURL c0) (clientID c0) (clientSecret c0)]
                \<and> (\<forall>j < length (pcs s). \<forall>res. pcs s ! j = Done res
                       \<longrightarrow> res = Inr (AccessToken tr)))"
    by (simp_all add: single_flight_def)
  have lock: "lock_ok s1"
    using base(3) i unfolding s1 lock_ok_def
    by (auto simp: in_refresh_def nth_list_update)
  have locked1: "\<forall>j < length (pcs s1). \<forall>t. pcs s1 ! j = Locked t \<longrightarrow> t0 \<le> t \<and> t \<le> clock s1"
    using locked base(1) i(1) unfolding s1 by (auto simp: nth_list_update)
  have phase1: "(cache s1 = c0 \<and> posted s1 = [] \<and> (\<forall>j < length (pcs s1). \<not> returned (pcs s1 ! j)))
         \<or> (\<exists>tr. token (cache s1) = Some tr \<and> D < tokenExpiry (cache s1)
                \<and> posted s1 = [AuthPost (authURL c0) (clientID c0) (clientSecret c0)]
                \<and> (\<forall>j < length (pcs s1). \<forall>res. pcs s1 ! j = Done res
                       \<longrightarrow> res = Inr (AccessToken tr)))"
    using phase i(1) unfolding s1 by (auto simp: returned_def nth_list_update)
  show ?thesis
    unfolding single_flight_def using lock locked1 phase1 base time by (simp add: s1)
next
  case (Complete i r)
  then obtain tl res c' fx where i: "i < length (pcs s)" "writer s = Some i" "pcs s ! i = Locked tl"
    and rt: "refreshToken (cache s)
               \<lparr> now_check = tl, now_recheck = tl, reply = r, now_store = clock s \<rparr> = (res, c', fx)"
    and s1: "s1 = s\<lparr> cache := c', writer := None, pcs := (pcs s)[i := Done res],
                      posted := posted s @ fx \<rparr>"
    using ex by (auto simp: exec_def split: if_splits pc.splits prod.splits)
  have lasting: "lasting_reply (D - t0) r" using good Complete by simp
  from inv have base: "t0 \<le> clock s" "clock s \<le> D" "lock_ok s"
    and locked: "\<forall>j < length (pcs s). \<forall>t. pcs s ! j = Locked t \<longrightarrow> t0 \<le> t \<and> t \<le> clock s"
    by (simp_all add: single_flight_def)
  have tl: "t0 \<le> tl" "tl \<le> clock s" using locked i by auto
  have lock: "lock_ok s1"
    using base(3) i unfolding s1 lock_ok_def
    by (auto simp: in_refresh_def nth_list_update)
  have locked1: "\<forall>j < length (pcs s1). \<forall>t. pcs s1 ! j = Locked t \<longrightarrow> t0 \<le> t \<and> t \<le> clock s1"
    using locked i(1) unfolding s1 by (auto simp: nth_list_update)
  from inv consider
    (before) "cache s = c0" "posted s = []" "\<forall>j < length (pcs s). \<not> returned (pcs s ! j)"
    | (after) tr where "token (cache s) = Some tr" "D < tokenExpiry (cache s)"
        "posted s = [AuthPost (authURL c0) (clientID c0) (clientSecret c0)]"
        "\<forall>j < length (pcs s). \<forall>res. pcs s ! j = Done res \<longrightarrow> res = Inr (AccessToken tr)"
    by (auto simp: single_flight_def)
  then have phase1: "\<exists>tr. token (cache s1) = Some tr \<and> D < tokenExpiry (cache s1)
                \<and> posted s1 = [AuthPost (authURL c0) (clientID c0) (clientSecret c0)]
                \<and> (\<forall>j < length (pcs s1). \<forall>res. pcs s1 ! j = Done res
                       \<longrightarrow> res = Inr (AccessToken tr))"
  proof cases
    case before
    have miss: "cached_token (cache s) tl = None"
      using fresh tl(1) before(1) by simp
    from refreshToken_lasting [OF miss lasting, of "clock s"] rt
    obtain tr where res: "res = Inr (AccessToken tr)"
      and c': "c' = (cache s)\<lparr> token := Some tr,
                                 tokenExpiry := clock s + expiry_duration (ExpiresIn tr) \<rparr>"
      and fx: "fx = [AuthPost (authURL (cache s)) (clientID (cache s)) (clientSecret (cache s))]"
      and long: "D - t0 < expiry_duration (ExpiresIn tr)"
      by auto
    have "D < clock s + expiry_duration (ExpiresIn tr)" using long base(1) by simp
    moreover have "\<forall>j < length (pcs s). \<forall>x. (pcs s)[i := Done res] ! j = Done x
                       \<longrightarrow> x = Inr (AccessToken tr)"
      using before(3) res i(1) by (auto simp: nth_list_update returned_def)
    ultimately show ?thesis
      unfolding s1 using before(1,2) c' fx by simp
  next
    case after
    have "tl < tokenExpiry (cache s)" using after(2) tl(2) base(2) by simp
    from refreshToken_hit [OF after(1) this, of r "clock s"] rt
    have res: "res = Inr (AccessToken tr)" and c': "c' = cache s" and fx: "fx = []"
      by simp_all
    have "\<forall>j < length (pcs s). \<forall>x. (pcs s)[i := Done res] ! j = Done x
                       \<longrightarrow> x = Inr (AccessToken tr)"
      using after(4) res i(1) by (auto simp: nth_list_update)
    then show ?thesis
      unfolding s1 using after(1,2,3) c' fx by simp
  qed
  show ?thesis
    unfolding single_flight_def using lock locked1 phase1 base time by (simp add: s1)
qed

lemma run_single_flight:
  assumes fresh: "\<forall>t \<ge> t0. cached_token c0 t = None"
  shows "single_flight c0 t0 D s \<Longrightarrow> run s as = Some s' \<Longrightarrow> clock s + elapsed as \<le> D \<Longrightarrow>
         lasting_replies (D - t0) as \<Longrightarrow> single_flight c0 t0 D s'"
proof (induction as arbitrary: s)
  case Nil
  then show ?case by simp
next
  case (Cons a as)
  then obtain s1 where s1: "exec s a = Some s1" and rest: "run s1 as = Some s'"
    by (auto split: option.splits)
  have clock1: "clock s1 + elapsed as \<le> D"
    using Cons.prems(3) exec_clock [OF s1] by (simp add: elapsed_Cons)
  moreover have "0 \<le> elapsed as" using rest by (rule run_elapsed_nonneg)
  ultimately have time: "clock s1 \<le> D" by simp
  have good: "case a of Complete i r \<Rightarrow> lasting_reply (D - t0) r | _ \<Rightarrow> True"
    and goods: "lasting_replies (D - t0) as"
    using Cons.prems(4) by (simp_all add: lasting_replies_def)
  have "single_flight c0 t0 D s1"
    using fresh Cons.prems(1) s1 time good by (rule exec_single_flight)
  then show ?case using Cons.IH rest clock1 goods by blast
qed

lemma single_flight_init:
  "single_flight c t (t + L) (callers_init n c t) = (0 \<le> L)"
  by (auto simp: single_flight_def callers_init_def lock_ok_def in_refresh_def returned_def)

lemma example_oauth_fresh: "cached_token example_oauth t = None"
  by (simp add: cached_token_def example_oauth_def NewOAuthClient_def)

lemma failing_run:
  "run (callers_init 2 example_oauth 0) failing_schedule =
     Some \<lparr> clock = 0, cache = example_oauth, writer = None,
            pcs = [Done (Inl (Errorf ''failed to make request: connection refused'')),
                   Done (Inl (Errorf ''failed to make request: connection refused''))],
            posted = [AuthPost ''https://authenticate.constellation1apis.com/oauth2/token''
                        ''id'' ''secret'',
                      AuthPost ''https://authenticate.constellation1apis.com/oauth2/token''
                        ''id'' ''secret''] \<rparr>"
  by (simp add: failing_schedule_def callers_init_def numeral_2_eq_2 exec_def refreshToken_def
        example_oauth_fresh unreachable_reply_def Let_def)
     (simp add: example_oauth_def NewOAuthClient_def)

lemma succeeding_run:
  "run (callers_init 2 example_oauth 0) succeeding_schedule =
     Some \<lparr> clock = 5,
            cache = example_oauth\<lparr> token := Some example_token,
                                   tokenExpiry := 5 + 3540 * Second \<rparr>,
            writer = None,
            pcs = [Done (Inr ''tok''), Done (Inr ''tok'')],
            posted = [AuthPost ''https://authenticate.constellation1apis.com/oauth2/token''
                        ''id'' ''secret''] \<rparr>"
  by (simp add: succeeding_schedule_def callers_init_def numeral_2_eq_2 exec_def
        refreshToken_def example_oauth_fresh Let_def)
     (simp add: cached_token_def example_token_def expiry_duration_3600 Second_def
        example_oauth_def NewOAuthClient_def)

section \<open>Claim about concurrent callers\<close>

text \<open>
  C2, as the specification states it, fails on the code: two callers find no token,
  the exchange of the first fails, and the second, once it has the lock, finds no token
  again and performs an exchange of its own. Two token requests are sent, not one.
\<close>

theorem refresh_failure_counterexample:
  "map_option posted (run (callers_init 2 example_oauth 0) failing_schedule)
     = Some [AuthPost ''https://authenticate.constellation1apis.com/oauth2/token''
               ''id'' ''secret'',
             AuthPost ''https://authenticate.constellation1apis.com/oauth2/token''
               ''id'' ''secret'']
   \<and> map_option pcs (run (callers_init 2 example_oauth 0) failing_schedule)
     = Some [Done (Inl (Errorf ''failed to make request: connection refused'')),
             Done (Inl (Errorf ''failed to make request: connection refused''))]"
  by (simp add: failing_run)

text \<open>
  C2, amended. In every execution of \<open>n\<close> callers that starts without a valid cached
  token, at most one caller at a time is inside the refresh section. When every
  exchange that is performed succeeds with a token that outlives the execution, at most
  one token request is sent; as soon as a caller has returned exactly one has been
  sent, and every caller that has returned got the access token of that one exchange.
  (When an exchange fails, the next caller to take the lock performs its own.)
\<close>

theorem single_flight_refresh:
  assumes "cached_token c t = None" and "run (callers_init n c t) as = Some s"
  shows "length (pcs s) = n
         \<and> (\<forall>i < n. \<forall>j < n. in_refresh (pcs s ! i) \<and> in_refresh (pcs s ! j) \<longrightarrow> i = j)
         \<and> (lasting_replies (elapsed as) as \<longrightarrow>
              (posted s = [] \<or> posted s = [AuthPost (authURL c) (clientID c) (clientSecret c)])
              \<and> (\<forall>i < n. \<forall>res. pcs s ! i = Done res \<longrightarrow>
                    posted s = [AuthPost (authURL c) (clientID c) (clientSecret c)]
                    \<and> (\<exists>tr. token (cache s) = Some tr \<and> res = Inr (AccessToken tr))))"
proof (intro conjI impI)
  show n: "length (pcs s) = n"
    using run_length [OF assms(2)] by (simp add: callers_init_def)
  have lock: "lock_ok s"
    using lock_ok_init assms(2) by (rule run_lock_ok)
  show "\<forall>i < n. \<forall>j < n. in_refresh (pcs s ! i) \<and> in_refresh (pcs s ! j) \<longrightarrow> i = j"
    using lock_ok_exclusive [OF lock] n by blast
  assume good: "lasting_replies (elapsed as) as"
  have fresh: "\<forall>t' \<ge> t. cached_token c t' = None"
    using assms(1) cached_token_later by blast
  have "0 \<le> elapsed as" using assms(2) by (rule run_elapsed_nonneg)
  then have init: "single_flight c t (t + elapsed as) (callers_init n c t)"
    by (simp add: single_flight_init)
  have "clock (callers_init n c t) + elapsed as \<le> t + elapsed as"
    by (simp add: callers_init_def)
  moreover have "lasting_replies (t + elapsed as - t) as" using good by simp
  ultimately have inv: "single_flight c t (t + elapsed as) s"
    using run_single_flight [OF fresh init assms(2)] by blast
  then consider
    (before) "posted s = []" "\<forall>i < length (pcs s). \<not> returned (pcs s ! i)"
    | (after) tr where "token (cache s) = Some tr"
        "posted s = [AuthPost (authURL c) (clientID c) (clientSecret c)]"
        "\<forall>i < length (pcs s). \<forall>res. pcs s ! i = Done res \<longrightarrow> res = Inr (AccessToken tr)"
    by (auto simp: single_flight_def)
  then have both: "(posted s = [] \<or> posted s = [AuthPost (authURL c) (clientID c) (clientSecret c)])
      \<and> (\<forall>i < n. \<forall>res. pcs s ! i = Done res \<longrightarrow>
            posted s = [AuthPost (authURL c) (clientID c) (clientSecret c)]
            \<and> (\<exists>tr. token (cache s) = Some tr \<and> res = Inr (AccessToken tr)))"
  proof cases
    case before
    then show ?thesis using n by (auto simp: returned_def)
  next
    case after
    then show ?thesis using n by auto
  qed
  show "posted s = [] \<or> posted s = [AuthPost (authURL c) (clientID c) (clientSecret c)]"
    using both by simp
  show "\<forall>i < n. \<forall>res. pcs s ! i = Done res \<longrightarrow>
            posted s = [AuthPost (authURL c) (clientID c) (clientSecret c)]
            \<and> (\<exists>tr. token (cache s) = Some tr \<and> res = Inr (AccessToken tr))"
    using both by simp
qed

theorem single_flight_refresh_witness:
  "map_option posted (run (callers_init 2 example_oauth 0) succeeding_schedule)
     = Some [AuthPost ''https://authenticate.constellation1apis.com/oauth2/token''
               ''id'' ''secret'']
   \<and> map_option pcs (run (callers_init 2 example_oauth 0) succeeding_schedule)
     = Some [Done (Inr ''tok''), Done (Inr ''tok'')]
   \<and> lasting_replies (elapsed succeeding_schedule) succeeding_schedule"
proof -
  have good: "lasting_replies (elapsed succeeding_schedule) succeeding_schedule"
    by (simp add: lasting_replies_def lasting_reply_def elapsed_def succeeding_schedule_def
          example_token_def expiry_duration_3600 Second_def)
  show ?thesis
    using single_flight_refresh [OF example_oauth_fresh succeeding_run] good
    by (simp add: succeeding_run)
qed

end
